(* ===== verification/Prelude.thy ===== *)
theory Prelude
  imports "HOL-Library.Word" "HOL-Library.Signed_Division"
begin

text \<open>
  Shared vocabulary of the development: Go values, errors and slices as HOL values, and the
  generic lemmas the component theories rest on.

  \<^item> bytes are \<open>8 word\<close>; a Go string is a \<open>string\<close> of bytes, \<open>bytes_of\<close> and
    \<open>string_of\<close> are the conversions \<open>[]byte(s)\<close> and \<open>string(b)\<close>;
  \<^item> \<open>go_error\<close> is the tree that \<open>errors.New\<close>, \<open>fmt.Errorf\<close> with \<open>%w\<close>,
    \<open>errors.Join\<close> and \<open>errs.Tag.Wrap\<close> build, with \<open>errors.Is\<close> as \<open>err_is\<close>
    and \<open>Error()\<close> as \<open>err_text\<close>;
  \<^item> \<open>'a outcome\<close> is the result of a call: a value, an error return or a run-time panic;
  \<^item> \<open>go_slice\<close> is a slice seen from its first element to its capacity;
  \<^item> \<open>splice\<close> (the effect of \<open>copy\<close> into a buffer), \<open>chunks\<close>, big-endian
    integers (\<open>encoding/binary\<close>) and hexadecimal text (\<open>encoding/hex\<close>);
  \<^item> the locale \<open>codec\<close>: the contract of an encoder and its decoder.
\<close>

unbundle bit_operations_syntax

named_theorems len_simps \<open>lengths of encodings, splices and chunk lists\<close>
named_theorems go_arith \<open>Go's truncating integer division on non-negative operands\<close>

section \<open>Bytes, strings, integers\<close>

type_synonym byte = "8 word"

definition bytes_of :: "string \<Rightarrow> byte list" where
  "bytes_of s = map of_char s"

definition string_of :: "byte list \<Rightarrow> string" where
  "string_of b = map (\<lambda>w. char_of (unat w)) b"

lemma unat_byte_less [simp]: "unat (w :: byte) < 256"
  by (rule order_less_le_trans [OF unsigned_less]) simp

lemma unat_of_char [simp]: "unat (of_char c :: byte) = of_char c"
proof -
  have "(of_char c :: nat) = of_char c mod 256" by simp
  then have "(of_char c :: nat) < 256" by (metis mod_less_divisor zero_less_numeral)
  then have "unat (of_nat (of_char c) :: byte) = of_char c" by (simp add: unat_of_nat)
  then show ?thesis by (simp add: of_nat_of_char)
qed

lemma of_char_char_of_unat [simp]: "of_char (char_of (unat (w :: byte))) = w"
proof -
  have "of_nat (of_char (char_of (unat w))) = (of_char (char_of (unat w)) :: byte)"
    by (rule of_nat_of_char)
  moreover have "(of_char (char_of (unat w)) :: nat) = unat w" by simp
  moreover have "(of_nat (unat w) :: byte) = w" by simp
  ultimately show ?thesis by (simp only:)
qed

lemma string_of_bytes_of [simp]: "string_of (bytes_of s) = s"
  by (simp add: string_of_def bytes_of_def comp_def)

lemma bytes_of_string_of [simp]: "bytes_of (string_of b) = b"
  by (simp add: string_of_def bytes_of_def comp_def)

lemma length_bytes_of [len_simps]: "length (bytes_of s) = length s"
  by (simp add: bytes_of_def)

lemma length_string_of [len_simps]: "length (string_of b) = length b"
  by (simp add: string_of_def)

text \<open>
  \<open>strconv.FormatInt(i, 10)\<close> and \<open>fmt.Sprintf("%d", i)\<close>.
\<close>

fun nat_digits :: "nat \<Rightarrow> string" where
  "nat_digits n =
     (if n < 10 then [char_of (48 + n)]
      else nat_digits (n div 10) @ [char_of (48 + n mod 10)])"

declare nat_digits.simps [simp del]

definition format_int :: "int \<Rightarrow> string" where
  "format_int i = (if i < 0 then CHR ''-'' # nat_digits (nat (- i)) else nat_digits (nat i))"

definition digits_value :: "string \<Rightarrow> nat" where
  "digits_value s = foldl (\<lambda>a c. 10 * a + (of_char c - 48)) 0 s"

lemma digits_value_nat_digits [simp]: "digits_value (nat_digits n) = n"
proof (induction n rule: nat_digits.induct)
  case (1 n)
  show ?case
  proof (cases "n < 10")
    case True
    then show ?thesis by (simp add: nat_digits.simps [of n] digits_value_def)
  next
    case False
    have m: "(48 + n mod 10) mod 256 = 48 + n mod 10" by simp
    from 1 [OF False] False show ?thesis
      by (simp add: nat_digits.simps [of n] digits_value_def m)
  qed
qed

lemma nat_digits_no_sign: "CHR ''-'' \<notin> set (nat_digits n)"
proof (induction n rule: nat_digits.induct)
  case (1 n)
  have sign: "char_of (48 + d :: nat) \<noteq> CHR ''-''" if "d < 10" for d
  proof
    assume "char_of (48 + d :: nat) = CHR ''-''"
    then have "of_char (char_of (48 + d :: nat)) = (of_char (CHR ''-'') :: nat)" by simp
    with that show False by simp
  qed
  show ?case
  proof (cases "n < 10")
    case True
    with sign [of n] show ?thesis by (simp add: nat_digits.simps [of n] del: char_of_quasi_inj)
  next
    case False
    have "CHR ''-'' \<noteq> char_of (48 + n mod 10)" using sign [of "n mod 10"] by (metis mod_less_divisor zero_less_numeral)
    with 1 [OF False] False show ?thesis by (subst nat_digits.simps) (simp del: char_of_quasi_inj)
  qed
qed

lemma nat_digits_nonempty [simp]: "nat_digits n \<noteq> []"
  by (subst nat_digits.simps) simp

lemma nat_digits_inj: "nat_digits m = nat_digits n \<Longrightarrow> m = n"
  by (metis digits_value_nat_digits)

lemma nat_digits_not_Cons_sign: "nat_digits n \<noteq> CHR ''-'' # xs"
  using nat_digits_no_sign [of n] by (metis list.set_intros(1))

lemma format_int_inj: "format_int i = format_int j \<longleftrightarrow> i = j"
proof
  assume eq: "format_int i = format_int j"
  show "i = j"
  proof (cases "i < 0"; cases "j < 0")
    assume "i < 0" "j < 0"
    with eq have "nat (- i) = nat (- j)" by (auto simp: format_int_def intro: nat_digits_inj)
    with \<open>i < 0\<close> \<open>j < 0\<close> show "i = j" by simp
  next
    assume "\<not> i < 0" "\<not> j < 0"
    with eq have "nat i = nat j" by (auto simp: format_int_def intro: nat_digits_inj)
    with \<open>\<not> i < 0\<close> \<open>\<not> j < 0\<close> show "i = j" by simp
  next
    assume "i < 0" "\<not> j < 0"
    with eq show "i = j"
      using nat_digits_not_Cons_sign [of "nat j"] by (simp add: format_int_def) metis
  next
    assume "\<not> i < 0" "j < 0"
    with eq show "i = j"
      using nat_digits_not_Cons_sign [of "nat i"] by (simp add: format_int_def)
  qed
qed simp

text \<open>
  Go's integer division truncates towards zero: \<open>sdiv\<close> and \<open>smod\<close> on \<open>int\<close>.
\<close>

lemma sdiv_nonneg [go_arith]: "0 \<le> a \<Longrightarrow> 0 \<le> b \<Longrightarrow> a sdiv b = a div (b :: int)"
  by (auto simp: signed_divide_int_def sgn_if)

lemma smod_nonneg [go_arith]: "0 \<le> a \<Longrightarrow> 0 \<le> b \<Longrightarrow> a smod b = a mod (b :: int)"
  by (auto simp: signed_modulo_int_def signed_divide_int_def sgn_if minus_div_mult_eq_mod)

text \<open>The padding that completes \<open>m\<close> to a multiple of 16.\<close>

lemma pad_to_16: "m + (16 - m mod 16) mod 16 = 16 * ((m + 15) div 16)" for m :: nat
proof (cases "m mod 16 = 0")
  case True
  then obtain q where "m = 16 * q" by auto
  then show ?thesis by simp
next
  case False
  define q r where "q = m div 16" and "r = m mod 16"
  have m: "m = 16 * q + r" and r: "0 < r" "r < 16"
    using False by (simp_all add: q_def r_def)
  have "(m + 15) div 16 = (16 * (q + 1) + (r - 1)) div 16" using m r by simp
  also have "\<dots> = q + 1" using r by (subst div_mult_self4) auto
  finally show ?thesis using m r by (simp add: r_def [symmetric])
qed

lemma pad_to_16_le: "m \<le> 16 * k \<Longrightarrow> m + (16 - m mod 16) mod 16 \<le> 16 * k" for m :: nat
proof -
  assume "m \<le> 16 * k"
  then have "(m + 15) div 16 \<le> (16 * k + 15) div 16" by (intro div_le_mono) simp
  also have "(16 * k + 15) div 16 = k" by simp
  finally show ?thesis unfolding pad_to_16 by simp
qed

lemma pad_to_16_mod: "(m + (16 - m mod 16) mod 16) mod 16 = 0" for m :: nat
  unfolding pad_to_16 by simp

section \<open>Errors and outcomes\<close>

datatype go_error =
    ErrNew string
  | ErrWrap string go_error string
  | ErrJoin "go_error list"
  | ErrTag string go_error

text \<open>
  \<open>errors.Is\<close>: the error itself or anything it wraps. Sentinels are package variables with
  distinct texts, so equality of the trees stands for equality of the pointers.
\<close>

fun err_is :: "go_error \<Rightarrow> go_error \<Rightarrow> bool" where
  "err_is (ErrNew s) t = (ErrNew s = t)"
| "err_is (ErrWrap p e q) t = (ErrWrap p e q = t \<or> err_is e t)"
| "err_is (ErrJoin es) t = (ErrJoin es = t \<or> (\<exists>e \<in> set es. err_is e t))"
| "err_is (ErrTag s e) t = (ErrTag s e = t \<or> err_is e t)"

text \<open>\<open>Error()\<close>: \<open>errors.Join\<close> separates the texts by newlines.\<close>

fun join_lines :: "string list \<Rightarrow> string" where
  "join_lines [] = []"
| "join_lines [s] = s"
| "join_lines (s # t # ss) = s @ [char_of (10 :: nat)] @ join_lines (t # ss)"

fun err_text :: "go_error \<Rightarrow> string" where
  "err_text (ErrNew s) = s"
| "err_text (ErrWrap p e q) = p @ err_text e @ q"
| "err_text (ErrJoin es) = join_lines (map err_text es)"
| "err_text (ErrTag s e) = s @ '': '' @ err_text e"

lemma err_is_refl [simp]: "err_is e e"
  by (cases e) auto

datatype 'a outcome = Ok 'a | Err go_error | Panic

fun obind :: "'a outcome \<Rightarrow> ('a \<Rightarrow> 'b outcome) \<Rightarrow> 'b outcome" where
  "obind (Ok x) f = f x"
| "obind (Err e) f = Err e"
| "obind Panic f = Panic"

text \<open>\<open>if err != nil { return wrap(err) }\<close> around a call.\<close>

fun map_err :: "(go_error \<Rightarrow> go_error) \<Rightarrow> 'a outcome \<Rightarrow> 'a outcome" where
  "map_err w (Ok x) = Ok x"
| "map_err w (Err e) = Err (w e)"
| "map_err w Panic = Panic"

lemma obind_Ok_iff: "obind m f = Ok y \<longleftrightarrow> (\<exists>x. m = Ok x \<and> f x = Ok y)"
  by (cases m) auto

lemma obind_Err_iff: "obind m f = Err e \<longleftrightarrow> m = Err e \<or> (\<exists>x. m = Ok x \<and> f x = Err e)"
  by (cases m) auto

lemma obind_Panic_iff: "obind m f = Panic \<longleftrightarrow> m = Panic \<or> (\<exists>x. m = Ok x \<and> f x = Panic)"
  by (cases m) auto

lemma map_err_Ok_iff [simp]: "map_err w m = Ok y \<longleftrightarrow> m = Ok y"
  by (cases m) auto

lemma map_err_Panic_iff [simp]: "map_err w m = Panic \<longleftrightarrow> m = Panic"
  by (cases m) auto

lemma obind_assoc: "obind (obind m f) g = obind m (\<lambda>x. obind (f x) g)"
  by (cases m) auto

text \<open>Left-to-right evaluation of a loop body that may fail.\<close>

fun omap :: "('a \<Rightarrow> 'b outcome) \<Rightarrow> 'a list \<Rightarrow> 'b list outcome" where
  "omap f [] = Ok []"
| "omap f (x # xs) = obind (f x) (\<lambda>y. obind (omap f xs) (\<lambda>ys. Ok (y # ys)))"

lemma omap_Ok_iff: "omap f xs = Ok ys \<longleftrightarrow> list_all2 (\<lambda>x y. f x = Ok y) xs ys"
  by (induction xs arbitrary: ys) (auto simp: obind_Ok_iff list_all2_Cons1)

lemma omap_Ok_length: "omap f xs = Ok ys \<Longrightarrow> length ys = length xs"
  by (auto simp: omap_Ok_iff dest: list_all2_lengthD)

lemma omap_all_Ok: "(\<And>x. x \<in> set xs \<Longrightarrow> f x = Ok (g x)) \<Longrightarrow> omap f xs = Ok (map g xs)"
  by (induction xs) auto

lemma omap_cong [fundef_cong]:
  "xs = ys \<Longrightarrow> (\<And>x. x \<in> set ys \<Longrightarrow> f x = g x) \<Longrightarrow> omap f xs = omap g ys"
  by (induction xs arbitrary: ys) auto

section \<open>Buffers\<close>

text \<open>
  A slice \<open>s\<close> with its backing cells up to \<open>cap(s)\<close>: \<open>sarr\<close> are the cells from the
  first element to the capacity, \<open>slen\<close> is \<open>len(s)\<close>.
\<close>

record go_slice =
  sarr :: "byte list"
  slen :: nat

definition scap :: "go_slice \<Rightarrow> nat" where
  "scap s = length (sarr s)"

definition contents :: "go_slice \<Rightarrow> byte list" where
  "contents s = take (slen s) (sarr s)"

definition valid_slice :: "go_slice \<Rightarrow> bool" where
  "valid_slice s \<longleftrightarrow> slen s \<le> scap s"

lemma length_contents [len_simps]: "valid_slice s \<Longrightarrow> length (contents s) = slen s"
  by (simp add: contents_def valid_slice_def scap_def)

text \<open>
  \<open>window lo n xs\<close> is \<open>xs[lo:lo+n]\<close>; \<open>splice off ys xs\<close> is the buffer \<open>xs\<close> after
  \<open>copy(xs[off:off+len(ys)], ys)\<close>.
\<close>

definition window :: "nat \<Rightarrow> nat \<Rightarrow> 'a list \<Rightarrow> 'a list" where
  "window lo n xs = take n (drop lo xs)"

definition splice :: "nat \<Rightarrow> 'a list \<Rightarrow> 'a list \<Rightarrow> 'a list" where
  "splice off ys xs = take off xs @ ys @ drop (off + length ys) xs"

text \<open>The slice expression \<open>xs[lo:hi]\<close>, with the run-time check it makes.\<close>

definition slice_expr :: "int \<Rightarrow> int \<Rightarrow> 'a list \<Rightarrow> 'a list outcome" where
  "slice_expr lo hi xs =
     (if 0 \<le> lo \<and> lo \<le> hi \<and> hi \<le> int (length xs)
      then Ok (window (nat lo) (nat (hi - lo)) xs) else Panic)"

lemma length_window [len_simps]: "lo + n \<le> length xs \<Longrightarrow> length (window lo n xs) = n"
  by (simp add: window_def)

lemma length_splice [len_simps]:
  "off + length ys \<le> length xs \<Longrightarrow> length (splice off ys xs) = length xs"
  by (simp add: splice_def)

lemma splice_Nil [simp]: "splice off [] xs = xs"
  by (simp add: splice_def)

lemma window_0 [simp]: "window 0 n xs = take n xs"
  by (simp add: window_def)

lemma window_splice_same:
  "off + length ys \<le> length xs \<Longrightarrow> window off (length ys) (splice off ys xs) = ys"
  by (simp add: window_def splice_def)

lemma take_splice: "n \<le> off \<Longrightarrow> off \<le> length xs \<Longrightarrow> take n (splice off ys xs) = take n xs"
  by (simp add: splice_def min_def)

lemma drop_splice:
  assumes "off + length ys \<le> n" and "off \<le> length xs"
  shows "drop n (splice off ys xs) = drop n xs"
proof -
  have "drop n (splice off ys xs) = drop (n - off - length ys) (drop (off + length ys) xs)"
    using assms by (simp add: splice_def)
  also have "\<dots> = drop n xs" using assms by (simp add: add.commute)
  finally show ?thesis .
qed

lemma window_splice_below:
  assumes "lo + n \<le> off" and "off \<le> length xs"
  shows "window lo n (splice off ys xs) = window lo n xs"
proof -
  have w: "window lo n zs = drop lo (take (lo + n) zs)" for zs :: "'a list"
    by (simp add: window_def take_drop add.commute)
  show ?thesis using assms by (simp add: w take_splice)
qed

lemma window_splice_above:
  assumes "off + length ys \<le> lo" and "off \<le> length xs"
  shows "window lo n (splice off ys xs) = window lo n xs"
  using assms by (simp add: window_def drop_splice)

lemma slice_expr_Ok:
  "lo \<le> hi \<Longrightarrow> hi \<le> length xs \<Longrightarrow>
   slice_expr (int lo) (int hi) xs = Ok (window lo (hi - lo) xs)"
  by (simp add: slice_expr_def nat_diff_distrib')

section \<open>Cutting a buffer into pieces\<close>

text \<open>
  \<open>chunks n xs\<close> cuts \<open>xs\<close> into consecutive pieces of \<open>n\<close> elements; the last may be
  shorter. With \<open>n = 0\<close> there is nothing to cut.
\<close>

function chunks :: "nat \<Rightarrow> 'a list \<Rightarrow> 'a list list" where
  "chunks n xs = (if n = 0 \<or> xs = [] then [] else take n xs # chunks n (drop n xs))"
  by pat_completeness auto
termination
  by (relation "measure (\<lambda>(n, xs). length xs)") auto

declare chunks.simps [simp del]

lemma chunks_Nil [simp]: "chunks n [] = []"
  by (subst chunks.simps) simp

lemma concat_chunks [simp]: "0 < n \<Longrightarrow> concat (chunks n xs) = xs"
  by (induction n xs rule: chunks.induct) (subst chunks.simps, simp)

lemma length_chunks [len_simps]:
  "0 < n \<Longrightarrow> length (chunks n xs) = (length xs + n - 1) div n"
proof (induction n xs rule: chunks.induct)
  case (1 n xs)
  show ?case
  proof (cases "xs = []")
    case True
    with "1.prems" show ?thesis by simp
  next
    case False
    define l where "l = length xs"
    have l: "0 < l" using False by (simp add: l_def)
    have ih: "length (chunks n (drop n xs)) = (l - n + n - 1) div n"
      using 1 False by (simp add: l_def)
    have "(l - n + n - 1) div n = (l - 1) div n"
      using "1.prems" by (cases "n \<le> l") auto
    moreover have "l - 1 + n = l + n - 1" using l by simp
    then have "(l + n - 1) div n = Suc ((l - 1) div n)"
      using "1.prems" by (metis div_add_self2 less_numeral_extra(3) Suc_eq_plus1)
    ultimately have "Suc ((l - n + n - 1) div n) = (l + n - 1) div n" by simp
    then show ?thesis using ih "1.prems" False by (subst chunks.simps) (simp add: l_def)
  qed
qed

lemma chunks_append:
  "0 < n \<Longrightarrow> length ys = n \<Longrightarrow> chunks n (ys @ xs) = ys # chunks n xs"
  by (subst chunks.simps) auto

lemma chunks_concat:
  "0 < n \<Longrightarrow> \<forall>ys \<in> set yss. length ys = n \<Longrightarrow> chunks n (concat yss) = yss"
  by (induction yss) (auto simp: chunks_append)

lemma chunks_nth:
  "0 < n \<Longrightarrow> i * n < length xs \<Longrightarrow> chunks n xs ! i = window (i * n) n xs"
proof (induction i arbitrary: xs)
  case 0
  then show ?case by (subst chunks.simps) auto
next
  case (Suc i)
  then have "chunks n (drop n xs) ! i = window (i * n) n (drop n xs)" by simp
  with Suc.prems show ?case by (subst chunks.simps) (auto simp: window_def add.commute)
qed

lemma chunks_member: "ys \<in> set (chunks n xs) \<Longrightarrow> 0 < length ys \<and> length ys \<le> n"
proof (induction n xs rule: chunks.induct)
  case (1 n xs)
  note unfold = chunks.simps [of n xs]
  have ne: "\<not> (n = 0 \<or> xs = [])" using "1.prems" by (auto simp: unfold split: if_splits)
  then have "ys = take n xs \<or> ys \<in> set (chunks n (drop n xs))"
    using "1.prems" by (simp add: unfold)
  with ne "1.IH" show ?case by auto
qed

section \<open>Big-endian integers (encoding/binary)\<close>

fun be_encode :: "nat \<Rightarrow> nat \<Rightarrow> byte list" where
  "be_encode 0 x = []"
| "be_encode (Suc k) x = be_encode k (x div 256) @ [of_nat (x mod 256)]"

definition be_decode :: "byte list \<Rightarrow> nat" where
  "be_decode bs = foldl (\<lambda>a b. a * 256 + unat b) 0 bs"

lemma length_be_encode [simp]: "length (be_encode k x) = k"
  by (induction k arbitrary: x) auto

lemma be_decode_snoc: "be_decode (bs @ [b]) = be_decode bs * 256 + unat b"
  by (simp add: be_decode_def)

lemma be_decode_Nil [simp]: "be_decode [] = 0"
  by (simp add: be_decode_def)

lemma be_decode_encode: "be_decode (be_encode k x) = x mod 256 ^ k"
proof (induction k arbitrary: x)
  case 0
  then show ?case by simp
next
  case (Suc k)
  have "be_decode (be_encode (Suc k) x) = (x div 256) mod 256 ^ k * 256 + x mod 256"
    using Suc by (simp add: be_decode_snoc unat_of_nat)
  also have "\<dots> = x mod (256 * 256 ^ k)"
    by (simp add: mod_mult2_eq)
  finally show ?case by simp
qed

lemma be_encode_decode: "be_encode (length bs) (be_decode bs) = bs"
proof (induction bs rule: rev_induct)
  case Nil
  then show ?case by simp
next
  case (snoc b bs)
  then show ?case by (simp add: be_decode_snoc)
qed

lemma be_decode_less: "be_decode bs < 256 ^ length bs"
proof -
  have "be_decode bs = be_decode bs mod 256 ^ length bs"
    using be_decode_encode [of "length bs" "be_decode bs"] by (simp add: be_encode_decode)
  also have "\<dots> < 256 ^ length bs" by (rule mod_less_divisor) simp
  finally show ?thesis .
qed

lemma be_decode_inj: "length as = length bs \<Longrightarrow> be_decode as = be_decode bs \<Longrightarrow> as = bs"
  by (metis be_encode_decode)

text \<open>\<open>binary.BigEndian.PutUint32\<close>, \<open>Uint32\<close>, \<open>PutUint64\<close>, \<open>Uint64\<close>.\<close>

definition put_uint32 :: "32 word \<Rightarrow> byte list" where
  "put_uint32 w = be_encode 4 (unat w)"

definition uint32 :: "byte list \<Rightarrow> 32 word" where
  "uint32 bs = of_nat (be_decode (take 4 bs))"

definition put_uint64 :: "64 word \<Rightarrow> byte list" where
  "put_uint64 w = be_encode 8 (unat w)"

definition uint64 :: "byte list \<Rightarrow> 64 word" where
  "uint64 bs = of_nat (be_decode (take 8 bs))"

lemma length_put_uint [simp]: "length (put_uint32 a) = 4" "length (put_uint64 b) = 8"
  by (simp_all add: put_uint32_def put_uint64_def)

lemma unat_32_less: "unat (w :: 32 word) < 4294967296"
  by (rule order_less_le_trans [OF unsigned_less]) simp

lemma unat_64_less: "unat (w :: 64 word) < 18446744073709551616"
  by (rule order_less_le_trans [OF unsigned_less]) simp

lemma uint32_put_uint32 [simp]: "uint32 (put_uint32 w @ xs) = w" "uint32 (put_uint32 w) = w"
  using unat_32_less [of w] by (simp_all add: uint32_def put_uint32_def be_decode_encode)

lemma uint64_put_uint64 [simp]: "uint64 (put_uint64 w @ xs) = w" "uint64 (put_uint64 w) = w"
  using unat_64_less [of w] by (simp_all add: uint64_def put_uint64_def be_decode_encode)

lemma put_uint32_uint32 [simp]: "length bs = 4 \<Longrightarrow> put_uint32 (uint32 bs) = bs"
  using be_decode_less [of bs] be_encode_decode [of bs]
  by (simp add: uint32_def put_uint32_def unat_of_nat)

section \<open>Hexadecimal text (encoding/hex)\<close>

definition hex_digit :: "nat \<Rightarrow> char" where
  "hex_digit n = (if n < 10 then char_of (48 + n) else char_of (87 + n))"

definition unhex :: "char \<Rightarrow> nat option" where
  "unhex c =
     (let n = of_char c in
      if 48 \<le> n \<and> n \<le> 57 then Some (n - 48)
      else if 97 \<le> n \<and> n \<le> 102 then Some (n - 87)
      else if 65 \<le> n \<and> n \<le> 70 then Some (n - 55) else None)"

definition hex_encode :: "byte list \<Rightarrow> string" where
  "hex_encode bs = concat (map (\<lambda>b. [hex_digit (unat b div 16), hex_digit (unat b mod 16)]) bs)"

definition ErrHexLength :: go_error where
  "ErrHexLength = ErrNew ''encoding/hex: odd length hex string''"

definition ErrHexByte :: go_error where
  "ErrHexByte = ErrNew ''encoding/hex: invalid byte''"

fun hex_decode :: "string \<Rightarrow> byte list outcome" where
  "hex_decode [] = Ok []"
| "hex_decode [a] = (if unhex a = None then Err ErrHexByte else Err ErrHexLength)"
| "hex_decode (a # b # s) =
     (case (unhex a, unhex b) of
        (Some x, Some y) \<Rightarrow> obind (hex_decode s) (\<lambda>r. Ok (of_nat (16 * x + y) # r))
      | _ \<Rightarrow> Err ErrHexByte)"

lemma unhex_hex_digit [simp]: "n < 16 \<Longrightarrow> unhex (hex_digit n) = Some n"
  by (auto simp: unhex_def hex_digit_def Let_def)

lemma hex_decode_encode [simp]: "hex_decode (hex_encode bs) = Ok bs"
proof (induction bs)
  case Nil
  then show ?case by (simp add: hex_encode_def)
next
  case (Cons b bs)
  have "unat b div 16 < 16" by (rule less_mult_imp_div_less) simp
  with Cons show ?case by (simp add: hex_encode_def)
qed

lemma length_hex_encode [len_simps]: "length (hex_encode bs) = 2 * length bs"
  by (induction bs) (auto simp: hex_encode_def)

section \<open>Codecs\<close>

text \<open>
  The contract between an encoder and its decoder, on the values \<open>valid\<close> admits: encoding
  succeeds and decoding gives the value back. Wrapping, encryption, identifier truncation and
  hexadecimal text all provide it, and their compositions inherit it.
\<close>

locale codec =
  fixes enc :: "'a \<Rightarrow> 'b outcome" and dec :: "'b \<Rightarrow> 'a outcome" and valid :: "'a \<Rightarrow> bool"
  assumes enc_total: "valid x \<Longrightarrow> \<exists>y. enc x = Ok y"
    and dec_enc: "valid x \<Longrightarrow> enc x = Ok y \<Longrightarrow> dec y = Ok x"
begin

lemma roundtrip: "valid x \<Longrightarrow> obind (enc x) dec = Ok x"
  using enc_total dec_enc by (fastforce simp: obind_Ok_iff)

lemma enc_inj: "valid x \<Longrightarrow> valid x' \<Longrightarrow> enc x = enc x' \<Longrightarrow> x = x'"
  using enc_total dec_enc by (metis outcome.inject(1))

lemma enc_not_error: "valid x \<Longrightarrow> enc x \<noteq> Err e \<and> enc x \<noteq> Panic"
  using enc_total by fastforce

end

text \<open>Element-wise use of a codec, and the composition of two.\<close>

lemma codec_omap:
  assumes "codec enc dec valid"
  shows "codec (omap enc) (omap dec) (list_all valid)"
proof
  fix xs
  assume "list_all valid xs"
  then show "\<exists>ys. omap enc xs = Ok ys"
    using codec.enc_total [OF assms] by (induction xs) fastforce+
next
  fix xs ys
  assume "list_all valid xs" and "omap enc xs = Ok ys"
  then show "omap dec ys = Ok xs"
    using codec.dec_enc [OF assms]
    by (induction xs arbitrary: ys) (fastforce simp: obind_Ok_iff)+
qed

lemma codec_compose:
  assumes "codec enc dec valid" and "codec enc' dec' valid'"
    and "\<And>x y. valid x \<Longrightarrow> enc x = Ok y \<Longrightarrow> valid' y"
  shows "codec (\<lambda>x. obind (enc x) enc') (\<lambda>z. obind (dec' z) dec) valid"
proof
  fix x
  assume x: "valid x"
  then obtain y where y: "enc x = Ok y" using codec.enc_total [OF assms(1)] by blast
  then obtain z where z: "enc' y = Ok z" using codec.enc_total [OF assms(2)] assms(3) x by blast
  show "\<exists>z. obind (enc x) enc' = Ok z" using y z by simp
next
  fix x z
  assume x: "valid x" and "obind (enc x) enc' = Ok z"
  then obtain y where y: "enc x = Ok y" and z: "enc' y = Ok z" by (auto simp: obind_Ok_iff)
  then show "obind (dec' z) dec = Ok x"
    using codec.dec_enc [OF assms(1) x y] codec.dec_enc [OF assms(2) assms(3) [OF x y] z] by simp
qed

interpretation hex: codec "\<lambda>b. Ok (hex_encode b)" hex_decode "\<lambda>_. True"
  by unfold_locales auto

lemmas hex_encode_inj = hex.enc_inj [simplified]

end
