(* ===== verification/Crypto.thy ===== *)
theory Crypto
  imports Prelude
begin

text \<open>
  The cryptographic interface the program uses from Go's standard library.

  AES-GCM, HMAC and HKDF are modelled as the standard library has them (\<open>crypto/cipher\<close>,
  \<open>crypto/hmac\<close>, \<open>crypto/hkdf\<close>) over two primitives that stay parameters: the AES block
  function and SHA-256 (record \<open>prims\<close>). No property of the primitives is assumed; their
  types fix the widths of their results.

  The locale \<open>aead\<close> is the contract of \<open>cipher.AEAD\<close> the encryption code relies on;
  GCM provides it, whatever the block function is.
\<close>

record prims =
  aes_block :: "byte list \<Rightarrow> 128 word \<Rightarrow> 128 word"
  sha256 :: "byte list \<Rightarrow> 256 word"

text \<open>An instance of the primitives, for the concrete examples of the properties.\<close>

definition sample_prims :: prims where
  "sample_prims =
     \<lparr>aes_block = \<lambda>k b. b XOR of_nat (length k), sha256 = \<lambda>m. of_nat (be_decode m) * 31 + of_nat (length m)\<rparr>"

definition sha256_sum :: "prims \<Rightarrow> byte list \<Rightarrow> byte list" where
  "sha256_sum P m = be_encode 32 (unat (sha256 P m))"

lemma length_sha256_sum [simp]: "length (sha256_sum P m) = 32"
  by (simp add: sha256_sum_def)

lemma sha256_sum_eq_iff: "sha256_sum P a = sha256_sum P b \<longleftrightarrow> sha256 P a = sha256 P b"
proof
  assume "sha256_sum P a = sha256_sum P b"
  then have "be_decode (sha256_sum P a) = be_decode (sha256_sum P b)" by simp
  moreover have "unat (sha256 P m) < 256 ^ 32" for m using unsigned_less [of "sha256 P m"] by simp
  ultimately show "sha256 P a = sha256 P b" by (simp add: sha256_sum_def be_decode_encode word_unat_eq_iff)
qed (simp add: sha256_sum_def)

section \<open>Random bytes (crypto/rand)\<close>

text \<open>
  \<open>rand.Reader\<close> is an error or a stream of bytes; \<open>io.ReadFull\<close> takes the first ones.
\<close>

type_synonym rand_reader = "(nat \<Rightarrow> byte) outcome"

definition read_full :: "rand_reader \<Rightarrow> nat \<Rightarrow> byte list outcome" where
  "read_full r n = obind r (\<lambda>f. Ok (map f [0..<n]))"

lemma length_read_full: "read_full r n = Ok bs \<Longrightarrow> length bs = n"
  by (auto simp: read_full_def obind_Ok_iff)

section \<open>Authenticated encryption (crypto/cipher)\<close>

record cipher_AEAD =
  NonceSize :: nat
  TagOverhead :: nat
  Seal :: "byte list \<Rightarrow> byte list \<Rightarrow> byte list"
  Open :: "byte list \<Rightarrow> byte list \<Rightarrow> byte list option"

locale aead =
  fixes g :: cipher_AEAD
  assumes open_seal: "Open g n (Seal g n p) = Some p"
    and seal_open: "Open g n c = Some p \<Longrightarrow> c = Seal g n p"
    and length_seal: "length (Seal g n p) = length p + TagOverhead g"
begin

lemma length_open: "Open g n c = Some p \<Longrightarrow> length c = length p + TagOverhead g"
  using seal_open length_seal by metis

lemma open_short: "length c < TagOverhead g \<Longrightarrow> Open g n c = None"
  using length_open by (metis not_add_less2 option.exhaust)

lemma open_inj: "Open g n c = Some p \<Longrightarrow> Open g n c' = Some p \<Longrightarrow> c = c'"
  using seal_open by metis

lemma seal_inj: "Seal g n p = Seal g n p' \<Longrightarrow> p = p'"
  using open_seal by (metis option.inject)

lemma open_iff: "Open g n c = Some p \<longleftrightarrow> c = Seal g n p"
  using open_seal seal_open by metis

end

subsection \<open>GCM over a block function\<close>

definition xor_bytes :: "byte list \<Rightarrow> byte list \<Rightarrow> byte list" where
  "xor_bytes as bs = map2 (XOR) as bs"

definition block_bytes :: "128 word \<Rightarrow> byte list" where
  "block_bytes w = be_encode 16 (unat w)"

definition bytes_block :: "byte list \<Rightarrow> 128 word" where
  "bytes_block bs = of_nat (be_decode bs)"

text \<open>Multiplication in GF(2^128), most significant bit first.\<close>

definition gf_step :: "128 word \<Rightarrow> 128 word \<times> 128 word \<Rightarrow> nat \<Rightarrow> 128 word \<times> 128 word" where
  "gf_step x zv i =
     (case zv of (z, v) \<Rightarrow>
       (if bit x (127 - i) then z XOR v else z,
        if bit v 0 then drop_bit 1 v XOR push_bit 120 225 else drop_bit 1 v))"

definition gf_mul :: "128 word \<Rightarrow> 128 word \<Rightarrow> 128 word" where
  "gf_mul x y = fst (foldl (gf_step x) (0, y) [0..<128])"

definition ghash :: "128 word \<Rightarrow> 128 word list \<Rightarrow> 128 word" where
  "ghash h xs = foldl (\<lambda>y x. gf_mul (y XOR x) h) 0 xs"

definition pad16 :: "byte list \<Rightarrow> byte list" where
  "pad16 bs = bs @ replicate ((16 - length bs mod 16) mod 16) 0"

definition counter_block :: "byte list \<Rightarrow> nat \<Rightarrow> 128 word" where
  "counter_block nonce i = bytes_block (nonce @ be_encode 4 i)"

definition keystream :: "(128 word \<Rightarrow> 128 word) \<Rightarrow> byte list \<Rightarrow> nat \<Rightarrow> byte list" where
  "keystream E nonce n =
     take n (concat (map (\<lambda>i. block_bytes (E (counter_block nonce (i + 2)))) [0..<(n + 15) div 16]))"

definition gcm_tag :: "(128 word \<Rightarrow> 128 word) \<Rightarrow> byte list \<Rightarrow> byte list \<Rightarrow> byte list" where
  "gcm_tag E nonce c =
     block_bytes (E (counter_block nonce 1) XOR
       ghash (E 0) (map bytes_block (chunks 16 (pad16 c)) @ [of_nat (8 * length c)]))"

definition gcm_seal :: "(128 word \<Rightarrow> 128 word) \<Rightarrow> byte list \<Rightarrow> byte list \<Rightarrow> byte list" where
  "gcm_seal E nonce p =
     (let c = xor_bytes p (keystream E nonce (length p)) in c @ gcm_tag E nonce c)"

definition gcm_open :: "(128 word \<Rightarrow> 128 word) \<Rightarrow> byte list \<Rightarrow> byte list \<Rightarrow> byte list option" where
  "gcm_open E nonce ct =
     (if length ct < 16 then None
      else let c = take (length ct - 16) ct; t = drop (length ct - 16) ct
           in if t = gcm_tag E nonce c then Some (xor_bytes c (keystream E nonce (length c))) else None)"

definition NewGCM :: "(128 word \<Rightarrow> 128 word) \<Rightarrow> cipher_AEAD" where
  "NewGCM E = \<lparr>NonceSize = 12, TagOverhead = 16, Seal = gcm_seal E, Open = gcm_open E\<rparr>"

lemma length_concat_const: "(\<And>x. x \<in> set xs \<Longrightarrow> length (f x) = k) \<Longrightarrow> length (concat (map f xs)) = k * length xs"
  by (induction xs) auto

lemma length_block_bytes [simp]: "length (block_bytes w) = 16"
  by (simp add: block_bytes_def)

lemma length_keystream [simp]: "length (keystream E nonce n) = n"
proof -
  have "length (concat (map (\<lambda>i. block_bytes (E (counter_block nonce (i + 2)))) [0..<(n + 15) div 16]))
      = 16 * ((n + 15) div 16)"
    by (subst length_concat_const [where k = 16]) auto
  then show ?thesis by (simp add: keystream_def)
qed

lemma length_gcm_tag [simp]: "length (gcm_tag E nonce c) = 16"
  by (simp add: gcm_tag_def)

lemma length_xor_bytes [simp]: "length (xor_bytes as bs) = min (length as) (length bs)"
  by (simp add: xor_bytes_def)

lemma xor_bytes_twice [simp]: "length as = length bs \<Longrightarrow> xor_bytes (xor_bytes as bs) bs = as"
  by (induction as bs rule: list_induct2) (auto simp: xor_bytes_def xor.assoc)

lemma gcm_open_seal: "gcm_open E n (gcm_seal E n p) = Some p"
  by (simp add: gcm_open_def gcm_seal_def Let_def)

lemma gcm_seal_open: "gcm_open E n c = Some p \<Longrightarrow> c = gcm_seal E n p"
  by (auto simp: gcm_open_def gcm_seal_def Let_def split: if_splits)
    (metis append_take_drop_id)

interpretation gcm: aead "NewGCM E" for E
  by unfold_locales
    (auto simp: NewGCM_def gcm_open_seal dest: gcm_seal_open,
      simp add: gcm_seal_def Let_def)

lemma NewGCM_sizes [simp]: "NonceSize (NewGCM E) = 12" "TagOverhead (NewGCM E) = 16"
  by (simp_all add: NewGCM_def)

section \<open>AES, HMAC and HKDF (crypto/aes, crypto/hmac, crypto/hkdf)\<close>

definition aes_NewCipher :: "prims \<Rightarrow> byte list \<Rightarrow> (128 word \<Rightarrow> 128 word) outcome" where
  "aes_NewCipher P key =
     (if length key \<in> {16, 24, 32} then Ok (aes_block P key)
      else Err (ErrNew ''crypto/aes: invalid key size''))"

definition hmac :: "prims \<Rightarrow> byte list \<Rightarrow> byte list \<Rightarrow> byte list" where
  "hmac P key m =
     (let k0 = (if 64 < length key then sha256_sum P key else key);
          k = k0 @ replicate (64 - length k0) 0
      in sha256_sum P (map (\<lambda>b. b XOR 92) k @ sha256_sum P (map (\<lambda>b. b XOR 54) k @ m)))"

lemma length_hmac [simp]: "length (hmac P key m) = 32"
  by (simp add: hmac_def Let_def)

fun hkdf_block :: "prims \<Rightarrow> byte list \<Rightarrow> byte list \<Rightarrow> nat \<Rightarrow> byte list" where
  "hkdf_block P prk info 0 = []"
| "hkdf_block P prk info (Suc i) = hmac P prk (hkdf_block P prk info i @ info @ [of_nat (Suc i)])"

text \<open>\<open>hkdf.Key(sha256.New, secret, salt, info, n)\<close>; a nil salt is a string of zeros.\<close>

definition hkdf_key :: "prims \<Rightarrow> byte list \<Rightarrow> byte list \<Rightarrow> byte list \<Rightarrow> nat \<Rightarrow> byte list" where
  "hkdf_key P secret salt info n =
     (let prk = hmac P (if salt = [] then replicate 32 0 else salt) secret
      in take n (concat (map (hkdf_block P prk info) [1..<Suc ((n + 31) div 32)])))"

lemma length_hkdf_key [simp]: "length (hkdf_key P secret salt info n) = n"
proof -
  have l: "length (hkdf_block P prk info i) = 32" if "0 < i" for prk i
    using that by (cases i) auto
  have "length (concat (map (hkdf_block P prk info) [1..<Suc ((n + 31) div 32)])) = 32 * ((n + 31) div 32)" for prk
    by (subst length_concat_const [where k = 32]) (auto simp: l)
  then show ?thesis by (simp add: hkdf_key_def Let_def)
qed

end
