(* ===== verification/Encryption.thy ===== *)
theory Encryption
  imports Crypto
begin

text \<open>
  \<open>private/encryption/encryption.go\<close>: whole-buffer AES-GCM encryption under a key derived from
  a master key and an info string.

  \<open>Encrypt\<close> works in place: it shifts the plaintext by the nonce size inside the buffer's
  backing cells, writes the nonce in front and seals over the shifted plaintext. The model passes
  the cells explicitly (\<open>go_slice\<close>) and performs the same writes in the same order.
\<close>

definition keyLength :: nat where "keyLength = 32"

definition Overhead :: nat where "Overhead = 28"

definition ErrBufferTooSmall :: go_error where
  "ErrBufferTooSmall = ErrNew ''buffer too small for encryption''"

definition ErrUnexpectedEOF :: go_error where
  "ErrUnexpectedEOF = ErrNew ''unexpected EOF''"

text \<open>The error \<open>gcm.Open\<close> returns when the tag does not match.\<close>

definition ErrOpen :: go_error where
  "ErrOpen = ErrNew ''cipher: message authentication failed''"

definition gcm_open_call :: "cipher_AEAD \<Rightarrow> byte list \<Rightarrow> byte list \<Rightarrow> byte list outcome" where
  "gcm_open_call g nonce c = (case Open g nonce c of Some p \<Rightarrow> Ok p | None \<Rightarrow> Err ErrOpen)"

definition DeriveKey :: "prims \<Rightarrow> byte list \<Rightarrow> string \<Rightarrow> byte list outcome" where
  "DeriveKey P key info = Ok (hkdf_key P key [] (bytes_of info) keyLength)"

definition GCMCipher :: "prims \<Rightarrow> byte list \<Rightarrow> string \<Rightarrow> cipher_AEAD outcome" where
  "GCMCipher P originKey info =
     obind (DeriveKey P originKey info) (\<lambda>key.
     obind (aes_NewCipher P key) (\<lambda>block. Ok (NewGCM block)))"

definition Encrypt :: "prims \<Rightarrow> rand_reader \<Rightarrow> byte list \<Rightarrow> go_slice \<Rightarrow> string \<Rightarrow> go_slice outcome" where
  "Encrypt P rnd key data info =
     obind (GCMCipher P key info) (\<lambda>gcm.
       if scap data < slen data + Overhead then Err ErrBufferTooSmall
       else
         let ns = NonceSize gcm; n = slen data;
             a1 = splice ns (contents data) (sarr data)
         in obind (read_full rnd ns) (\<lambda>nonce.
              let a2 = splice 0 nonce a1;
                  ciphertext = Seal gcm nonce (window ns n a2);
                  a3 = splice ns ciphertext a2
              in Ok \<lparr>sarr = a3, slen = ns + length ciphertext\<rparr>))"

definition EncryptD :: "prims \<Rightarrow> byte list \<Rightarrow> byte list \<Rightarrow> string \<Rightarrow> byte list outcome" where
  "EncryptD P key data info =
     obind (GCMCipher P key info) (\<lambda>gcm.
       let nonce = take (NonceSize gcm) (hmac P key data)
       in Ok (nonce @ Seal gcm nonce data))"

definition Decrypt :: "prims \<Rightarrow> byte list \<Rightarrow> byte list \<Rightarrow> string \<Rightarrow> byte list outcome" where
  "Decrypt P key encryptedData info =
     obind (GCMCipher P key info) (\<lambda>gcm.
       if length encryptedData < NonceSize gcm + TagOverhead gcm then Err ErrUnexpectedEOF
       else
         let nonce = take (NonceSize gcm) encryptedData;
             ciphertext = drop (NonceSize gcm) encryptedData
         in gcm_open_call gcm nonce ciphertext)"

text \<open>
  \<open>CeilDiv(a, b)\<close>, for positive integers only: with \<open>b = 0\<close> the code panics, and every
  caller passes a positive divisor.
\<close>

definition CeilDiv :: "int \<Rightarrow> int \<Rightarrow> int" where
  "CeilDiv a b = (a + b - 1) sdiv b"

lemma CeilDiv_nat: "0 < b \<Longrightarrow> CeilDiv (int a) (int b) = int ((a + b - 1) div b)"
  by (simp add: CeilDiv_def go_arith zdiv_int of_nat_diff algebra_simps)

section \<open>The cipher of a key and an info string\<close>

definition derived_aead :: "prims \<Rightarrow> byte list \<Rightarrow> string \<Rightarrow> cipher_AEAD" where
  "derived_aead P key info = NewGCM (aes_block P (hkdf_key P key [] (bytes_of info) keyLength))"

lemma GCMCipher_eq: "GCMCipher P key info = Ok (derived_aead P key info)"
  by (simp add: GCMCipher_def DeriveKey_def aes_NewCipher_def derived_aead_def keyLength_def)

lemma derived_aead_sizes [simp]:
  "NonceSize (derived_aead P key info) = 12" "TagOverhead (derived_aead P key info) = 16"
  by (simp_all add: derived_aead_def)

interpretation derived: aead "derived_aead P key info" for P key info
  unfolding derived_aead_def by (rule gcm.aead_axioms)

lemma length_derived_seal [simp]: "length (Seal (derived_aead P key info) n p) = length p + 16"
  using derived.length_seal by simp

lemma gcm_open_call_Ok_iff: "gcm_open_call g n c = Ok p \<longleftrightarrow> Open g n c = Some p"
  by (auto simp: gcm_open_call_def split: option.splits)

section \<open>Encryption in place\<close>

text \<open>What \<open>Encrypt\<close> returns: nonce, then the sealed plaintext.\<close>

lemma Encrypt_Ok:
  assumes "valid_slice data" and "slen data + Overhead \<le> scap data" and "rnd = Ok f"
  shows "\<exists>s. Encrypt P rnd key data info = Ok s \<and> valid_slice s \<and> scap s = scap data \<and>
     contents s = map f [0..<12] @ Seal (derived_aead P key info) (map f [0..<12]) (contents data)"
proof -
  let ?g = "derived_aead P key info" and ?nonce = "map f [0..<12]" and ?n = "slen data"
  let ?a2 = "splice 0 ?nonce (splice 12 (contents data) (sarr data))"
  have len: "length (contents data) = ?n" "?n + 28 \<le> length (sarr data)"
    using assms by (simp_all add: len_simps Overhead_def scap_def)
  have w: "window 12 ?n ?a2 = contents data"
    using len window_splice_above [of 0 ?nonce 12 "splice 12 (contents data) (sarr data)" ?n]
      window_splice_same [of 12 "contents data" "sarr data"]
    by simp
  have a2: "length ?a2 = length (sarr data)" "take 12 ?a2 = ?nonce"
    using len by (simp_all add: len_simps) (simp add: splice_def)
  let ?ct = "Seal ?g ?nonce (contents data)"
  have ct: "length ?ct = ?n + 16" using len by simp
  have "Encrypt P rnd key data info = Ok \<lparr>sarr = splice 12 ?ct ?a2, slen = 12 + length ?ct\<rparr>"
    using assms(2,3) w by (simp add: Encrypt_def GCMCipher_eq read_full_def Let_def)
  moreover have "take (12 + length ?ct) (splice 12 ?ct ?a2) = ?nonce @ ?ct"
    using a2 ct len by (simp add: splice_def)
  moreover have "length (splice 12 ?ct ?a2) = length (sarr data)"
    using a2 ct len by (simp add: len_simps)
  ultimately show ?thesis using len ct
    by (auto simp: valid_slice_def scap_def contents_def)
qed

lemma Decrypt_sealed:
  assumes "length nonce = 12"
  shows "Decrypt P key (nonce @ Seal (derived_aead P key info) nonce p) info = Ok p"
  using assms by (simp add: Decrypt_def GCMCipher_eq gcm_open_call_def derived.open_seal)

lemma Decrypt_Ok_iff:
  "Decrypt P key c info = Ok p \<longleftrightarrow>
   (\<exists>nonce. length nonce = 12 \<and> c = nonce @ Seal (derived_aead P key info) nonce p)"
  (is "?l \<longleftrightarrow> ?r")
proof
  assume ?l
  then have "28 \<le> length c" "Open (derived_aead P key info) (take 12 c) (drop 12 c) = Some p"
    by (auto simp: Decrypt_def GCMCipher_eq gcm_open_call_Ok_iff Let_def not_less split: if_splits)
  then have "length (take 12 c) = 12"
    "c = take 12 c @ Seal (derived_aead P key info) (take 12 c) p"
    using derived.seal_open append_take_drop_id [of 12 c] by (simp, metis)
  then show ?r by blast
qed (auto simp: Decrypt_sealed)

lemma EncryptD_eq:
  "EncryptD P key data info =
   Ok (take 12 (hmac P key data) @ Seal (derived_aead P key info) (take 12 (hmac P key data)) data)"
  by (simp add: EncryptD_def GCMCipher_eq Let_def)

interpretation encd: codec "\<lambda>data. EncryptD P key data info" "\<lambda>c. Decrypt P key c info" "\<lambda>_. True"
  for P key info
  by unfold_locales (auto simp: EncryptD_eq Decrypt_sealed)

section \<open>Properties\<close>

text \<open>\<open>Encrypt\<close> refuses a buffer without room for nonce and tag before it touches it or
  asks for randomness, passes an error of the random source on, and otherwise returns
  \<open>Overhead\<close> bytes more in the same backing cells, which \<open>Decrypt\<close> with the same key and
  info turns back into the plaintext.\<close>

theorem encrypt_decrypt:
  assumes "valid_slice data"
  shows "(scap data < slen data + Overhead \<longrightarrow> Encrypt P rnd key data info = Err ErrBufferTooSmall) \<and>
    (slen data + Overhead \<le> scap data \<longrightarrow>
      (case rnd of
         Err e \<Rightarrow> Encrypt P rnd key data info = Err e
       | Panic \<Rightarrow> Encrypt P rnd key data info = Panic
       | Ok f \<Rightarrow> \<exists>s. Encrypt P rnd key data info = Ok s \<and> valid_slice s \<and>
                  slen s = slen data + Overhead \<and> scap s = scap data \<and>
                  Decrypt P key (contents s) info = Ok (contents data)))"
proof (intro conjI impI)
  show "Encrypt P rnd key data info = Err ErrBufferTooSmall" if "scap data < slen data + Overhead"
    using that by (simp add: Encrypt_def GCMCipher_eq)
next
  assume room: "slen data + Overhead \<le> scap data"
  show "case rnd of
         Err e \<Rightarrow> Encrypt P rnd key data info = Err e
       | Panic \<Rightarrow> Encrypt P rnd key data info = Panic
       | Ok f \<Rightarrow> \<exists>s. Encrypt P rnd key data info = Ok s \<and> valid_slice s \<and>
                  slen s = slen data + Overhead \<and> scap s = scap data \<and>
                  Decrypt P key (contents s) info = Ok (contents data)"
  proof (cases rnd)
    case (Ok f)
    then obtain s where s: "Encrypt P rnd key data info = Ok s" "valid_slice s" "scap s = scap data"
      "contents s = map f [0..<12] @ Seal (derived_aead P key info) (map f [0..<12]) (contents data)"
      using Encrypt_Ok [OF assms room] by blast
    have "slen s = slen data + Overhead"
      using length_contents [OF s(2)] length_contents [OF assms] s(4) by (simp add: Overhead_def)
    then show ?thesis using s Ok by (auto simp: Decrypt_sealed)
  qed (use room in \<open>simp_all add: Encrypt_def GCMCipher_eq read_full_def Let_def\<close>)
qed

theorem encrypt_decrypt_witness:
  "Encrypt sample_prims (Ok of_nat) [1] \<lparr>sarr = replicate 30 5, slen = 3\<rparr> ''k'' = Err ErrBufferTooSmall \<and>
   (\<exists>s. Encrypt sample_prims (Ok of_nat) [1] \<lparr>sarr = replicate 40 5, slen = 3\<rparr> ''k'' = Ok s \<and>
      slen s = 31 \<and> Decrypt sample_prims [1] (contents s) ''k'' = Ok [5, 5, 5])"
  using encrypt_decrypt [of "\<lparr>sarr = replicate 30 5, slen = 3\<rparr>" sample_prims "Ok of_nat" "[1]" "''k''"]
    encrypt_decrypt [of "\<lparr>sarr = replicate 40 5, slen = 3\<rparr>" sample_prims "Ok of_nat" "[1]" "''k''"]
  by (auto simp: valid_slice_def scap_def Overhead_def contents_def numeral_3_eq_3)

text \<open>C35: \<open>Decrypt\<close> accepts exactly the outputs of encryption: the result is a plaintext if and
  only if the input is a 12-byte nonce followed by the AES-GCM seal of that plaintext under it;
  inputs shorter than nonce and tag give \<open>io.ErrUnexpectedEOF\<close>, all others the authentication
  error, and nothing panics.\<close>

theorem decrypt_authentic:
  "(Decrypt P key c info = Ok p \<longleftrightarrow>
     (\<exists>nonce. length nonce = 12 \<and> c = nonce @ Seal (derived_aead P key info) nonce p)) \<and>
   (Decrypt P key c info = Err ErrUnexpectedEOF \<longleftrightarrow> length c < Overhead) \<and>
   (\<exists>q. Decrypt P key c info \<in> {Ok q, Err ErrUnexpectedEOF, Err ErrOpen})"
proof (intro conjI)
  show "Decrypt P key c info = Ok p \<longleftrightarrow>
     (\<exists>nonce. length nonce = 12 \<and> c = nonce @ Seal (derived_aead P key info) nonce p)"
    by (rule Decrypt_Ok_iff)
  show "Decrypt P key c info = Err ErrUnexpectedEOF \<longleftrightarrow> length c < Overhead"
    by (auto simp: Decrypt_def GCMCipher_eq gcm_open_call_def Overhead_def Let_def
        ErrUnexpectedEOF_def ErrOpen_def split: option.splits)
  show "\<exists>q. Decrypt P key c info \<in> {Ok q, Err ErrUnexpectedEOF, Err ErrOpen}"
    by (auto simp: Decrypt_def GCMCipher_eq gcm_open_call_def Let_def split: option.splits)
qed

text \<open>Deterministic encryption always succeeds, decrypts to its input, and gives equal
  ciphertexts only for equal plaintexts (so an encrypted name identifies the name).\<close>

theorem encryptD_deterministic:
  "(\<exists>c. EncryptD P key data info = Ok c \<and> length c = length data + Overhead \<and>
      Decrypt P key c info = Ok data) \<and>
   (EncryptD P key data info = EncryptD P key data' info \<longleftrightarrow> data = data')"
proof (intro conjI)
  obtain c where c: "EncryptD P key data info = Ok c" using encd.enc_total by blast
  moreover have "length c = length data + Overhead"
    using c by (auto simp: EncryptD_eq Overhead_def)
  ultimately show "\<exists>c. EncryptD P key data info = Ok c \<and> length c = length data + Overhead \<and>
      Decrypt P key c info = Ok data"
    using encd.dec_enc by blast
  show "EncryptD P key data info = EncryptD P key data' info \<longleftrightarrow> data = data'"
    using encd.enc_inj [OF TrueI TrueI] by metis
qed

end
