(* ===== verification/Memory.thy ===== *)
theory Memory
  imports Prelude
begin

text \<open>
  \<open>private/memory/memory.go\<close>: the byte-size type and its constants. A \<open>Size\<close> is an
  \<open>int64\<close>, kept at its width: multiplication wraps and division truncates towards zero.
  The rendering of a floating-point quotient with two digits is an argument of \<open>FormatSize\<close>.
\<close>

type_synonym Size = "64 word"

definition B :: Size where "B = push_bit (10 * 0) 1"
definition KiB :: Size where "KiB = push_bit (10 * 1) 1"
definition MiB :: Size where "MiB = push_bit (10 * 2) 1"
definition GiB :: Size where "GiB = push_bit (10 * 3) 1"
definition TiB :: Size where "TiB = push_bit (10 * 4) 1"
definition PiB :: Size where "PiB = push_bit (10 * 5) 1"
definition EiB :: Size where "EiB = push_bit (10 * 6) 1"
definition KB :: Size where "KB = 1000"
definition MB :: Size where "MB = 1000000"
definition GB :: Size where "GB = 1000000000"
definition TB :: Size where "TB = 1000000000000"
definition PB :: Size where "PB = 1000000000000000"
definition EB :: Size where "EB = 1000000000000000000"

definition ToInt64 :: "Size \<Rightarrow> 64 word" where
  "ToInt64 s = s"

definition MulInt64 :: "Size \<Rightarrow> 64 word \<Rightarrow> Size" where
  "MulInt64 s n = s * n"

definition DivInt64 :: "Size \<Rightarrow> 64 word \<Rightarrow> Size outcome" where
  "DivInt64 s n = (if n = 0 then Panic else Ok (word_of_int (sint s sdiv sint n)))"

definition FormatBytes :: "64 word \<Rightarrow> string" where
  "FormatBytes n =
     (if sint (ToInt64 GB) \<le> sint n then format_int (sint n sdiv sint (ToInt64 GB)) @ '' GB''
      else if sint (ToInt64 MB) \<le> sint n then format_int (sint n sdiv sint (ToInt64 MB)) @ '' MB''
      else if sint (ToInt64 KB) \<le> sint n then format_int (sint n sdiv sint (ToInt64 KB)) @ '' KB''
      else format_int (sint n) @ '' Bytes'')"

definition FormatSize :: "(int \<Rightarrow> int \<Rightarrow> string) \<Rightarrow> Size \<Rightarrow> string" where
  "FormatSize two_digits s =
     (if sint EB \<le> sint s then two_digits (sint s) (sint EB) @ ''EB''
      else if sint PB \<le> sint s then two_digits (sint s) (sint PB) @ ''PB''
      else if sint TB \<le> sint s then two_digits (sint s) (sint TB) @ ''TB''
      else if sint GB \<le> sint s then two_digits (sint s) (sint GB) @ ''GB''
      else if sint MB \<le> sint s then two_digits (sint s) (sint MB) @ ''MB''
      else if sint KB \<le> sint s then two_digits (sint s) (sint KB) @ ''KB''
      else format_int (sint s) @ ''B'')"

definition Size_String :: "(int \<Rightarrow> int \<Rightarrow> string) \<Rightarrow> Size \<Rightarrow> string" where
  "Size_String two_digits s = FormatSize two_digits s"

text \<open>The binary constants as integers; all of them fit \<open>int64\<close>.\<close>

lemma sint_binary_sizes:
  "sint KiB = 1024" "sint MiB = 1048576" "sint GiB = 1073741824" "sint EiB = 1152921504606846976"
  by (simp_all add: KiB_def MiB_def GiB_def EiB_def)

lemma sint_decimal_sizes:
  "sint KB = 1000" "sint MB = 1000000" "sint GB = 1000000000" "sint EB = 1000000000000000000"
  by (simp_all add: KB_def MB_def GB_def EB_def)

lemma FormatBytes_example: "FormatBytes 2500000 = ''2 MB''"
  by (simp add: FormatBytes_def ToInt64_def sint_decimal_sizes format_int_def nat_digits.simps
      go_arith char_of_def bit_0)

end
