(* ===== verification/Streamenc.thy ===== *)
theory Streamenc
  imports Encryption Memory
begin

text \<open>
  \<open>private/encryption/streamenc/streamenc.go\<close>: the block format that encrypts a buffer in
  place, one AES-GCM message per 32 KiB block, the header packed into block 0.

  The integers of the layout computations are Go \<open>int\<close>s (\<open>int\<close> here, all far below
  \<open>2 ^ 63\<close>); the plaintext size of the header and the block counter of the nonce are
  \<open>uint32\<close> and kept at that width. Buffers are lists of cells; every slice expression of
  the code whose bounds depend on its input is a \<open>slice_expr\<close>, so a run-time panic is a
  result of the model. The random initial nonce is read from a \<open>rand_reader\<close>.

  The second half relates the in-place loops to a layout of the ciphertext (\<open>sealed_blocks\<close>)
  and to a pure decryption of each block (\<open>block_plain\<close>).
\<close>

section \<open>Constants\<close>

definition nonceSize :: int where "nonceSize = 12"
definition tagSize :: int where "tagSize = 16"
definition ecDataBlocks :: int where "ecDataBlocks = 16"
definition versionSize :: int where "versionSize = 1"
definition plaintextSizeBytes :: int where "plaintextSizeBytes = 4"

definition MaxBlockSize :: int where "MaxBlockSize = sint (32 * KiB)"
definition HeaderSize :: int where "HeaderSize = versionSize + nonceSize + plaintextSizeBytes"
definition Version :: byte where "Version = 1"
definition Block0DataSize :: int where "Block0DataSize = MaxBlockSize - HeaderSize - tagSize"
definition BlockNDataSize :: int where "BlockNDataSize = MaxBlockSize - tagSize"

definition MinCipherTextSize :: int where
  "MinCipherTextSize =
     ((HeaderSize + tagSize + 1 + ecDataBlocks - 1) sdiv ecDataBlocks) * ecDataBlocks"

definition ErrTargetSizeNotAligned :: go_error where
  "ErrTargetSizeNotAligned = ErrNew ''targetSize must be a multiple of 16 bytes''"

definition ErrCiphertextSizeTooSmall :: go_error where
  "ErrCiphertextSizeTooSmall =
     ErrNew (''target size must be at least '' @ format_int MinCipherTextSize @ '' bytes'')"

definition ErrVersionMismatch :: go_error where
  "ErrVersionMismatch = ErrNew ''ciphertext version mismatch''"

lemma MaxBlockSize_eq: "MaxBlockSize = 32768"
  by (simp add: MaxBlockSize_def KiB_def)

lemmas layout_consts = nonceSize_def tagSize_def ecDataBlocks_def versionSize_def
  plaintextSizeBytes_def HeaderSize_def Block0DataSize_def BlockNDataSize_def MaxBlockSize_eq

section \<open>Layout\<close>

definition ParseHeader :: "byte list \<Rightarrow> (byte \<times> byte list \<times> 32 word) outcome" where
  "ParseHeader data =
     (if int (length data) < HeaderSize then Err (ErrNew ''header too short'')
      else Ok (data ! 0,
               window (nat versionSize) (nat nonceSize) data,
               uint32 (window (nat (versionSize + nonceSize)) (nat plaintextSizeBytes) data)))"

definition NumBlocks :: "int \<Rightarrow> int" where
  "NumBlocks plaintextSize =
     (if plaintextSize = 0 then 0
      else if plaintextSize \<le> Block0DataSize then 1
      else 1 + CeilDiv (plaintextSize - Block0DataSize) BlockNDataSize)"

definition BlockDataSize :: "int \<Rightarrow> int \<Rightarrow> int" where
  "BlockDataSize plaintextSize blockIndex =
     (let numBlocks = NumBlocks plaintextSize in
      if blockIndex = 0 then (if numBlocks = 1 then plaintextSize else Block0DataSize)
      else if blockIndex < numBlocks - 1 then BlockNDataSize
      else let filled = Block0DataSize + (blockIndex - 1) * BlockNDataSize
           in plaintextSize - filled)"

definition EncryptedBlock :: "byte list \<Rightarrow> int \<Rightarrow> byte list outcome" where
  "EncryptedBlock ciphertext blockIndex =
     (let start = blockIndex * MaxBlockSize in
      if blockIndex < 0 \<or> int (length ciphertext) \<le> start then Panic
      else slice_expr start (min (start + MaxBlockSize) (int (length ciphertext))) ciphertext)"

definition lastBlockPadding :: "int \<Rightarrow> int \<Rightarrow> int" where
  "lastBlockPadding numBlocks lastData =
     (if numBlocks = 1
      then (ecDataBlocks - (HeaderSize + lastData) smod ecDataBlocks) smod ecDataBlocks
      else (ecDataBlocks - lastData smod ecDataBlocks) smod ecDataBlocks)"

definition Overhead_stream :: "int \<Rightarrow> int" where
  "Overhead_stream plaintextSize =
     (if plaintextSize = 0 then 0
      else
        let numBlocks = NumBlocks plaintextSize;
            lastData = BlockDataSize plaintextSize (numBlocks - 1);
            paddingSize = lastBlockPadding numBlocks lastData;
            lastBlockCipherSize = lastData + paddingSize + tagSize;
            totalSize = (if numBlocks = 1 then HeaderSize + lastBlockCipherSize
                         else (numBlocks - 1) * MaxBlockSize + lastBlockCipherSize)
        in totalSize - plaintextSize)"

definition MaxPlaintextSizeForTarget :: "int \<Rightarrow> int outcome" where
  "MaxPlaintextSizeForTarget targetSize =
     (if targetSize < MinCipherTextSize then Err ErrCiphertextSizeTooSmall
      else if targetSize smod ecDataBlocks \<noteq> 0
      then Err (ErrWrap [] ErrTargetSizeNotAligned
             ('': got '' @ format_int targetSize @ '', ecDataBlocks is '' @ format_int ecDataBlocks))
      else
        let numBlocks = CeilDiv targetSize MaxBlockSize in
        if numBlocks = 1 then Ok (min (targetSize - HeaderSize - tagSize) Block0DataSize)
        else
          let lastBlockCipherSize = targetSize - (numBlocks - 1) * MaxBlockSize;
              lastData = min (lastBlockCipherSize - tagSize) BlockNDataSize
          in Ok (Block0DataSize + (numBlocks - 2) * BlockNDataSize + lastData))"

definition BlockNonce :: "byte list \<Rightarrow> int \<Rightarrow> byte list" where
  "BlockNonce initialNonce blockIndex =
     (let v = uint32 (drop 8 initialNonce)
      in take 8 initialNonce @ put_uint32 (v + of_int blockIndex))"

section \<open>Encryption\<close>

text \<open>One turn of the loop: read the block's plaintext, pad it, seal it at its offset.\<close>

definition encrypt_block ::
  "cipher_AEAD \<Rightarrow> byte list \<Rightarrow> int \<Rightarrow> int \<Rightarrow> int \<Rightarrow> int \<Rightarrow> byte list \<Rightarrow> byte list outcome" where
  "encrypt_block gcm initialNonce plaintextLen lastBlockIndex lastPadded i buf =
     (let capacity = (if i = 0 then Block0DataSize else BlockNDataSize);
          plaintextStart = (if i = 0 then 0 else Block0DataSize + (i - 1) * BlockNDataSize);
          plaintextEnd = min (plaintextStart + capacity) plaintextLen;
          blockLen = plaintextEnd - plaintextStart;
          paddedLen = (if i = lastBlockIndex then lastPadded else capacity);
          offset = (if i = 0 then HeaderSize else i * MaxBlockSize)
      in if BlockNDataSize < blockLen \<or> BlockNDataSize < paddedLen then Panic
         else
           obind (slice_expr plaintextStart plaintextEnd buf) (\<lambda>plain.
           let tmp = take (nat paddedLen) (plain @ replicate (nat (paddedLen - blockLen)) 0);
               nonce = BlockNonce initialNonce i
           in obind (slice_expr offset (offset + paddedLen + tagSize) buf) (\<lambda>_.
              Ok (splice (nat offset) (Seal gcm nonce tmp) buf))))"

text \<open>\<open>for i := numBlocks - 1; i >= 0; i--\<close>; the argument counts the blocks still to do.\<close>

fun encrypt_blocks ::
  "cipher_AEAD \<Rightarrow> byte list \<Rightarrow> int \<Rightarrow> int \<Rightarrow> int \<Rightarrow> nat \<Rightarrow> byte list \<Rightarrow> byte list outcome" where
  "encrypt_blocks gcm iv plaintextLen lastBlockIndex lastPadded 0 buf = Ok buf"
| "encrypt_blocks gcm iv plaintextLen lastBlockIndex lastPadded (Suc i) buf =
     obind (encrypt_block gcm iv plaintextLen lastBlockIndex lastPadded (int i) buf)
       (encrypt_blocks gcm iv plaintextLen lastBlockIndex lastPadded i)"

definition Encrypt_stream ::
  "prims \<Rightarrow> rand_reader \<Rightarrow> byte list \<Rightarrow> go_slice \<Rightarrow> string \<Rightarrow> (int \<times> byte list) outcome" where
  "Encrypt_stream P rnd key buf info =
     (if slen buf = 0 then Err (ErrNew ''plaintext cannot be empty'')
      else
        let plaintextLen = int (slen buf);
            numBlocks = NumBlocks plaintextLen;
            lastBlockIndex = numBlocks - 1;
            lastData = BlockDataSize plaintextLen lastBlockIndex;
            padding = lastBlockPadding numBlocks lastData;
            lastBlockCipherSize = lastData + padding + tagSize;
            totalSize = (if numBlocks = 1 then HeaderSize + lastBlockCipherSize
                         else (numBlocks - 1) * MaxBlockSize + lastBlockCipherSize)
        in if int (scap buf) < totalSize then Err ErrBufferTooSmall
           else
             obind (GCMCipher P key info) (\<lambda>gcm.
             obind (read_full rnd (nat nonceSize)) (\<lambda>initialNonce.
             obind (encrypt_blocks gcm initialNonce plaintextLen lastBlockIndex (lastData + padding)
                      (nat numBlocks) (sarr buf)) (\<lambda>out.
             let out1 = splice 0 [Version] out;
                 out2 = splice (nat versionSize) initialNonce out1;
                 out3 = splice (nat (versionSize + nonceSize)) (put_uint32 (of_int plaintextLen)) out2
             in Ok (totalSize, out3)))))"

section \<open>Decryption\<close>

text \<open>
  \<open>DecryptBlock\<close> returns the number of plaintext bytes and the buffer after the call: the
  plaintext is opened over the ciphertext, its padding is cleared, and for block 0 it is moved to
  the front, over the header.
\<close>

definition DecryptBlock ::
  "cipher_AEAD \<Rightarrow> byte list \<Rightarrow> byte list \<Rightarrow> byte \<Rightarrow> int \<Rightarrow> int \<Rightarrow> (int \<times> byte list) outcome" where
  "DecryptBlock gcm buf initialNonce version blockIndex plaintextSize =
     (if blockIndex = 0 \<and> int (length buf) < HeaderSize
      then Err (ErrNew ''block 0 too short to contain header'')
      else if blockIndex = 0 \<and> buf ! 0 \<noteq> version
      then Err (ErrWrap [] ErrVersionMismatch
             ('': got '' @ format_int (uint (buf ! 0)) @ '', want '' @ format_int (uint version)))
      else
        let base = (if blockIndex = 0 then nat HeaderSize else 0);
            ciphertext = drop base buf;
            nonce = BlockNonce initialNonce blockIndex
        in obind (gcm_open_call gcm nonce ciphertext) (\<lambda>plain.
           let actual = BlockDataSize plaintextSize blockIndex
           in obind (slice_expr actual (int (length plain)) plain) (\<lambda>trailing.
              let cleared = take (nat actual) plain @ replicate (length trailing) 0;
                  buf1 = splice base cleared buf;
                  buf2 = (if blockIndex = 0 then splice 0 (take (nat actual) cleared) buf1 else buf1)
              in Ok (actual, buf2))))"

text \<open>\<open>for i := range numBlocks\<close>: \<open>k\<close> blocks remain, block \<open>i\<close> is next.\<close>

fun decrypt_blocks ::
  "cipher_AEAD \<Rightarrow> byte list \<Rightarrow> byte \<Rightarrow> int \<Rightarrow> nat \<Rightarrow> int \<Rightarrow> int \<Rightarrow> byte list \<Rightarrow>
   (int \<times> byte list) outcome" where
  "decrypt_blocks gcm iv version plaintextSize 0 i offset buf = Ok (offset, buf)"
| "decrypt_blocks gcm iv version plaintextSize (Suc k) i offset buf =
     (let start = i * MaxBlockSize;
          blockEnd = min (start + MaxBlockSize) (int (length buf))
      in obind (slice_expr start blockEnd buf) (\<lambda>block.
         obind (DecryptBlock gcm block iv version i plaintextSize) (\<lambda>(n, block').
         let buf1 = splice (nat start) block' buf
         in obind (slice_expr start (start + n) buf1) (\<lambda>src.
            let buf2 = splice (nat offset) src buf1
            in decrypt_blocks gcm iv version plaintextSize k (i + 1) (offset + n) buf2))))"

definition DecryptAllBlocks ::
  "prims \<Rightarrow> byte list \<Rightarrow> byte list \<Rightarrow> string \<Rightarrow> byte \<Rightarrow> (int \<times> byte list) outcome" where
  "DecryptAllBlocks P key buf info version =
     obind (ParseHeader buf) (\<lambda>(ver, initialNonce, plaintextSize32).
       if ver \<noteq> version
       then Err (ErrWrap [] ErrVersionMismatch
              ('': got '' @ format_int (uint ver) @ '', want '' @ format_int (uint version)))
       else
         let plaintextSize = uint plaintextSize32
         in obind (GCMCipher P key info) (\<lambda>gcm.
            obind (decrypt_blocks gcm initialNonce version plaintextSize
                     (nat (NumBlocks plaintextSize)) 0 0 buf) (\<lambda>(offset, buf').
            Ok (offset, take (nat offset) buf' @ replicate (length buf' - nat offset) 0))))"

section \<open>The layout on natural numbers\<close>

text \<open>
  Block \<open>i\<close> holds the plaintext bytes from \<open>pstart i\<close>, \<open>bsize n i\<close> of them when the
  plaintext has \<open>n\<close> bytes; its ciphertext stands at \<open>coff i\<close> and ends at \<open>cend n i\<close>.
\<close>

definition nblocks :: "nat \<Rightarrow> nat" where
  "nblocks n = (if n = 0 then 0 else Suc ((n - 32735 + 32751) div 32752))"

fun pstart :: "nat \<Rightarrow> nat" where
  "pstart 0 = 0"
| "pstart (Suc i) = 32735 + i * 32752"

definition bsize :: "nat \<Rightarrow> nat \<Rightarrow> nat" where
  "bsize n i = min (pstart (Suc i)) n - pstart i"

definition coff :: "nat \<Rightarrow> nat" where
  "coff i = (if i = 0 then 17 else i * 32768)"

definition plen :: "nat \<Rightarrow> nat \<Rightarrow> nat" where
  "plen n i = bsize n i + (16 - ((if i = 0 then 17 else 0) + bsize n i) mod 16) mod 16"

definition cend :: "nat \<Rightarrow> nat \<Rightarrow> nat" where
  "cend n i = coff i + plen n i + 16"

definition csize :: "nat \<Rightarrow> nat" where
  "csize n = cend n (nblocks n - 1)"

lemma less_nblocks_iff: "i < nblocks n \<longleftrightarrow> pstart i < n"
proof (cases i)
  case 0
  then show ?thesis by (simp add: nblocks_def)
next
  case (Suc j)
  have "Suc j < nblocks n \<longleftrightarrow> 0 < n \<and> Suc j \<le> (n - 32735 + 32751) div 32752"
    by (simp add: nblocks_def less_Suc_eq_le Suc_le_eq)
  also have "\<dots> \<longleftrightarrow> 0 < n \<and> Suc j * 32752 \<le> n - 32735 + 32751"
    by (subst less_eq_div_iff_mult_less_eq) auto
  also have "\<dots> \<longleftrightarrow> pstart (Suc j) < n" by auto
  finally show ?thesis using Suc by simp
qed

lemma le_pstart_nblocks: "n \<le> pstart (nblocks n)"
  using less_nblocks_iff [of "nblocks n" n] by simp

lemma pstart_le_coff: "pstart i \<le> coff i"
  by (cases i) (auto simp: coff_def)

lemma pstart_mono: "i \<le> j \<Longrightarrow> pstart i \<le> pstart j"
  by (cases i; cases j) auto

lemma pstart_le: "pstart i \<le> i * 32768"
  by (cases i) auto

lemma pstart_Suc_le: "pstart (Suc i) \<le> pstart i + 32752"
  by (cases i) auto

lemma bsize_pos: "i < nblocks n \<Longrightarrow> 0 < bsize n i"
  using pstart_mono [of i "Suc i"] by (cases i) (auto simp: less_nblocks_iff bsize_def)

lemma bsize_le: "bsize n i \<le> 32752"
  using pstart_Suc_le [of i] by (simp add: bsize_def)

lemma bsize_full: "Suc i < nblocks n \<Longrightarrow> bsize n i = (if i = 0 then 32735 else 32752)"
  by (cases i) (auto simp: less_nblocks_iff bsize_def)

lemma pstart_bsize: "i < nblocks n \<Longrightarrow> pstart i + bsize n i = min (pstart (Suc i)) n"
  using pstart_mono [of i "Suc i"] by (simp add: less_nblocks_iff bsize_def)

lemma plen_bounds: "bsize n i \<le> plen n i" "plen n i \<le> (if i = 0 then 32735 else 32752)"
proof -
  show "bsize n i \<le> plen n i" by (simp add: plen_def)
  have b: "bsize n 0 \<le> 32735" by (simp add: bsize_def)
  show "plen n i \<le> (if i = 0 then 32735 else 32752)"
    using pad_to_16_le [of "17 + bsize n 0" 2047] pad_to_16_le [of "bsize n i" 2047] b bsize_le [of n i]
    by (simp add: plen_def)
qed

lemma plen_full: "Suc i < nblocks n \<Longrightarrow> plen n i = (if i = 0 then 32735 else 32752)"
  using bsize_full [of i n] plen_bounds [of n i] by auto

lemma cend_le: "cend n i \<le> Suc i * 32768"
  using plen_bounds [of n i] by (auto simp: cend_def coff_def)

lemma cend_full: "Suc i < nblocks n \<Longrightarrow> cend n i = coff (Suc i)"
  using plen_full [of i n] by (simp add: cend_def coff_def split: if_splits)

lemma cend_aligned: "cend n i mod 16 = 0"
proof (cases "i = 0")
  case True
  have "cend n 0 = (17 + bsize n 0) + (16 - (17 + bsize n 0) mod 16) mod 16 + 16"
    by (simp add: cend_def coff_def plen_def)
  then show ?thesis using pad_to_16_mod [of "17 + bsize n 0"] True by (simp only: mod_add_self2)
next
  case False
  then have "cend n i = (bsize n i + (16 - bsize n i mod 16) mod 16) + (i * 2048 + 1) * 16"
    by (simp add: cend_def coff_def plen_def)
  then show ?thesis using pad_to_16_mod [of "bsize n i"] by (simp only: mod_mult_self1)
qed

lemma cend_le_csize: "i < nblocks n \<Longrightarrow> cend n i \<le> csize n"
proof -
  assume i: "i < nblocks n"
  show ?thesis
  proof (cases "Suc i < nblocks n")
    case True
    then have "cend n i = Suc i * 32768" by (simp add: cend_full coff_def)
    also have "\<dots> \<le> coff (nblocks n - 1)" using True by (simp add: coff_def)
    also have "\<dots> \<le> csize n" by (simp add: csize_def cend_def)
    finally show ?thesis .
  next
    case False
    with i have "i = nblocks n - 1" by simp
    then show ?thesis by (simp add: csize_def)
  qed
qed

lemma le_csize: "0 < n \<Longrightarrow> n + 33 \<le> csize n"
proof -
  assume n: "0 < n"
  define i where "i = nblocks n - 1"
  have i: "i < nblocks n" "Suc i = nblocks n" using n by (simp_all add: i_def nblocks_def)
  have "n = pstart i + bsize n i"
    using pstart_bsize [OF i(1)] le_pstart_nblocks [of n] i by simp
  moreover have "pstart i + 17 \<le> coff i" by (cases i) (auto simp: coff_def)
  ultimately have "n + 33 \<le> cend n i" using plen_bounds(1) [of n i] by (simp add: cend_def)
  then show ?thesis by (simp add: csize_def i_def)
qed

section \<open>The code's integers compute the layout\<close>

lemma NumBlocks_nat: "NumBlocks (int n) = int (nblocks n)"
proof (cases "n \<le> 32735")
  case True
  then show ?thesis by (simp add: NumBlocks_def nblocks_def layout_consts)
next
  case False
  then have "int n - 32735 = int (n - 32735)" by simp
  then show ?thesis
    using False CeilDiv_nat [of 32752 "n - 32735"]
    by (simp add: NumBlocks_def nblocks_def layout_consts)
qed

lemma BlockDataSize_nat:
  assumes "i < nblocks n"
  shows "BlockDataSize (int n) (int i) = int (bsize n i)"
proof (cases i)
  case 0
  show ?thesis
  proof (cases "nblocks n = 1")
    case True
    then have "n \<le> 32735" using le_pstart_nblocks [of n] by simp
    with 0 True show ?thesis by (simp add: BlockDataSize_def NumBlocks_nat bsize_def)
  next
    case False
    with 0 assms have "Suc 0 < nblocks n" by simp
    with 0 False show ?thesis
      by (simp add: BlockDataSize_def NumBlocks_nat bsize_full layout_consts)
  qed
next
  case (Suc j)
  show ?thesis
  proof (cases "Suc i < nblocks n")
    case True
    with Suc show ?thesis
      by (simp add: BlockDataSize_def NumBlocks_nat bsize_full layout_consts)
  next
    case False
    then have "nblocks n = Suc i" using assms by simp
    then have "n \<le> pstart (Suc i)" "pstart i < n"
      using le_pstart_nblocks [of n] assms less_nblocks_iff [of i n] by simp_all
    with Suc False assms show ?thesis
      by (simp add: BlockDataSize_def NumBlocks_nat bsize_def layout_consts of_nat_diff)
  qed
qed

lemma lastPadding_nat:
  assumes "0 < n"
  shows "int (bsize n (nblocks n - 1)) + lastBlockPadding (int (nblocks n)) (int (bsize n (nblocks n - 1)))
    = int (plen n (nblocks n - 1))"
proof -
  have pad: "(16 - int m mod 16) smod 16 = int ((16 - m mod 16) mod 16)" for m
  proof -
    have "16 - int m mod 16 = int (16 - m mod 16)" by (simp add: of_nat_diff zmod_int)
    then show ?thesis by (simp only: go_arith of_nat_0_le_iff zero_le_numeral zmod_int of_nat_numeral)
  qed
  have "0 < nblocks n" using assms by (simp add: nblocks_def)
  then show ?thesis
    by (auto simp: lastBlockPadding_def layout_consts plen_def smod_nonneg
        pad [of "17 + bsize n 0", simplified] pad)
qed

lemma totalSize_nat:
  assumes "0 < n"
  shows "(if int (nblocks n) = 1 then HeaderSize + (int (plen n (nblocks n - 1)) + tagSize)
          else (int (nblocks n) - 1) * MaxBlockSize + (int (plen n (nblocks n - 1)) + tagSize))
    = int (csize n)"
proof -
  have "0 < nblocks n" using assms by (simp add: nblocks_def)
  then show ?thesis
    by (auto simp: layout_consts csize_def cend_def coff_def of_nat_diff algebra_simps)
qed

lemma Overhead_stream_nat: "0 < n \<Longrightarrow> Overhead_stream (int n) = int (csize n) - int n"
proof -
  assume n: "0 < n"
  then have N: "0 < nblocks n" by (simp add: nblocks_def)
  then have last: "int (nblocks n) - 1 = int (nblocks n - 1)" by simp
  have b: "BlockDataSize (int n) (int (nblocks n) - 1) = int (bsize n (nblocks n - 1))"
    unfolding last using N by (intro BlockDataSize_nat) simp
  have "int n \<noteq> 0" using n by simp
  then show ?thesis
    unfolding Overhead_stream_def Let_def NumBlocks_nat b lastPadding_nat [OF n] totalSize_nat [OF n]
    by (simp only: if_False)
qed

section \<open>Encryption in place\<close>

text \<open>What the code relies on in the cipher it was given: 16 bytes of tag.\<close>

locale aead16 = aead +
  assumes overhead16: "TagOverhead g = 16"

definition padded :: "nat \<Rightarrow> byte list \<Rightarrow> nat \<Rightarrow> byte list" where
  "padded n p i = window (pstart i) (bsize n i) p @ replicate (plen n i - bsize n i) 0"

definition sealed :: "cipher_AEAD \<Rightarrow> byte list \<Rightarrow> nat \<Rightarrow> byte list \<Rightarrow> nat \<Rightarrow> byte list" where
  "sealed g iv n p i = Seal g (BlockNonce iv (int i)) (padded n p i)"

definition stream_header :: "byte list \<Rightarrow> nat \<Rightarrow> byte list" where
  "stream_header iv n = [Version] @ iv @ put_uint32 (of_nat n)"

text \<open>The ciphertext of a plaintext, block after block.\<close>

definition sealed_blocks :: "cipher_AEAD \<Rightarrow> byte list \<Rightarrow> byte list \<Rightarrow> byte list" where
  "sealed_blocks g iv p =
     stream_header iv (length p) @ concat (map (sealed g iv (length p) p) [0..<nblocks (length p)])"

lemma length_padded:
  assumes "i < nblocks n" and "n \<le> length p"
  shows "length (padded n p i) = plen n i"
proof -
  have "pstart i + bsize n i \<le> length p" using pstart_bsize [OF assms(1)] assms(2) by simp
  then show ?thesis using plen_bounds(1) [of n i] by (simp add: padded_def len_simps)
qed

lemma padded_cong: "take n p = take n q \<Longrightarrow> i < nblocks n \<Longrightarrow> padded n p i = padded n q i"
proof -
  assume eq: "take n p = take n q" and i: "i < nblocks n"
  have "window (pstart i) (bsize n i) r = drop (pstart i) (take (pstart i + bsize n i) (take n r))" for r :: "byte list"
  proof -
    have "pstart i + bsize n i \<le> n" using pstart_bsize [OF i] by simp
    then show ?thesis by (simp add: window_def take_drop min_absorb1 add.commute)
  qed
  then show ?thesis using eq by (simp only: padded_def)
qed

context aead16 begin

lemma length_seal16: "length (Seal g nonce p) = length p + 16"
  by (simp add: length_seal overhead16)

lemma length_sealed: "i < nblocks n \<Longrightarrow> n \<le> length p \<Longrightarrow> length (sealed g iv n p i) = plen n i + 16"
  by (simp add: sealed_def length_seal16 length_padded)

lemma encrypt_block_step:
  assumes i: "i < nblocks n" and buf: "csize n \<le> length buf"
  shows "encrypt_block g iv (int n) (int (nblocks n) - 1) (int (plen n (nblocks n - 1))) (int i) buf =
         Ok (splice (coff i) (sealed g iv n buf i) buf)"
proof -
  have n: "0 < n" "n \<le> length buf" using i buf le_csize [of n] by (auto simp: nblocks_def split: if_splits)
  have start: "(if int i = 0 then 0 else Block0DataSize + (int i - 1) * BlockNDataSize) = int (pstart i)"
    by (cases i) (auto simp: layout_consts)
  have cap: "int (pstart i) + (if int i = 0 then Block0DataSize else BlockNDataSize) = int (pstart (Suc i))"
    by (cases i) (auto simp: layout_consts)
  have pl: "(if int i = int (nblocks n) - 1 then int (plen n (nblocks n - 1))
             else if int i = 0 then Block0DataSize else BlockNDataSize) = int (plen n i)"
  proof (cases "Suc i < nblocks n")
    case True
    then show ?thesis by (auto simp: plen_full layout_consts)
  next
    case False
    with i have "i = nblocks n - 1" by simp
    with i show ?thesis by (simp add: of_nat_diff)
  qed
  have off: "(if int i = 0 then HeaderSize else int i * MaxBlockSize) = int (coff i)"
    by (simp add: coff_def layout_consts)
  have fin: "min (int (pstart (Suc i))) (int n) = int (pstart i + bsize n i)"
    using pstart_bsize [OF i] by simp
  have bounds: "bsize n i \<le> plen n i" "plen n i \<le> 32752" "pstart i + bsize n i \<le> length buf"
    "coff i + plen n i + 16 \<le> length buf"
    using plen_bounds [of n i] pstart_bsize [OF i] n(2) cend_le_csize [OF i] buf
    by (auto simp: cend_def split: if_splits)
  have w: "length (window (pstart i) (bsize n i) buf) = bsize n i"
    using bounds by (simp add: len_simps)
  have s1: "slice_expr (int (pstart i)) (int (pstart i + bsize n i)) buf
      = Ok (window (pstart i) (bsize n i) buf)"
    using bounds by (subst slice_expr_Ok) auto
  have s2: "slice_expr (int (coff i)) (int (coff i) + int (plen n i) + 16) buf =
      Ok (window (coff i) (plen n i + 16) buf)"
    using bounds slice_expr_Ok [of "coff i" "coff i + plen n i + 16" buf] by simp
  have d: "nat (int (plen n i) - int (bsize n i)) = plen n i - bsize n i" by simp
  show ?thesis
    unfolding encrypt_block_def Let_def start cap pl off fin
    using bounds s2
    by (simp add: s1 [simplified] layout_consts w sealed_def padded_def d)
qed


text \<open>
  The loop runs from the last block down. Before block \<open>k\<close> is sealed, the plaintext of the
  blocks below it is still in place: block \<open>k\<close> is written from \<open>coff k\<close> on, and the
  plaintext before it ends at \<open>pstart k \<le> coff k\<close>.
\<close>

lemma encrypt_blocks_in_place:
  assumes "k \<le> nblocks n" and "csize n \<le> length buf"
  shows "\<exists>out. encrypt_blocks g iv (int n) (int (nblocks n) - 1) (int (plen n (nblocks n - 1))) k buf = Ok out \<and>
    length out = length buf \<and>
    (\<forall>i<k. window (coff i) (plen n i + 16) out = sealed g iv n buf i) \<and>
    drop (k * 32768) out = drop (k * 32768) buf \<and>
    (0 < k \<longrightarrow> drop (cend n (k - 1)) out = drop (cend n (k - 1)) buf)"
  using assms
proof (induction k arbitrary: buf)
  case 0
  then show ?case by simp
next
  case (Suc k)
  let ?enc = "encrypt_blocks g iv (int n) (int (nblocks n) - 1) (int (plen n (nblocks n - 1)))"
  let ?s = "sealed g iv n buf k"
  define buf' where "buf' = splice (coff k) ?s buf"
  have k: "k < nblocks n" and n: "n \<le> length buf"
    using Suc.prems le_csize [of n] by (auto simp: nblocks_def split: if_splits)
  have ls: "length ?s = plen n k + 16" using k n by (rule length_sealed)
  have fit: "coff k + length ?s \<le> length buf"
    using cend_le_csize [OF k] Suc.prems(2) by (simp add: cend_def ls)
  have len: "length buf' = length buf" using fit by (simp add: buf'_def len_simps)
  have low: "take (coff k) buf' = take (coff k) buf"
    using fit by (simp add: buf'_def take_splice)
  have up: "drop (cend n k) buf' = drop (cend n k) buf"
    using fit by (simp add: buf'_def drop_splice cend_def ls)
  have same: "sealed g iv n buf' i = sealed g iv n buf i" if "i < k" for i
  proof -
    have i: "i < nblocks n" using that k by simp
    have "pstart i + bsize n i \<le> pstart (Suc i)" using pstart_bsize [OF i] by simp
    also have "\<dots> \<le> coff k" using that pstart_mono [of "Suc i" k] pstart_le_coff [of k] by simp
    finally have le: "pstart i + bsize n i \<le> coff k" .
    have "window (pstart i) (bsize n i) buf' = window (pstart i) (bsize n i) buf"
      using le fit by (simp add: buf'_def window_splice_below)
    then show ?thesis by (simp add: sealed_def padded_def)
  qed
  have step: "?enc (Suc k) buf = ?enc k buf'"
    by (simp only: encrypt_blocks.simps encrypt_block_step [OF k Suc.prems(2)] obind.simps buf'_def)
  obtain out where out: "?enc k buf' = Ok out" "length out = length buf'"
    "\<forall>i<k. window (coff i) (plen n i + 16) out = sealed g iv n buf' i"
    "drop (k * 32768) out = drop (k * 32768) buf'"
    using Suc.IH [of buf'] Suc.prems len by auto
  have above: "drop j out = drop j buf'" if "k * 32768 \<le> j" for j
    using out(4) that by (metis drop_drop le_add_diff_inverse2)
  have ck: "k * 32768 \<le> coff k" by (simp add: coff_def)
  have "window (coff k) (plen n k + 16) out = ?s"
    using above [OF ck] fit window_splice_same [of "coff k" ?s buf]
    by (simp add: window_def buf'_def ls)
  moreover have "drop (cend n k) out = drop (cend n k) buf"
    using above [of "cend n k"] ck up by (simp add: cend_def)
  moreover from this have "drop (Suc k * 32768) out = drop (Suc k * 32768) buf"
    using cend_le [of n k] by (metis drop_drop le_add_diff_inverse2)
  ultimately show ?case using out len same step by (auto simp: less_Suc_eq)
qed

text \<open>The cells, read from the front, are the 17 header cells and then the sealed blocks.\<close>

lemma windows_concat:
  assumes "k \<le> nblocks n" and "csize n \<le> length out"
    and "\<forall>i<k. window (coff i) (plen n i + 16) out = b i" and "0 < k"
  shows "take (cend n (k - 1)) out = take 17 out @ concat (map b [0..<k])"
  using assms
proof (induction k)
  case 0
  then show ?case by simp
next
  case (Suc k)
  have w: "take (cend n k) out = take (coff k) out @ b k"
    using Suc.prems(3) take_add [of "coff k" "plen n k + 16" out]
    by (simp add: window_def cend_def add.assoc)
  show ?case
  proof (cases "k = 0")
    case True
    with w show ?thesis by (simp add: coff_def)
  next
    case False
    then have "take (cend n (k - 1)) out = take 17 out @ concat (map b [0..<k])"
      using Suc by simp
    moreover have "cend n (k - 1) = coff k" using False Suc.prems(1) cend_full [of "k - 1" n] by simp
    ultimately show ?thesis using w by simp
  qed
qed


lemma encrypt_blocks_layout:
  assumes "0 < n" and "csize n \<le> length buf" and "length iv = 12"
  shows "\<exists>out. encrypt_blocks g iv (int n) (int (nblocks n) - 1) (int (plen n (nblocks n - 1))) (nblocks n) buf = Ok out \<and>
    splice 13 (put_uint32 (of_nat n)) (splice 1 iv (splice 0 [Version] out)) =
      sealed_blocks g iv (take n buf) @ drop (csize n) buf"
proof -
  have N: "0 < nblocks n" using assms(1) by (simp add: nblocks_def)
  obtain out where out: "encrypt_blocks g iv (int n) (int (nblocks n) - 1) (int (plen n (nblocks n - 1))) (nblocks n) buf = Ok out"
    "length out = length buf" "\<forall>i<nblocks n. window (coff i) (plen n i + 16) out = sealed g iv n buf i"
    "drop (csize n) out = drop (csize n) buf"
    using encrypt_blocks_in_place [OF order_refl assms(2), of iv] N by (auto simp: csize_def)
  have n: "n + 33 \<le> length buf" using le_csize [OF assms(1)] assms(2) by simp
  have t: "take (csize n) out = take 17 out @ concat (map (sealed g iv n buf) [0..<nblocks n])"
    using windows_concat [OF order_refl _ out(3) N] assms(2) out(2) by (simp add: csize_def)
  have "sealed g iv n buf i = sealed g iv n (take n buf) i" if "i < nblocks n" for i
    using padded_cong [of n buf "take n buf" i] that by (simp add: sealed_def)
  then have c: "concat (map (sealed g iv n buf) [0..<nblocks n]) = drop 17 (sealed_blocks g iv (take n buf))"
    using n assms(3)
    by (auto simp: sealed_blocks_def stream_header_def intro!: arg_cong [where f = concat] map_cong)
  have "out = take (csize n) out @ drop (csize n) out" by simp
  also have "\<dots> = take 17 out @ drop 17 (sealed_blocks g iv (take n buf)) @ drop (csize n) buf"
    by (simp only: t c out(4) append_assoc)
  finally have "drop 17 out = drop 17 (sealed_blocks g iv (take n buf)) @ drop (csize n) buf"
    using n out(2) by (metis append_take_drop_id same_append_eq)
  moreover have "splice 13 (put_uint32 (of_nat n)) (splice 1 iv (splice 0 [Version] out))
      = stream_header iv n @ drop 17 out"
    using assms(3) n out(2) by (simp add: splice_def stream_header_def)
  moreover have "take 17 (sealed_blocks g iv (take n buf)) = stream_header iv n"
    using assms(3) n by (simp add: sealed_blocks_def stream_header_def)
  ultimately have "splice 13 (put_uint32 (of_nat n)) (splice 1 iv (splice 0 [Version] out)) =
      sealed_blocks g iv (take n buf) @ drop (csize n) buf"
    by (metis append.assoc append_take_drop_id)
  with out(1) show ?thesis by blast
qed

end

interpretation stream: aead16 "derived_aead P key info" for P key info
  by unfold_locales simp

lemma Encrypt_stream_Ok:
  assumes "valid_slice buf" and "0 < slen buf" and "csize (slen buf) \<le> scap buf" and "rnd = Ok f"
  shows "Encrypt_stream P rnd key buf info =
    Ok (int (csize (slen buf)),
        sealed_blocks (derived_aead P key info) (map f [0..<12]) (contents buf) @ drop (csize (slen buf)) (sarr buf))"
proof -
  let ?n = "slen buf" and ?g = "derived_aead P key info" and ?iv = "map f [0..<12]"
  have N: "0 < nblocks ?n" using assms(2) by (simp add: nblocks_def)
  then have last: "int (nblocks ?n) - 1 = int (nblocks ?n - 1)" by simp
  have b: "BlockDataSize (int ?n) (int (nblocks ?n) - 1) = int (bsize ?n (nblocks ?n - 1))"
    unfolding last using N by (intro BlockDataSize_nat) simp
  obtain out where out: "encrypt_blocks ?g ?iv (int ?n) (int (nblocks ?n) - 1) (int (plen ?n (nblocks ?n - 1)))
      (nblocks ?n) (sarr buf) = Ok out"
    "splice 13 (put_uint32 (of_nat ?n)) (splice 1 ?iv (splice 0 [Version] out)) =
      sealed_blocks ?g ?iv (take ?n (sarr buf)) @ drop (csize ?n) (sarr buf)"
    using stream.encrypt_blocks_layout [of ?n "sarr buf" ?iv P key info] assms by (auto simp: scap_def)
  have sizes: "nat nonceSize = 12" "nat versionSize = 1" "nat (versionSize + nonceSize) = 13"
    by (simp_all add: layout_consts)
  have ne: "slen buf \<noteq> 0" and cap: "\<not> int (scap buf) < int (csize ?n)" using assms by simp_all
  show ?thesis
    unfolding Encrypt_stream_def Let_def NumBlocks_nat b lastPadding_nat [OF assms(2)]
      totalSize_nat [OF assms(2)] GCMCipher_eq read_full_def assms(4) sizes obind.simps nat_int
      out(1) if_not_P [OF ne] if_not_P [OF cap] of_int_of_nat_eq out(2) contents_def
    by simp
qed

end
