(* ===== verification/StreamencDecrypt.thy ===== *)
theory StreamencDecrypt
  imports Streamenc
begin

text \<open>
  Decryption of the stream format: the in-place loop of \<open>DecryptAllBlocks\<close> computes what a
  pure reading of the ciphertext, block by block, gives (\<open>block_plain\<close>); what it gives on
  the output of \<open>Encrypt\<close>, and what a successful decryption says of any input.
\<close>

definition block_plain ::
  "cipher_AEAD \<Rightarrow> byte list \<Rightarrow> byte \<Rightarrow> int \<Rightarrow> byte list \<Rightarrow> nat \<Rightarrow> byte list outcome" where
  "block_plain g iv version ps c i =
     obind (slice_expr (int i * MaxBlockSize) (min (int i * MaxBlockSize + MaxBlockSize) (int (length c))) c)
       (\<lambda>b. obind (DecryptBlock g b iv version (int i) ps) (\<lambda>(n, b'). Ok (take (nat n) b')))"

section \<open>One block\<close>

context aead16 begin

lemma DecryptBlock_shape:
  assumes "DecryptBlock g b iv v i ps = Ok (n, b')"
  shows "0 \<le> n" and "nat n \<le> length b'" and "length b' = length b"
proof -
  let ?base = "if i = 0 then 17 else 0 :: nat"
  from assms obtain plain where plain: "Open g (BlockNonce iv i) (drop ?base b) = Some plain"
    and n: "n = BlockDataSize ps i" "0 \<le> n" "n \<le> int (length plain)"
    and base: "?base \<le> length b"
    and b': "b' = (let b1 = splice ?base (take (nat n) plain @ replicate (length plain - nat n) 0) b
                   in if i = 0 then splice 0 (take (nat n) (take (nat n) plain @ replicate (length plain - nat n) 0)) b1 else b1)"
    by (auto simp: DecryptBlock_def Let_def obind_Ok_iff gcm_open_call_Ok_iff slice_expr_def
        layout_consts window_def nat_diff_distrib' not_less split: if_splits)
  have l: "length b - ?base = length plain + 16"
    using length_open [OF plain] by (simp add: overhead16)
  show "0 \<le> n" using n by simp
  define cl where "cl = take (nat n) plain @ replicate (length plain - nat n) 0"
  have lcl: "length cl = length plain" using n by (simp add: cl_def)
  have l1: "length (splice ?base cl b) = length b" using l base lcl by (simp add: len_simps)
  have "length (splice 0 (take (nat n) cl) (splice ?base cl b)) = length b"
    using l l1 lcl by (subst length_splice) auto
  then have "length b' = length b"
    unfolding b' Let_def cl_def [symmetric] using l1 by (cases "i = 0") simp_all
  then show "length b' = length b" and "nat n \<le> length b'"
    using l n by (auto split: if_splits)
qed

lemma DecryptBlock_Ok_iff:
  assumes "i = 0 \<Longrightarrow> 17 \<le> length b \<and> b ! 0 = v"
  shows "(\<exists>b'. DecryptBlock g b iv v i ps = Ok (n, b') \<and> take (nat n) b' = q) \<longleftrightarrow>
    (\<exists>plain. Open g (BlockNonce iv i) (drop (if i = 0 then 17 else 0) b) = Some plain \<and>
       n = BlockDataSize ps i \<and> 0 \<le> n \<and> n \<le> int (length plain) \<and> q = take (nat n) plain)"
proof -
  let ?base = "if i = 0 then 17 else 0 :: nat"
  have front: "take (nat n) (if i = 0 then splice 0 (take (nat n) (take (nat n) plain @ replicate k 0))
          (splice ?base (take (nat n) plain @ replicate k 0) b)
        else splice ?base (take (nat n) plain @ replicate k 0) b) = take (nat n) plain"
    if "n \<le> int (length plain)" for plain k
    using that by (auto simp: splice_def)
  show ?thesis
    using assms front
    by (auto simp: DecryptBlock_def Let_def obind_Ok_iff gcm_open_call_Ok_iff slice_expr_def
        layout_consts window_def nat_diff_distrib' not_less split: if_splits)
qed

text \<open>
  The loop: \<open>off\<close> plaintext bytes are in front and the ciphertext from block \<open>i\<close> on is
  untouched. Compacting never reaches it, since \<open>off\<close> never passes the start of the block.
\<close>

lemma decrypt_blocks_step:
  assumes len: "length buf = length c" and rest: "drop (i * 32768) buf = drop (i * 32768) c"
    and off: "off \<le> i * 32768" and plain: "block_plain g iv v ps c i = Ok q"
  shows "\<exists>buf'. decrypt_blocks g iv v ps (Suc k) (int i) (int off) buf =
      decrypt_blocks g iv v ps k (int (Suc i)) (int (off + length q)) buf' \<and>
    length buf' = length c \<and> drop (Suc i * 32768) buf' = drop (Suc i * 32768) c \<and>
    off + length q \<le> Suc i * 32768 \<and> take (off + length q) buf' = take off buf @ q"
proof -
  let ?s = "i * 32768" and ?e = "min (i * 32768 + 32768) (length c)"
  have bounds: "int i * MaxBlockSize = int ?s"
    "min (int ?s + MaxBlockSize) (int (length c)) = int ?e"
    by (auto simp: layout_consts)
  from plain obtain b n b' where b: "slice_expr (int ?s) (int ?e) c = Ok b"
    and d: "DecryptBlock g b iv v (int i) ps = Ok (n, b')" and q: "q = take (nat n) b'"
    unfolding block_plain_def bounds by (auto simp: obind_Ok_iff)
  have se: "?s \<le> ?e" and bw: "b = window ?s (?e - ?s) c"
    using b by (auto simp: slice_expr_def nat_diff_distrib' nat_mult_distrib split: if_splits)
  have b2: "slice_expr (int ?s) (int ?e) buf = Ok b"
    using se len rest by (subst slice_expr_Ok) (auto simp: bw window_def)
  have lb: "length b = ?e - ?s" using se by (simp add: bw len_simps)
  note shape = DecryptBlock_shape [OF d]
  have lq: "length q = nat n" "nat n \<le> ?e - ?s" using shape lb by (simp_all add: q)
  define buf1 where "buf1 = splice ?s b' buf"
  have fit: "?s + length b' \<le> length buf" using shape lb se len by simp
  have l1: "length buf1 = length c" using fit len by (simp add: buf1_def len_simps)
  have src: "slice_expr (int ?s) (int ?s + n) buf1 = Ok q"
  proof -
    have "int ?s + n = int (?s + nat n)" using shape(1) by simp
    moreover have "slice_expr (int ?s) (int (?s + nat n)) buf1 = Ok (window ?s (nat n) buf1)"
      using lq l1 se by (subst slice_expr_Ok) auto
    moreover have "window ?s (nat n) buf1 = q"
      using fit shape(2) by (simp add: buf1_def window_def splice_def q)
    ultimately show ?thesis by simp
  qed
  define buf2 where "buf2 = splice off q buf1"
  have fit2: "off + length q \<le> length buf1" using lq l1 off se by simp
  have l2: "length buf2 = length c" using fit2 l1 by (simp add: buf2_def len_simps)
  have le: "off + length q \<le> Suc i * 32768" using lq off by simp
  have "drop (Suc i * 32768) buf2 = drop (Suc i * 32768) buf1"
    using le fit2 by (simp add: buf2_def drop_splice)
  also have "\<dots> = drop (Suc i * 32768) buf"
  proof -
    have "length b' \<le> 32768" using shape(3) lb by linarith
    then show ?thesis unfolding buf1_def using fit by (intro drop_splice) auto
  qed
  also have "\<dots> = drop (Suc i * 32768) c"
    using rest by (metis drop_drop le_add2 le_add_diff_inverse2 mult_Suc)
  finally have r2: "drop (Suc i * 32768) buf2 = drop (Suc i * 32768) c" .
  have "take (off + length q) buf2 = take off buf1 @ q"
    using fit2 by (simp add: buf2_def splice_def)
  also have "take off buf1 = take off buf"
    using off fit by (simp add: buf1_def take_splice)
  finally have t2: "take (off + length q) buf2 = take off buf @ q" .
  have step: "decrypt_blocks g iv v ps (Suc k) (int i) (int off) buf =
      decrypt_blocks g iv v ps k (int (Suc i)) (int (off + length q)) buf2"
    unfolding decrypt_blocks.simps Let_def len bounds b2 obind.simps d split
      nat_int buf1_def [symmetric] src buf2_def [symmetric]
    using shape(1) by (simp add: lq add.commute)
  show ?thesis using step l2 r2 le t2 by blast
qed

lemma decrypt_blocks_fails:
  assumes "length buf = length c" and "drop (i * 32768) buf = drop (i * 32768) c"
  shows "block_plain g iv v ps c i = Err e \<Longrightarrow>
      decrypt_blocks g iv v ps (Suc k) (int i) off buf = Err e"
    and "block_plain g iv v ps c i = Panic \<Longrightarrow>
      decrypt_blocks g iv v ps (Suc k) (int i) off buf = Panic"
proof -
  have "slice_expr (int i * MaxBlockSize) (min (int i * MaxBlockSize + MaxBlockSize) (int (length c))) buf =
        slice_expr (int i * MaxBlockSize) (min (int i * MaxBlockSize + MaxBlockSize) (int (length c))) c"
    using assms by (simp add: slice_expr_def window_def layout_consts nat_mult_distrib)
  then show "block_plain g iv v ps c i = Err e \<Longrightarrow>
      decrypt_blocks g iv v ps (Suc k) (int i) off buf = Err e"
    and "block_plain g iv v ps c i = Panic \<Longrightarrow>
      decrypt_blocks g iv v ps (Suc k) (int i) off buf = Panic"
    using assms(1)
    by (auto simp: block_plain_def Let_def obind_Err_iff obind_Panic_iff)
qed

lemma decrypt_blocks_pure:
  assumes "length buf = length c" and "drop (i * 32768) buf = drop (i * 32768) c"
    and "off \<le> i * 32768"
  shows "case omap (block_plain g iv v ps c) [i..<i + k] of
      Ok qs \<Rightarrow> (\<exists>buf'. decrypt_blocks g iv v ps k (int i) (int off) buf =
                   Ok (int (off + length (concat qs)), buf') \<and> length buf' = length c \<and>
                 take (off + length (concat qs)) buf' = take off buf @ concat qs)
    | Err e \<Rightarrow> decrypt_blocks g iv v ps k (int i) (int off) buf = Err e
    | Panic \<Rightarrow> decrypt_blocks g iv v ps k (int i) (int off) buf = Panic"
  using assms
proof (induction k arbitrary: i off buf)
  case 0
  then show ?case by simp
next
  case (Suc k)
  have upt: "[i..<i + Suc k] = i # [Suc i..<Suc i + k]" by (simp add: upt_rec)
  show ?case
  proof (cases "block_plain g iv v ps c i")
    case (Ok q)
    then obtain buf' where step: "decrypt_blocks g iv v ps (Suc k) (int i) (int off) buf =
        decrypt_blocks g iv v ps k (int (Suc i)) (int (off + length q)) buf'"
      and inv: "length buf' = length c" "drop (Suc i * 32768) buf' = drop (Suc i * 32768) c"
        "off + length q \<le> Suc i * 32768" and t: "take (off + length q) buf' = take off buf @ q"
      using decrypt_blocks_step [OF Suc.prems] by blast
    show ?thesis
      using Suc.IH [OF inv] unfolding upt step
      by (cases "omap (block_plain g iv v ps c) [Suc i..<Suc i + k]") (auto simp: Ok t add.assoc)
  next
    case (Err e)
    show ?thesis unfolding upt omap.simps Err obind.simps outcome.case
      by (rule decrypt_blocks_fails(1) [OF Suc.prems(1,2) Err])
  next
    case Panic
    show ?thesis unfolding upt omap.simps Panic obind.simps outcome.case
      by (rule decrypt_blocks_fails(2) [OF Suc.prems(1,2) Panic])
  qed
qed

end

section \<open>The whole buffer\<close>

text \<open>
  Decryption without the in-place buffer: every block is read from the ciphertext as it was
  given, and the plaintexts are concatenated.
\<close>

definition decrypt_reference ::
  "prims \<Rightarrow> byte list \<Rightarrow> byte list \<Rightarrow> string \<Rightarrow> byte \<Rightarrow> (int \<times> byte list) outcome" where
  "decrypt_reference P key c info version =
     obind (ParseHeader c) (\<lambda>(ver, iv, n32).
       if ver \<noteq> version
       then Err (ErrWrap [] ErrVersionMismatch
              ('': got '' @ format_int (uint ver) @ '', want '' @ format_int (uint version)))
       else
         obind (omap (block_plain (derived_aead P key info) iv version (uint n32) c)
                  [0..<nat (NumBlocks (uint n32))])
           (\<lambda>qs. Ok (int (length (concat qs)),
                     concat qs @ replicate (length c - length (concat qs)) 0)))"

lemma decrypt_in_place_eq:
  "DecryptAllBlocks P key c info version = decrypt_reference P key c info version"
proof -
  have "obind (decrypt_blocks (derived_aead P key info) iv version ps k 0 0 c)
          (\<lambda>(offset, buf'). Ok (offset, take (nat offset) buf' @ replicate (length buf' - nat offset) 0)) =
        obind (omap (block_plain (derived_aead P key info) iv version ps c) [0..<k])
          (\<lambda>qs. Ok (int (length (concat qs)), concat qs @ replicate (length c - length (concat qs)) 0))"
    for iv ps k
    using stream.decrypt_blocks_pure [of c c 0 0 P key info iv version ps k]
    by (cases "omap (block_plain (derived_aead P key info) iv version ps c) [0..<k]") auto
  note pure = this
  show ?thesis
  proof (cases "ParseHeader c")
    case (Ok h)
    obtain ver iv n32 where h: "h = (ver, iv, n32)" by (cases h)
    show ?thesis
      by (simp only: DecryptAllBlocks_def decrypt_reference_def Ok h GCMCipher_eq Let_def obind.simps split pure)
  qed (simp_all add: DecryptAllBlocks_def decrypt_reference_def)
qed

section \<open>Decrypting what was encrypted\<close>

context aead16 begin

lemma drop_sealed_blocks:
  assumes iv: "length iv = 12" and i: "i < nblocks (length p)"
  shows "drop (coff i) (sealed_blocks g iv p) =
         concat (map (sealed g iv (length p) p) [i..<nblocks (length p)])"
  using i
proof (induction i)
  case 0
  then show ?case using iv by (simp add: sealed_blocks_def stream_header_def coff_def)
next
  case (Suc i)
  let ?n = "length p"
  have "drop (coff (Suc i)) (sealed_blocks g iv p) =
        drop (plen ?n i + 16) (drop (coff i) (sealed_blocks g iv p))"
  proof -
    have "coff (Suc i) = (plen ?n i + 16) + coff i"
      using cend_full [OF Suc.prems] by (simp add: cend_def)
    then show ?thesis by (simp only: drop_drop)
  qed
  also have "drop (coff i) (sealed_blocks g iv p) =
      sealed g iv ?n p i @ concat (map (sealed g iv ?n p) [Suc i..<nblocks ?n])"
    using Suc by (simp add: upt_conv_Cons [of i])
  finally show ?case using Suc.prems length_sealed [of i ?n p iv] by simp
qed

lemma length_sealed_blocks:
  assumes "length iv = 12" and "p \<noteq> []"
  shows "length (sealed_blocks g iv p) = csize (length p)"
proof -
  let ?N = "nblocks (length p)" and ?c = "sealed_blocks g iv p"
  have N: "?N - 1 < ?N" using assms(2) by (simp add: nblocks_def)
  have "drop (coff (?N - 1)) ?c = sealed g iv (length p) p (?N - 1)"
    using drop_sealed_blocks [OF assms(1) N] N by (simp add: upt_conv_Cons)
  then have "length ?c - coff (?N - 1) = plen (length p) (?N - 1) + 16"
    using length_sealed [OF N order_refl, of iv] by (metis length_drop)
  then show ?thesis by (simp add: csize_def cend_def)
qed

text \<open>Block \<open>i\<close> of the ciphertext, as the decrypting loop slices it.\<close>

lemma block_of_sealed:
  assumes iv: "length iv = 12" and i: "i < nblocks (length p)"
  shows "slice_expr (int i * MaxBlockSize)
      (min (int i * MaxBlockSize + MaxBlockSize) (int (length (sealed_blocks g iv p)))) (sealed_blocks g iv p)
    = Ok ((if i = 0 then stream_header iv (length p) else []) @ sealed g iv (length p) p i)"
proof -
  let ?n = "length p" and ?c = "sealed_blocks g iv p"
  have p: "p \<noteq> []" using i by (auto simp: nblocks_def)
  have lc: "length ?c = csize ?n" using iv p by (rule length_sealed_blocks)
  have e: "min (i * 32768 + 32768) (csize ?n) = cend ?n i"
  proof (cases "Suc i < nblocks ?n")
    case True
    then have "cend ?n i = Suc i * 32768" by (simp add: cend_full coff_def)
    then show ?thesis using cend_le_csize [OF i] by simp
  next
    case False
    with i have "csize ?n = cend ?n i" by (simp add: csize_def) (metis Suc_lessI diff_Suc_1 One_nat_def)
    then show ?thesis using cend_le [of ?n i] by simp
  qed
  have "slice_expr (int (i * 32768)) (int (cend ?n i)) ?c =
        Ok (window (i * 32768) (cend ?n i - i * 32768) ?c)"
    using cend_le_csize [OF i] lc by (intro slice_expr_Ok) (auto simp: cend_def coff_def)
  moreover have "window (i * 32768) (cend ?n i - i * 32768) ?c =
      (if i = 0 then stream_header iv ?n else []) @ sealed g iv ?n p i"
  proof -
    have "drop (coff i) ?c = sealed g iv ?n p i @ concat (map (sealed g iv ?n p) [Suc i..<nblocks ?n])"
      using drop_sealed_blocks [OF iv i] i by (simp add: upt_conv_Cons)
    then have rest: "take (plen ?n i + 16) (drop (coff i) ?c) = sealed g iv ?n p i"
      using length_sealed [OF i order_refl, of iv] by simp
    have hdr: "take 17 ?c = stream_header iv ?n"
      using iv by (simp add: sealed_blocks_def stream_header_def)
    show ?thesis
    proof (cases "i = 0")
      case True
      have "take (17 + (plen ?n 0 + 16)) ?c = take 17 ?c @ take (plen ?n 0 + 16) (drop 17 ?c)"
        by (rule take_add)
      then show ?thesis
        using rest True by (simp add: cend_def coff_def hdr add.assoc)
    next
      case False
      then show ?thesis using rest by (simp add: window_def cend_def coff_def)
    qed
  qed
  moreover have "min (int i * MaxBlockSize + MaxBlockSize) (int (length ?c)) = int (cend ?n i)"
    by (simp add: layout_consts lc flip: e)
  ultimately show ?thesis by (simp add: layout_consts)
qed

lemma block_plain_sealed:
  assumes iv: "length iv = 12" and i: "i < nblocks (length p)"
  shows "block_plain g iv Version (int (length p)) (sealed_blocks g iv p) i =
         Ok (window (pstart i) (bsize (length p) i) p)"
proof -
  let ?n = "length p"
  let ?b = "(if i = 0 then stream_header iv ?n else []) @ sealed g iv ?n p i"
  have hdr: "int i = 0 \<Longrightarrow> 17 \<le> length ?b \<and> ?b ! 0 = Version"
    using iv by (simp add: stream_header_def)
  have "Open g (BlockNonce iv (int i)) (drop (if int i = 0 then 17 else 0) ?b) = Some (padded ?n p i)"
    using iv by (auto simp: stream_header_def sealed_def open_seal)
  moreover have "bsize ?n i \<le> length (padded ?n p i)"
    using length_padded [OF i order_refl] plen_bounds(1) by simp
  moreover have "take (bsize ?n i) (padded ?n p i) = window (pstart i) (bsize ?n i) p"
    using pstart_bsize [OF i] by (simp add: padded_def len_simps)
  ultimately have "\<exists>b'. DecryptBlock g ?b iv Version (int i) (int ?n) = Ok (int (bsize ?n i), b') \<and>
      take (nat (int (bsize ?n i))) b' = window (pstart i) (bsize ?n i) p"
    using DecryptBlock_Ok_iff [of "int i" ?b Version iv "int ?n" "int (bsize ?n i)", OF hdr]
      BlockDataSize_nat [OF i] by auto
  then show ?thesis
    by (auto simp: block_plain_def block_of_sealed [OF iv i])
qed

end

lemma concat_windows:
  "k \<le> nblocks (length p) \<Longrightarrow>
   concat (map (\<lambda>i. window (pstart i) (bsize (length p) i) p) [0..<k]) = take (pstart k) p"
proof (induction k)
  case 0
  then show ?case by simp
next
  case (Suc k)
  have k: "k < nblocks (length p)" using Suc.prems by simp
  then have "take (pstart k) p @ window (pstart k) (bsize (length p) k) p =
      take (pstart k + bsize (length p) k) p"
    by (simp add: window_def take_add)
  also have "\<dots> = take (pstart (Suc k)) p"
    using pstart_bsize [OF k] by (simp add: min_def del: pstart.simps)
  finally show ?case using Suc by (simp del: pstart.simps)
qed

lemma ParseHeader_sealed:
  assumes "length iv = 12"
  shows "ParseHeader (sealed_blocks g iv p) = Ok (Version, iv, of_nat (length p))"
  using assms
  by (simp add: ParseHeader_def sealed_blocks_def stream_header_def layout_consts window_def)

lemma DecryptAllBlocks_sealed:
  assumes "length iv = 12" and "length p < 2 ^ 32" and "p \<noteq> []"
  shows "DecryptAllBlocks P key (sealed_blocks (derived_aead P key info) iv p) info Version =
         Ok (int (length p), p @ replicate (csize (length p) - length p) 0)"
proof -
  let ?c = "sealed_blocks (derived_aead P key info) iv p"
  have n: "uint (of_nat (length p) :: 32 word) = int (length p)"
    using assms(2) by (simp add: unsigned_of_nat take_bit_nat_eq_self)
  have "omap (block_plain (derived_aead P key info) iv Version (int (length p)) ?c) [0..<nblocks (length p)]
      = Ok (map (\<lambda>i. window (pstart i) (bsize (length p) i) p) [0..<nblocks (length p)])"
    using assms(1) by (intro omap_all_Ok) (simp add: stream.block_plain_sealed)
  then show ?thesis
    using concat_windows [of "nblocks (length p)" p] le_pstart_nblocks [of "length p"]
      stream.length_sealed_blocks [OF assms(1,3), of P key info]
    by (simp add: decrypt_in_place_eq decrypt_reference_def ParseHeader_sealed [OF assms(1)] n NumBlocks_nat)
qed

section \<open>What a successful decryption says\<close>

context aead16 begin

lemma block_plain_Ok:
  assumes "block_plain g iv v ps c i = Ok q" and "i < nblocks n" and "ps = int n"
    and "i = 0 \<longrightarrow> 17 \<le> length c"
  shows "\<exists>pl. EncryptedBlock c (int i) =
      Ok ((if i = 0 then take 17 c else []) @ Seal g (BlockNonce iv (int i)) pl) \<and>
    bsize n i \<le> length pl \<and> q = take (bsize n i) pl"
proof -
  let ?lo = "int i * MaxBlockSize" and ?base = "if i = 0 then 17 else 0 :: nat"
  obtain b m b' where b: "slice_expr ?lo (min (?lo + MaxBlockSize) (int (length c))) c = Ok b"
    and d: "DecryptBlock g b iv v (int i) ps = Ok (m, b')" and q: "q = take (nat m) b'"
    using assms(1) by (auto simp: block_plain_def obind_Ok_iff)
  have hdr: "17 \<le> length b \<and> b ! 0 = v" if "int i = 0"
    using d that by (auto simp: DecryptBlock_def layout_consts split: if_splits)
  obtain pl where pl: "Open g (BlockNonce iv (int i)) (drop ?base b) = Some pl"
    "m = BlockDataSize ps (int i)" "m \<le> int (length pl)" "q = take (nat m) pl"
    using DecryptBlock_Ok_iff [of "int i" b v iv ps m q, OF hdr] d q by auto
  have m: "nat m = bsize n i" using pl(2) assms(2,3) by (simp add: BlockDataSize_nat)
  have body: "drop ?base b = Seal g (BlockNonce iv (int i)) pl" using seal_open [OF pl(1)] .
  have lo: "?lo < int (length c)"
  proof -
    have "0 < length (drop ?base b)" unfolding body by (simp add: length_seal16)
    then have "0 < length b" by auto
    then show ?thesis using b by (auto simp: slice_expr_def window_def layout_consts split: if_splits)
  qed
  have eb: "EncryptedBlock c (int i) = Ok b"
    using b lo by (simp add: EncryptedBlock_def Let_def)
  have "b = (if i = 0 then take 17 c else []) @ Seal g (BlockNonce iv (int i)) pl"
  proof (cases "i = 0")
    case True
    then have "take 17 b = take 17 c"
      using b by (auto simp: slice_expr_def layout_consts min_def split: if_splits)
    then show ?thesis using body True append_take_drop_id [of 17 b] by (simp add: min_def)
  qed (use body in simp)
  with eb pl m show ?thesis by auto
qed

end

lemma DecryptAllBlocks_sound:
  assumes "DecryptAllBlocks P key c info version = Ok (n, out)"
  shows "\<exists>iv ps pls. ParseHeader c = Ok (version, iv, ps) \<and> length pls = nblocks (unat ps) \<and>
    (\<forall>i < nblocks (unat ps).
       EncryptedBlock c (int i) =
         Ok ((if i = 0 then take 17 c else []) @ Seal (derived_aead P key info) (BlockNonce iv (int i)) (pls ! i)) \<and>
       bsize (unat ps) i \<le> length (pls ! i)) \<and>
    out = concat (map (\<lambda>i. take (bsize (unat ps) i) (pls ! i)) [0..<nblocks (unat ps)])
          @ replicate (length c - nat n) 0 \<and>
    n = int (unat ps)"
proof -
  let ?g = "derived_aead P key info"
  obtain iv ps qs where h: "ParseHeader c = Ok (version, iv, ps)"
    and qs: "omap (block_plain ?g iv version (uint ps) c) [0..<nat (NumBlocks (uint ps))] = Ok qs"
    and n: "n = int (length (concat qs))"
    and out: "out = concat qs @ replicate (length c - length (concat qs)) 0"
    using assms by (auto simp: decrypt_in_place_eq decrypt_reference_def obind_Ok_iff split: if_splits)
  let ?m = "unat ps"
  have u: "uint ps = int ?m" by simp
  have N: "nat (NumBlocks (uint ps)) = nblocks ?m" unfolding u NumBlocks_nat by simp
  have lc: "17 \<le> length c" using h by (auto simp: ParseHeader_def layout_consts split: if_splits)
  have lq: "length qs = nblocks ?m" using omap_Ok_length [OF qs] by (simp add: N)
  have each: "\<exists>pl. EncryptedBlock c (int i) =
      Ok ((if i = 0 then take 17 c else []) @ Seal ?g (BlockNonce iv (int i)) pl) \<and>
    bsize ?m i \<le> length pl \<and> qs ! i = take (bsize ?m i) pl" if "i < nblocks ?m" for i
  proof -
    have "block_plain ?g iv version (uint ps) c i = Ok (qs ! i)"
      using qs that by (auto simp: omap_Ok_iff list_all2_conv_all_nth N)
    then show ?thesis using stream.block_plain_Ok that lc u by blast
  qed
  then obtain f where f: "\<And>i. i < nblocks ?m \<Longrightarrow> EncryptedBlock c (int i) =
      Ok ((if i = 0 then take 17 c else []) @ Seal ?g (BlockNonce iv (int i)) (f i)) \<and>
    bsize ?m i \<le> length (f i) \<and> qs ! i = take (bsize ?m i) (f i)"
    by metis
  define pls where "pls = map f [0..<nblocks ?m]"
  have p: "pls ! i = f i" if "i < nblocks ?m" for i using that by (simp add: pls_def)
  have qs': "qs = map (\<lambda>i. take (bsize ?m i) (pls ! i)) [0..<nblocks ?m]"
    by (rule nth_equalityI) (auto simp: lq f p)
  have "length (concat (map (\<lambda>i. take (bsize ?m i) (pls ! i)) [0..<k])) = min (pstart k) ?m"
    if "k \<le> nblocks ?m" for k
    using that
  proof (induction k)
    case (Suc k)
    then have k: "k < nblocks ?m" by simp
    have "length (take (bsize ?m k) (pls ! k)) = bsize ?m k" using f [OF k] p [OF k] by simp
    moreover have "pstart k < ?m" using k less_nblocks_iff by simp
    ultimately show ?case using Suc pstart_bsize [OF k] by (simp del: pstart.simps)
  qed simp
  then have "length (concat qs) = ?m"
    using le_pstart_nblocks [of ?m] by (simp add: qs')
  then show ?thesis
    using h out n qs' f p by (intro exI [of _ iv] exI [of _ ps] exI [of _ pls]) (auto simp: pls_def)
qed

end
