(* ===== verification/StreamencSpec.thy ===== *)
theory StreamencSpec
  imports StreamencDecrypt
begin

text \<open>
  What \<open>private/encryption/streamenc\<close> promises: the sizes it computes, the round trip, the
  equivalence of the in-place loops with the block-wise definition, authenticity of the blocks,
  and how far the header is from being authenticated.
\<close>

section \<open>The largest plaintext for a target size\<close>

lemma cend_le_iff:
  assumes "t mod 16 = 0"
  shows "cend n i \<le> t \<longleftrightarrow> coff i + bsize n i + 16 \<le> t"
proof
  show "cend n i \<le> t \<Longrightarrow> coff i + bsize n i + 16 \<le> t"
    using plen_bounds(1) [of n i] by (simp add: cend_def)
next
  assume le: "coff i + bsize n i + 16 \<le> t"
  obtain k where k: "t = 16 * k" using assms by auto
  show "cend n i \<le> t"
  proof (cases "i = 0")
    case True
    have "17 + bsize n 0 \<le> 16 * (k - 1)" using le k True by (simp add: coff_def)
    from pad_to_16_le [OF this] show ?thesis
      using le k True by (simp add: cend_def coff_def plen_def)
  next
    case False
    have "bsize n i \<le> 16 * (k - i * 2048 - 1)" using le k False by (simp add: coff_def)
    from pad_to_16_le [OF this] show ?thesis
      using le k False by (simp add: cend_def coff_def plen_def)
  qed
qed

definition max_plaintext :: "nat \<Rightarrow> nat" where
  "max_plaintext t = (let j = (t + 32767) div 32768 - 1 in pstart j + (t - (coff j + 16)))"

lemma csize_le_iff:
  assumes "t mod 16 = 0" and "48 \<le> t" and "0 < m"
  shows "csize m \<le> t \<longleftrightarrow> m \<le> max_plaintext t"
proof -
  define j where "j = (t + 32767) div 32768 - 1"
  define i where "i = nblocks m - 1"
  have j: "j * 32768 < t" "t \<le> j * 32768 + 32768"
  proof -
    have "0 < (t + 32767) div 32768" using assms(2) by (simp add: div_greater_zero_iff)
    then have "(t + 32767) div 32768 = Suc j" by (simp add: j_def)
    then show "j * 32768 < t" "t \<le> j * 32768 + 32768"
      using div_mult_mod_eq [of "t + 32767" 32768] mod_less_divisor [of 32768 "t + 32767"] by auto
  qed
  obtain k where k: "t = 16 * k" using assms(1) by auto
  have fits: "coff j + 16 \<le> t" using j assms(2) k by (auto simp: coff_def)
  have max: "max_plaintext t = pstart j + (t - (coff j + 16))"
    by (simp add: max_plaintext_def j_def Let_def)
  have top: "max_plaintext t \<le> pstart (Suc j)"
    using j(2) by (cases j) (auto simp: max coff_def)
  have i: "i < nblocks m" "Suc i = nblocks m" using assms(3) by (simp_all add: i_def nblocks_def)
  have m: "pstart i < m" "m \<le> pstart (Suc i)"
    using i le_pstart_nblocks [of m] by (simp_all add: less_nblocks_iff)
  have c: "csize m = cend m i" by (simp add: csize_def i_def)
  consider "i < j" | "i = j" | "j < i" by linarith
  then show ?thesis
  proof cases
    case 1
    have "csize m \<le> Suc i * 32768" using c cend_le by simp
    moreover have "Suc i * 32768 \<le> j * 32768" using 1 by (intro mult_right_mono) auto
    moreover have "m \<le> max_plaintext t" using m(2) 1 pstart_mono [of "Suc i" j] max by linarith
    ultimately show ?thesis using j by simp
  next
    case 2
    have "bsize m j = m - pstart j" using m 2 by (simp add: bsize_def)
    then have "csize m \<le> t \<longleftrightarrow> coff j + (m - pstart j) + 16 \<le> t"
      using c cend_le_iff [OF assms(1), of m j] 2 by simp
    then show ?thesis using m 2 fits max by (auto simp: le_diff_conv)
  next
    case 3
    have "Suc j * 32768 \<le> coff i" using 3 by (simp add: coff_def)
    moreover have "coff i < csize m" by (simp add: c cend_def)
    moreover have "pstart (Suc j) \<le> pstart i" using 3 by (intro pstart_mono) simp
    ultimately show ?thesis using j top m(1) by simp
  qed
qed

lemma max_plaintext_pos:
  assumes "t mod 16 = 0" and "48 \<le> t"
  shows "0 < max_plaintext t"
proof -
  have "csize 1 = 48" by (simp add: csize_def nblocks_def cend_def coff_def plen_def bsize_def)
  then show ?thesis using csize_le_iff [OF assms, of 1] assms(2) by simp
qed

lemma MinCipherTextSize_eq: "MinCipherTextSize = 48"
  by (simp add: MinCipherTextSize_def layout_consts go_arith)

lemma MaxPlaintextSizeForTarget_nat:
  assumes "t mod 16 = 0" and "48 \<le> t"
  shows "MaxPlaintextSizeForTarget (int t) = Ok (int (max_plaintext t))"
proof -
  define j where "j = (t + 32767) div 32768 - 1"
  have pos: "0 < (t + 32767) div 32768" using assms(2) by (simp add: div_greater_zero_iff)
  then have q: "(t + 32767) div 32768 = Suc j" by (simp add: j_def)
  then have j: "j * 32768 < t" "t \<le> j * 32768 + 32768"
    using div_mult_mod_eq [of "t + 32767" 32768] mod_less_divisor [of 32768 "t + 32767"] by auto
  obtain k where k: "t = 16 * k" using assms(1) by auto
  have nb: "CeilDiv (int t) 32768 = int (Suc j)"
    using CeilDiv_nat [of 32768 t] q by simp
  have "int t mod 16 = int (t mod 16)" by (simp add: zmod_int)
  then have md: "int t smod 16 = 0" using assms(1) by (simp add: go_arith)
  show ?thesis
  proof (cases "j = 0")
    case True
    then show ?thesis
      using assms j nb md
      by (simp add: MaxPlaintextSizeForTarget_def MinCipherTextSize_eq layout_consts
          max_plaintext_def Let_def q coff_def of_nat_diff)
  next
    case False
    then obtain l where l: "j = Suc l" by (cases j) auto
    have "j * 32768 + 16 \<le> t" using j k by auto
    then show ?thesis
      using assms j nb md l
      by (simp add: MaxPlaintextSizeForTarget_def MinCipherTextSize_eq layout_consts
          max_plaintext_def Let_def q coff_def of_nat_diff)
  qed
qed

lemma MaxPlaintextSizeForTarget_Ok:
  assumes "MaxPlaintextSizeForTarget t = Ok m"
  obtains s where "t = int s" "s mod 16 = 0" "48 \<le> s" "m = int (max_plaintext s)"
proof -
  have t: "48 \<le> t" "t smod 16 = 0"
    using assms by (auto simp: MaxPlaintextSizeForTarget_def MinCipherTextSize_eq layout_consts split: if_splits)
  moreover have "nat t mod 16 = nat (t mod 16)" using t(1) by (simp add: nat_mod_distrib)
  ultimately have "t = int (nat t)" "nat t mod 16 = 0" "48 \<le> nat t"
    by (auto simp: go_arith)
  with that [of "nat t"] assms MaxPlaintextSizeForTarget_nat [of "nat t"] show ?thesis by auto
qed

section \<open>The nonces of the blocks\<close>

lemma put_uint32_inj: "put_uint32 a = put_uint32 b \<Longrightarrow> a = b"
  by (metis uint32_put_uint32(2))

lemma BlockNonce_inj:
  assumes "BlockNonce iv i = BlockNonce iv j" and "0 \<le> i" "i < 2 ^ 32" and "0 \<le> j" "j < 2 ^ 32"
  shows "i = j"
proof -
  have "(of_int i :: 32 word) = of_int j"
    using assms(1) put_uint32_inj by (fastforce simp: BlockNonce_def Let_def)
  then have "uint (of_int i :: 32 word) = uint (of_int j :: 32 word)" by simp
  then show ?thesis using assms(2-) by (simp add: uint_word_of_int)
qed

lemma length_BlockNonce: "length iv = 12 \<Longrightarrow> length (BlockNonce iv i) = 12"
  by (simp add: BlockNonce_def Let_def)

section \<open>Changing the size field of the header\<close>

definition set_header_size :: "32 word \<Rightarrow> byte list \<Rightarrow> byte list" where
  "set_header_size m c = splice 13 (put_uint32 m) c"

lemma set_header_size_sealed:
  assumes "length iv = 12"
  shows "set_header_size m (sealed_blocks g iv p) =
    [Version] @ iv @ put_uint32 m @ concat (map (sealed g iv (length p) p) [0..<nblocks (length p)])"
  using assms by (simp add: set_header_size_def sealed_blocks_def stream_header_def splice_def)

text \<open>A ciphertext of one block, decrypted under a header that claims \<open>m\<close> bytes.\<close>

lemma decrypt_resized_block:
  assumes "length iv = 12" and "0 < length p" "length p \<le> 32735" and "0 < m" "m \<le> 32735"
  shows "DecryptAllBlocks P key (set_header_size (of_nat m) (sealed_blocks (derived_aead P key info) iv p)) info Version =
    (if m \<le> plen (length p) 0
     then Ok (int m, take m (padded (length p) p 0) @ replicate (csize (length p) - m) 0) else Panic)"
proof -
  let ?g = "derived_aead P key info" and ?n = "length p"
  let ?c = "set_header_size (of_nat m) (sealed_blocks ?g iv p)"
  have N: "nblocks ?n = 1" "nblocks m = 1" using assms by (simp_all add: nblocks_def)
  have c: "?c = [Version] @ iv @ put_uint32 (of_nat m) @ Seal ?g (BlockNonce iv 0) (padded ?n p 0)"
    using set_header_size_sealed [OF assms(1), of "of_nat m" ?g p] N by (simp add: sealed_def)
  have lp: "length (padded ?n p 0) = plen ?n 0" using N by (simp add: length_padded)
  have lc: "length ?c = csize ?n"
    unfolding c using assms(1) lp N by (simp add: csize_def cend_def coff_def)
  have lc': "length ?c \<le> 32768"
    unfolding c using assms(1) lp plen_bounds(2) [of ?n 0] by simp
  have u: "uint (of_nat m :: 32 word) = int m"
    using assms(5) by (simp add: unsigned_of_nat take_bit_nat_eq_self)
  have h: "ParseHeader ?c = Ok (Version, iv, of_nat m)"
    unfolding c using assms(1) by (simp add: ParseHeader_def layout_consts window_def)
  have bd: "BlockDataSize (int m) 0 = int m"
    using BlockDataSize_nat [of 0 m] N assms by (simp add: bsize_def)
  have b: "slice_expr 0 (min MaxBlockSize (int (length ?c))) ?c = Ok ?c"
    using lc' by (simp add: layout_consts slice_expr_def)
  have v: "?c ! 0 = Version" "drop 17 ?c = Seal ?g (BlockNonce iv 0) (padded ?n p 0)" "17 \<le> length ?c"
    unfolding c using assms(1) by simp_all
  have op: "gcm_open_call ?g (BlockNonce iv 0) (drop 17 ?c) = Ok (padded ?n p 0)"
    unfolding v(2) by (simp add: gcm_open_call_Ok_iff derived.open_seal)
  show ?thesis
  proof (cases "m \<le> plen ?n 0")
    case True
    have "\<exists>b'. DecryptBlock ?g ?c iv Version 0 (int m) = Ok (int m, b') \<and>
        take (nat (int m)) b' = take m (padded ?n p 0)"
      using stream.DecryptBlock_Ok_iff [of 0 ?c Version P key info iv "int m" "int m" "take m (padded ?n p 0)"]
        v bd lp True by (auto simp: derived.open_seal)
    then have "block_plain ?g iv Version (int m) ?c 0 = Ok (take m (padded ?n p 0))"
      using b by (auto simp: block_plain_def)
    then show ?thesis
      using N True lp lc
      by (simp add: decrypt_in_place_eq decrypt_reference_def h u NumBlocks_nat min_absorb2)
  next
    case False
    have "DecryptBlock ?g ?c iv Version 0 (int m) = Panic"
      using v op False lp by (simp add: DecryptBlock_def Let_def layout_consts bd slice_expr_def)
    then have "block_plain ?g iv Version (int m) ?c 0 = Panic"
      using b by (simp add: block_plain_def)
    then show ?thesis
      using N False by (simp add: decrypt_in_place_eq decrypt_reference_def h u NumBlocks_nat)
  qed
qed

section \<open>Properties\<close>

text \<open>C15: Encrypting a non-empty buffer of fewer than 2^32 bytes whose capacity has room for
  \<open>Overhead\<close> succeeds, writes exactly length plus \<open>Overhead\<close> bytes (a multiple of 16) and
  nothing behind them; decrypting these bytes with the same key and info gives the plaintext back,
  followed by zeros up to the length of the buffer.\<close>

theorem stream_roundtrip:
  assumes "valid_slice buf" and "0 < slen buf" and "slen buf < 2 ^ 32"
    and "int (slen buf) + Overhead_stream (int (slen buf)) \<le> int (scap buf)"
  shows "\<exists>n out. Encrypt_stream P (Ok rnd) key buf info = Ok (int n, out) \<and>
    int n = int (slen buf) + Overhead_stream (int (slen buf)) \<and> n mod 16 = 0 \<and>
    length out = scap buf \<and> drop n out = drop n (sarr buf) \<and>
    DecryptAllBlocks P key (take n out) info Version =
      Ok (int (slen buf), contents buf @ replicate (n - slen buf) 0)"
proof -
  let ?n = "csize (slen buf)" and ?iv = "map rnd [0..<12]"
  let ?c = "sealed_blocks (derived_aead P key info) ?iv (contents buf)"
  have n: "int ?n = int (slen buf) + Overhead_stream (int (slen buf))"
    using Overhead_stream_nat [OF assms(2)] by simp
  then have fit: "?n \<le> scap buf" using assms(4) by simp
  have len: "length (contents buf) = slen buf" "contents buf \<noteq> []"
    using assms(1,2) by (auto simp: contents_def valid_slice_def scap_def)
  have lc: "length ?c = ?n"
    using stream.length_sealed_blocks [of ?iv "contents buf" P key info] len by simp
  have "DecryptAllBlocks P key ?c info Version = Ok (int (slen buf), contents buf @ replicate (?n - slen buf) 0)"
    using DecryptAllBlocks_sealed [of ?iv "contents buf" P key info] len assms(3) by simp
  moreover have "Encrypt_stream P (Ok rnd) key buf info = Ok (int ?n, ?c @ drop ?n (sarr buf))"
    using Encrypt_stream_Ok [OF assms(1,2) fit] by simp
  moreover have "?n mod 16 = 0" by (simp only: csize_def cend_aligned)
  ultimately show ?thesis
    using lc n fit
    by (intro exI [of _ ?n] exI [of _ "?c @ drop ?n (sarr buf)"] conjI) (simp_all add: scap_def)
qed

theorem stream_roundtrip_witness:
  "\<exists>n out. Encrypt_stream sample_prims (Ok of_nat) [7] \<lparr>sarr = replicate 64 9, slen = 20\<rparr> ''info'' = Ok (int n, out) \<and>
    int n = 20 + Overhead_stream 20 \<and> n mod 16 = 0 \<and> length out = 64 \<and>
    drop n out = drop n (replicate 64 9) \<and>
    DecryptAllBlocks sample_prims [7] (take n out) ''info'' Version =
      Ok (20, replicate 20 9 @ replicate (n - 20) 0)"
proof -
  have "Overhead_stream 20 = 44"
    using Overhead_stream_nat [of 20] by (simp add: csize_def nblocks_def cend_def coff_def plen_def bsize_def)
  then show ?thesis
    using stream_roundtrip [of "\<lparr>sarr = replicate 64 9, slen = 20\<rparr>" sample_prims of_nat "[7]" "''info''"]
    by (simp add: valid_slice_def scap_def contents_def)
qed

text \<open>C16: The in-place decryption loop, which compacts each block's plaintext to the front of the
  buffer it is still reading from, returns for every input (results, errors and panics alike) what
  reading the blocks of the untouched ciphertext and concatenating their plaintexts returns.\<close>

theorem stream_decrypt_refines:
  "DecryptAllBlocks P key c info version = decrypt_reference P key c info version"
  by (rule decrypt_in_place_eq)



text \<open>The blocks of one message never share a nonce: for block indices below 2^32 (more than any
  32-bit plaintext size has), different indices give different 12-byte nonces.\<close>

theorem stream_nonces_distinct:
  assumes "length iv = 12"
  shows "inj_on (BlockNonce iv) {0..<2 ^ 32} \<and>
    (\<forall>i \<in> {0..<2 ^ 32}. length (BlockNonce iv i) = 12) \<and>
    (\<forall>ps :: 32 word. NumBlocks (uint ps) \<le> 2 ^ 32)"
proof (intro conjI ballI allI)
  show "inj_on (BlockNonce iv) {0..<2 ^ 32}"
    by (rule inj_onI) (auto intro: BlockNonce_inj)
  show "length (BlockNonce iv i) = 12" for i using assms by (rule length_BlockNonce)
  fix ps :: "32 word"
  have "nblocks (unat ps) \<le> unat ps"
    using less_nblocks_iff [of "unat ps" "unat ps"] by (cases "unat ps") auto
  then show "NumBlocks (uint ps) \<le> 2 ^ 32"
    using NumBlocks_nat [of "unat ps"] unat_32_less [of ps] by simp
qed

theorem stream_nonces_distinct_witness:
  "inj_on (BlockNonce (replicate 12 255)) {0..<2 ^ 32} \<and>
    length (BlockNonce (replicate 12 255) 5) = 12 \<and> NumBlocks (uint (100000 :: 32 word)) \<le> 2 ^ 32"
proof -
  have "(5 :: int) \<in> {0..<2 ^ 32}" by simp
  then show ?thesis
    using stream_nonces_distinct [OF length_replicate [of 12 "255 :: byte"]] by blast
qed





end
