(* ===== verification/Erasure.thy ===== *)
theory Erasure
  imports Encryption
begin

text \<open>
  \<open>private/erasurecode\<close>: Reed-Solomon coding of a chunk with a size prefix and a magic suffix
  (\<open>wrapData\<close>), the raw variant without them, reconstruction, and \<open>SplitStripes\<close>.

  The Reed-Solomon library is a parameter: the methods of \<open>reedsolomon.Encoder\<close> the code calls are
  the fields of \<open>rs_encoder\<close>. Methods that write into the shards return them; a missing shard
  is an empty one. What the code relies on in the library is \<open>rs_laws\<close>, a hypothesis of the
  properties that need it.
\<close>

section \<open>Wrapping\<close>

definition prefix_size :: nat where "prefix_size = 8"

definition erasureCodeErr :: "go_error \<Rightarrow> go_error" where
  "erasureCodeErr e = ErrTag ''erasure coding'' e"

definition magicSuffix :: "byte list" where "magicSuffix = [222, 173, 190, 239]"

definition WrapOverhead :: nat where "WrapOverhead = prefix_size + length magicSuffix"

text \<open>
  With enough capacity the data is moved inside its own backing cells; otherwise a new buffer is
  made. The result is the slice the callers read.
\<close>

definition wrapData :: "go_slice \<Rightarrow> go_slice" where
  "wrapData data =
     (let dataLen = slen data;
          requiredLen = dataLen + WrapOverhead;
          buf = (if requiredLen \<le> scap data
                 then \<lparr>sarr = splice prefix_size (contents data) (sarr data), slen = requiredLen\<rparr>
                 else \<lparr>sarr = splice prefix_size (contents data) (replicate requiredLen 0), slen = requiredLen\<rparr>);
          a1 = splice 0 (put_uint64 (of_nat dataLen)) (sarr buf);
          a2 = splice (prefix_size + dataLen) magicSuffix a1
      in buf\<lparr>sarr := a2\<rparr>)"

text \<open>The size is an \<open>int\<close> of 64 bits: the conversion from \<open>uint64\<close> and the sums wrap.\<close>

definition unwrapData :: "byte list \<Rightarrow> byte list outcome" where
  "unwrapData buf =
     (if length buf < WrapOverhead then Err (ErrNew ''buffer too short'')
      else
        let size = uint64 (take prefix_size buf);
            dataEnd = of_nat prefix_size + size;
            n = dataEnd + of_nat (length magicSuffix)
        in if int (length buf) < sint n \<or> sint n < 0 then Err (ErrNew ''buffer too short'')
           else obind (slice_expr (sint dataEnd) (sint n) buf) (\<lambda>suffix.
             if suffix \<noteq> magicSuffix then Err (ErrNew ''missing suffix or corrupted data'')
             else slice_expr (int prefix_size) (sint dataEnd) buf))"

section \<open>The encoder\<close>

record rs_encoder =
  rs_Split :: "byte list \<Rightarrow> byte list list outcome"
  rs_Encode :: "byte list list \<Rightarrow> byte list list outcome"
  rs_Verify :: "byte list list \<Rightarrow> bool outcome"
  rs_Reconstruct :: "byte list list \<Rightarrow> byte list list outcome"
  rs_Join :: "byte list list \<Rightarrow> int \<Rightarrow> byte list outcome"
  rs_ErrShardSize :: go_error

record ErasureCode =
  DataBlocks :: int
  ParityBlocks :: int
  ec_enc :: rs_encoder

definition NewErasureCode ::
  "(int \<Rightarrow> int \<Rightarrow> rs_encoder outcome) \<Rightarrow> int \<Rightarrow> int \<Rightarrow> ErasureCode outcome" where
  "NewErasureCode rs_New dataBlocks parityBlocks =
     (if dataBlocks \<le> 0 \<or> parityBlocks \<le> 0
      then Err (erasureCodeErr (ErrNew ''data and parity shards must be > 0''))
      else obind (map_err erasureCodeErr (rs_New dataBlocks parityBlocks)) (\<lambda>enc.
        Ok \<lparr>DataBlocks = dataBlocks, ParityBlocks = parityBlocks, ec_enc = enc\<rparr>))"

text \<open>\<open>shards[0]\<close>, with the run-time check.\<close>

definition first_shard :: "byte list list \<Rightarrow> byte list outcome" where
  "first_shard shards = (case shards of [] \<Rightarrow> Panic | s # _ \<Rightarrow> Ok s)"

definition Encode :: "ErasureCode \<Rightarrow> go_slice \<Rightarrow> byte list outcome" where
  "Encode e data =
     obind (map_err erasureCodeErr (rs_Split (ec_enc e) (contents (wrapData data)))) (\<lambda>shards.
     obind (map_err erasureCodeErr (rs_Encode (ec_enc e) shards)) (\<lambda>shards.
     obind (first_shard shards) (\<lambda>_. Ok (concat shards))))"

text \<open>
  The common beginning of \<open>ExtractData\<close> and \<open>ExtractDataRaw\<close>: verify, reconstruct if shards
  are missing, verify again, join the data shards.
\<close>

definition joined_data :: "ErasureCode \<Rightarrow> byte list list \<Rightarrow> byte list outcome" where
  "joined_data e blocks =
     obind (case rs_Verify (ec_enc e) blocks of
         Ok ok \<Rightarrow> Ok (ok, blocks)
       | Err err \<Rightarrow>
           if \<not> err_is err (rs_ErrShardSize (ec_enc e)) then Err (erasureCodeErr err)
           else
             obind (map_err erasureCodeErr (rs_Reconstruct (ec_enc e) blocks)) (\<lambda>blocks.
             obind (map_err erasureCodeErr (rs_Verify (ec_enc e) blocks)) (\<lambda>ok. Ok (ok, blocks)))
       | Panic \<Rightarrow> Panic) (\<lambda>(ok, blocks).
     if \<not> ok then Err (erasureCodeErr (ErrNew ''data is corrupted''))
     else
       obind (first_shard blocks) (\<lambda>s.
       map_err erasureCodeErr (rs_Join (ec_enc e) blocks (DataBlocks e * int (length s)))))"

definition ExtractData :: "ErasureCode \<Rightarrow> byte list list \<Rightarrow> byte list outcome" where
  "ExtractData e blocks = obind (joined_data e blocks) unwrapData"

definition EncodeRaw :: "ErasureCode \<Rightarrow> byte list \<Rightarrow> byte list list outcome" where
  "EncodeRaw e data =
     obind (map_err erasureCodeErr (rs_Split (ec_enc e) data)) (\<lambda>shards.
       map_err erasureCodeErr (rs_Encode (ec_enc e) shards))"

definition ExtractDataRaw :: "ErasureCode \<Rightarrow> byte list list \<Rightarrow> int \<Rightarrow> byte list outcome" where
  "ExtractDataRaw e blocks originalSize = joined_data e blocks"

definition ReconstructAll :: "ErasureCode \<Rightarrow> byte list list \<Rightarrow> byte list list outcome" where
  "ReconstructAll e blocks = map_err erasureCodeErr (rs_Reconstruct (ec_enc e) blocks)"

text \<open>\<open>make\<close> panics on a negative length, the division on a zero divisor.\<close>

definition SplitStripes :: "byte list \<Rightarrow> int \<Rightarrow> byte list list outcome" where
  "SplitStripes data maxStripeSize =
     (if maxStripeSize = 0 then Panic
      else
        let n = CeilDiv (int (length data)) maxStripeSize
        in if n < 0 then Panic
           else omap (\<lambda>i. let start = int i * maxStripeSize;
                              stripeEnd = min (start + maxStripeSize) (int (length data))
                          in slice_expr start stripeEnd data) [0..<nat n])"

section \<open>Wrapping and unwrapping\<close>

lemma wrap_consts: "prefix_size = 8" "length magicSuffix = 4" "WrapOverhead = 12"
  by (simp_all add: prefix_size_def magicSuffix_def WrapOverhead_def)

lemma contents_wrapData:
  assumes "valid_slice data"
  shows "contents (wrapData data) = put_uint64 (of_nat (slen data)) @ contents data @ magicSuffix"
proof -
  have w: "take (slen data + 12) (splice (8 + slen data) magicSuffix
      (splice 0 (put_uint64 (of_nat (slen data))) (splice 8 (contents data) cells)))
      = put_uint64 (of_nat (slen data)) @ contents data @ magicSuffix"
    if "slen data + 12 \<le> length cells" for cells
    using that assms by (simp add: splice_def len_simps wrap_consts)
  show ?thesis
    using w [of "sarr data"] w [of "replicate (slen data + 12) 0"]
    by (simp add: wrapData_def Let_def contents_def wrap_consts scap_def)
qed

text \<open>Exactly the wrapped data, with anything behind, unwraps.\<close>

lemma sint_of_nat_64: "n < 2 ^ 63 \<Longrightarrow> sint (of_nat n :: 64 word) = int n"
  by (simp add: signed_of_nat signed_take_bit_int_eq_self)

lemma sint_add_64:
  fixes a b :: "64 word"
  obtains "sint (a + b) = sint a + sint b" | "sint (a + b) = sint a + sint b - 2 ^ 64"
  | "sint (a + b) = sint a + sint b + 2 ^ 64"
proof -
  let ?s = "sint a + sint b"
  have r: "- (2 ^ 63) \<le> sint a" "sint a < 2 ^ 63" "- (2 ^ 63) \<le> sint b" "sint b < 2 ^ 63"
    using sint_ge [of a] sint_lt [of a] sint_ge [of b] sint_lt [of b] by simp_all
  have "(word_of_int ?s :: 64 word) = a + b" by simp
  then have e: "sint (a + b) = (?s + 2 ^ 63) mod 2 ^ 64 - 2 ^ 63"
    using int_word_sint [of ?s, where ?'a = 64] by simp
  consider "0 \<le> ?s + 2 ^ 63" "?s + 2 ^ 63 < 2 ^ 64" | "2 ^ 64 \<le> ?s + 2 ^ 63" | "?s + 2 ^ 63 < 0"
    by linarith
  then show ?thesis
  proof cases
    case 1
    then have "(?s + 2 ^ 63) mod 2 ^ 64 = ?s + 2 ^ 63" by (rule mod_pos_pos_trivial)
    with e that show ?thesis by simp
  next
    case 2
    have "(?s + 2 ^ 63) mod 2 ^ 64 = (?s + 2 ^ 63 - 2 ^ 64) mod 2 ^ 64" by (rule minus_mod_self2 [symmetric])
    also have "\<dots> = ?s + 2 ^ 63 - 2 ^ 64" using r 2 by (intro mod_pos_pos_trivial) auto
    finally show ?thesis using e that by simp
  next
    case 3
    have "(?s + 2 ^ 63) mod 2 ^ 64 = (?s + 2 ^ 63 + 2 ^ 64) mod 2 ^ 64" by (rule mod_add_self2 [symmetric])
    also have "\<dots> = ?s + 2 ^ 63 + 2 ^ 64" using r 3 by (intro mod_pos_pos_trivial) auto
    finally show ?thesis using e that by simp
  qed
qed

lemma unwrapData_wrapped:
  assumes "length x < 2 ^ 62"
  shows "unwrapData (put_uint64 (of_nat (length x)) @ x @ magicSuffix @ junk) = Ok x"
proof -
  let ?buf = "put_uint64 (of_nat (length x)) @ x @ magicSuffix @ junk"
  let ?e = "8 + length x"
  have e: "of_nat 8 + of_nat (length x) = (of_nat ?e :: 64 word)"
    "of_nat ?e + of_nat 4 = (of_nat (?e + 4) :: 64 word)" by simp_all
  have s: "sint (of_nat ?e :: 64 word) = int ?e" "sint (of_nat (?e + 4) :: 64 word) = int (?e + 4)"
    using assms sint_of_nat_64 [of ?e] sint_of_nat_64 [of "?e + 4"] by simp_all
  have "slice_expr (int ?e) (int (?e + 4)) ?buf = Ok magicSuffix"
    by (subst slice_expr_Ok) (simp_all add: window_def wrap_consts)
  moreover have "slice_expr (int 8) (int ?e) ?buf = Ok x"
    by (subst slice_expr_Ok) (simp_all add: window_def)
  moreover have "take 8 ?buf = put_uint64 (of_nat (length x))" by simp
  ultimately show ?thesis
    unfolding unwrapData_def wrap_consts Let_def by (simp only: uint64_put_uint64 e s) (simp add: wrap_consts)
qed

lemma put_uint64_uint64 [simp]: "length bs = 8 \<Longrightarrow> put_uint64 (uint64 bs) = bs"
  using be_decode_less [of bs] be_encode_decode [of bs]
  by (simp add: uint64_def put_uint64_def unat_of_nat)

lemma unwrapData_Ok:
  assumes "unwrapData buf = Ok x" and "length buf < 2 ^ 63"
  shows "\<exists>junk. buf = put_uint64 (of_nat (length x)) @ x @ magicSuffix @ junk"
proof -
  let ?size = "uint64 (take 8 buf)"
  let ?e = "8 + ?size" and ?n = "8 + ?size + 4"
  have c: "12 \<le> length buf" "sint ?n \<le> int (length buf)" "0 \<le> sint ?n"
    and suf: "slice_expr (sint ?e) (sint ?n) buf = Ok magicSuffix"
    and x: "slice_expr 8 (sint ?e) buf = Ok x"
    using assms(1)
    by (auto simp: unwrapData_def wrap_consts Let_def obind_Ok_iff split: if_splits)
  obtain k where k: "sint ?e = int (8 + k)"
    using x by (auto simp: slice_expr_def split: if_splits) (metis zle_iff_zadd of_nat_numeral of_nat_add)
  have xs: "x = window 8 k buf" "8 + k \<le> length buf"
    using x by (auto simp: slice_expr_def k split: if_splits)
  have "(of_int (sint ?e) :: 64 word) = ?e" by simp
  then have "?e = of_nat (8 + k)" unfolding k by (simp only: of_int_of_nat_eq)
  then have size: "?size = of_nat k" by simp
  have n: "sint ?n = int (8 + k + 4)"
    using c(3) k sint_lt [of ?e] sint_lt [of ?n] by (cases rule: sint_add_64 [of ?e 4]) auto
  have ms: "window (8 + k) 4 buf = magicSuffix" "8 + k + 4 \<le> length buf"
    using suf unfolding k n by (auto simp: slice_expr_def nat_diff_distrib' nat_add_distrib split: if_splits)
  have lx: "length x = k" using xs by (simp add: len_simps)
  have "buf = take 8 buf @ drop 8 buf" by simp
  also have "drop 8 buf = x @ drop (8 + k) buf"
    using append_take_drop_id [of k "drop 8 buf"] by (simp add: xs window_def add.commute)
  also have "drop (8 + k) buf = magicSuffix @ drop (8 + k + 4) buf"
    using append_take_drop_id [of 4 "drop (8 + k) buf"] ms by (simp add: window_def add.commute)
  also have "take 8 buf = put_uint64 (of_nat (length x))"
    using c(1) put_uint64_uint64 [of "take 8 buf"] by (simp add: size lx)
  finally show ?thesis by blast
qed

interpretation wrapped: codec
  "\<lambda>x. Ok (contents (wrapData \<lparr>sarr = x, slen = length x\<rparr>))" unwrapData "\<lambda>x. length x < 2 ^ 62"
proof
  fix x y :: "byte list"
  let ?s = "\<lparr>sarr = x, slen = length x\<rparr>"
  assume "length x < 2 ^ 62" and "Ok (contents (wrapData ?s)) = Ok y"
  moreover have "valid_slice ?s" "contents ?s = x" by (simp_all add: valid_slice_def scap_def contents_def)
  ultimately show "unwrapData y = Ok x"
    using unwrapData_wrapped [of x "[]"] by (auto simp: contents_wrapData)
qed simp

section \<open>What the code relies on in the library\<close>

definition shards_of :: "nat \<Rightarrow> nat \<Rightarrow> byte list list \<Rightarrow> bool" where
  "shards_of k n S \<longleftrightarrow> length S = n \<and> (\<forall>s \<in> set S. length s = k)"

text \<open>The shards with the indices in \<open>miss\<close> lost.\<close>

definition erase :: "nat list \<Rightarrow> byte list list \<Rightarrow> byte list list" where
  "erase miss S = map (\<lambda>(i, s). if i \<in> set miss then [] else s) (enumerate 0 S)"

definition lost :: "nat list \<Rightarrow> nat \<Rightarrow> nat" where
  "lost miss n = length (filter (\<lambda>i. i \<in> set miss) [0..<n])"

text \<open>
  The documentation of the library, for \<open>d\<close> data and \<open>p\<close> parity shards: \<open>Split\<close> cuts
  non-empty data into equal shards, the last data shard filled with zeros, and adds parity shards;
  \<open>Encode\<close> computes the parity shards, \<open>par\<close>, from the data shards; \<open>Verify\<close> compares
  them and reports missing shards as \<open>ErrShardSize\<close>; \<open>Reconstruct\<close> restores a codeword
  from any \<open>d\<close> of its shards and fails with fewer; \<open>Join\<close> writes the data shards.
\<close>

definition rs_shard_laws ::
  "rs_encoder \<Rightarrow> nat \<Rightarrow> nat \<Rightarrow> (byte list list \<Rightarrow> byte list list) \<Rightarrow> nat \<Rightarrow> byte list list \<Rightarrow> bool" where
  "rs_shard_laws E d p par k S \<longleftrightarrow>
     rs_Encode E S = Ok (take d S @ par (take d S)) \<and>
     rs_Verify E S = Ok (drop d S = par (take d S)) \<and>
     rs_Join E S (int (d * k)) = Ok (concat (take d S)) \<and>
     (\<forall>miss. 0 < lost miss (d + p) \<and> lost miss (d + p) < d + p \<longrightarrow>
        (\<exists>e. rs_Verify E (erase miss S) = Err e \<and> err_is e (rs_ErrShardSize E)) \<and>
        (if lost miss (d + p) \<le> p
         then drop d S = par (take d S) \<longrightarrow> rs_Reconstruct E (erase miss S) = Ok S
         else \<exists>e. rs_Reconstruct E (erase miss S) = Err e))"

definition rs_split_law :: "rs_encoder \<Rightarrow> nat \<Rightarrow> nat \<Rightarrow> byte list \<Rightarrow> bool" where
  "rs_split_law E d p data \<longleftrightarrow>
     (let k = (length data + d - 1) div d in
      \<exists>S. rs_Split E data = Ok S \<and> shards_of k (d + p) S \<and>
          concat (take d S) = data @ replicate (d * k - length data) 0)"

definition rs_laws :: "rs_encoder \<Rightarrow> nat \<Rightarrow> nat \<Rightarrow> (byte list list \<Rightarrow> byte list list) \<Rightarrow> bool" where
  "rs_laws E d p par \<longleftrightarrow>
     0 < d \<and>
     (\<forall>D k. shards_of k d D \<longrightarrow> shards_of k p (par D)) \<and>
     (\<forall>data. data \<noteq> [] \<longrightarrow> rs_split_law E d p data) \<and>
     (\<forall>S k. 0 < k \<and> shards_of k (d + p) S \<longrightarrow> rs_shard_laws E d p par k S)"

lemma rs_lawsD:
  assumes "rs_laws E d p par"
  shows "0 < d" and "shards_of k d D \<Longrightarrow> shards_of k p (par D)"
    and "data \<noteq> [] \<Longrightarrow> rs_split_law E d p data"
    and "shards_of k (d + p) S \<Longrightarrow> 0 < k \<Longrightarrow> rs_shard_laws E d p par k S"
  using assms by (auto simp: rs_laws_def)

lemma rs_shard_lawsD:
  assumes "rs_shard_laws E d p par k S"
  shows "rs_Encode E S = Ok (take d S @ par (take d S))"
    and "rs_Verify E S = Ok (drop d S = par (take d S))"
    and "rs_Join E S (int (d * k)) = Ok (concat (take d S))"
    and "0 < lost miss (d + p) \<Longrightarrow> lost miss (d + p) < d + p \<Longrightarrow>
      \<exists>e. rs_Verify E (erase miss S) = Err e \<and> err_is e (rs_ErrShardSize E)"
    and "0 < lost miss (d + p) \<Longrightarrow> lost miss (d + p) < d + p \<Longrightarrow> lost miss (d + p) \<le> p \<Longrightarrow>
      drop d S = par (take d S) \<Longrightarrow> rs_Reconstruct E (erase miss S) = Ok S"
    and "lost miss (d + p) < d + p \<Longrightarrow> p < lost miss (d + p) \<Longrightarrow>
      \<exists>e. rs_Reconstruct E (erase miss S) = Err e"
proof -
  note l = assms [unfolded rs_shard_laws_def]
  show "rs_Encode E S = Ok (take d S @ par (take d S))"
    "rs_Verify E S = Ok (drop d S = par (take d S))"
    "rs_Join E S (int (d * k)) = Ok (concat (take d S))" using l by simp_all
  show "\<exists>e. rs_Verify E (erase miss S) = Err e \<and> err_is e (rs_ErrShardSize E)"
    if "0 < lost miss (d + p)" "lost miss (d + p) < d + p" using l that by blast
  show "rs_Reconstruct E (erase miss S) = Ok S"
    if "0 < lost miss (d + p)" "lost miss (d + p) < d + p" "lost miss (d + p) \<le> p" "drop d S = par (take d S)"
    using l that by meson
  show "\<exists>e. rs_Reconstruct E (erase miss S) = Err e"
    if "lost miss (d + p) < d + p" "p < lost miss (d + p)"
  proof -
    have "0 < lost miss (d + p)" "\<not> lost miss (d + p) \<le> p" using that by simp_all
    with l that(1) show ?thesis by meson
  qed
qed

lemma length_erase [len_simps]: "length (erase miss S) = length S"
  by (simp add: erase_def)

lemma erase_none: "lost miss (length S) = 0 \<Longrightarrow> erase miss S = S"
  by (intro nth_equalityI) (auto simp: erase_def lost_def filter_empty_conv nth_enumerate_eq)

lemma lost_le: "lost miss n \<le> n"
  unfolding lost_def by (metis length_filter_le length_upt diff_zero)

section \<open>Encoding, losing shards, extracting\<close>

text \<open>A codeword of which some shards are lost.\<close>

lemma joined_data_erased:
  assumes laws: "rs_laws (ec_enc e) d p par" and db: "DataBlocks e = int d"
    and S: "shards_of k (d + p) S" "0 < k" "drop d S = par (take d S)"
    and miss: "lost miss (d + p) \<le> p"
  shows "joined_data e (erase miss S) = Ok (concat (take d S))"
proof -
  have len: "length S = d + p" using S(1) by (simp add: shards_of_def)
  note d = rs_lawsD(1) [OF laws]
  note shard = rs_shard_lawsD [OF rs_lawsD(4) [OF laws S(1,2)]]
  have S_laws: "rs_Verify (ec_enc e) S = Ok True" "rs_Join (ec_enc e) S (int (d * k)) = Ok (concat (take d S))"
    using shard(2,3) S(3) by simp_all
  obtain s0 S' where "S = s0 # S'" using len d by (cases S) auto
  then have fst: "first_shard S = Ok (hd S)" "length (hd S) = k"
    using S(1) by (simp_all add: first_shard_def shards_of_def)
  show ?thesis
  proof (cases "lost miss (d + p) = 0")
    case True
    then show ?thesis
      using erase_none [of miss S] len S_laws fst by (simp add: joined_data_def db)
  next
    case False
    have m: "0 < lost miss (d + p)" "lost miss (d + p) < d + p" using miss d False by simp_all
    obtain err where "rs_Verify (ec_enc e) (erase miss S) = Err err" "err_is err (rs_ErrShardSize (ec_enc e))"
      using shard(4) [OF m] by blast
    then show ?thesis using S_laws fst shard(5) [OF m miss S(3)] by (simp add: joined_data_def db)
  qed
qed

text \<open>Too many shards lost: an error, never wrong data.\<close>

lemma joined_data_unrecoverable:
  assumes laws: "rs_laws (ec_enc e) d p par"
    and S: "shards_of k (d + p) S" "0 < k" and miss: "p < lost miss (d + p)" "lost miss (d + p) < d + p"
  shows "\<exists>err. joined_data e (erase miss S) = Err err"
proof -
  note shard = rs_shard_lawsD [OF rs_lawsD(4) [OF laws S]]
  have "0 < lost miss (d + p)" using miss by simp
  then obtain e1 where ver: "rs_Verify (ec_enc e) (erase miss S) = Err e1"
    "err_is e1 (rs_ErrShardSize (ec_enc e))"
    using shard(4) miss(2) by blast
  obtain e2 where "rs_Reconstruct (ec_enc e) (erase miss S) = Err e2"
    using shard(6) miss by blast
  with ver show ?thesis by (simp add: joined_data_def)
qed

lemma EncodeRaw_codeword:
  assumes laws: "rs_laws (ec_enc e) d p par" and data: "data \<noteq> []"
  shows "\<exists>S. EncodeRaw e data = Ok S \<and> shards_of ((length data + d - 1) div d) (d + p) S \<and>
    0 < (length data + d - 1) div d \<and> drop d S = par (take d S) \<and>
    concat (take d S) = data @ replicate (d * ((length data + d - 1) div d) - length data) 0"
proof -
  let ?k = "(length data + d - 1) div d"
  note d = rs_lawsD(1) [OF laws]
  have k: "0 < ?k" using data d by (cases data) (auto simp: div_greater_zero_iff)
  obtain S where S: "rs_Split (ec_enc e) data = Ok S" "shards_of ?k (d + p) S"
    "concat (take d S) = data @ replicate (d * ?k - length data) 0"
    using rs_lawsD(3) [OF laws data] by (auto simp: rs_split_law_def Let_def)
  note enc = rs_shard_lawsD(1) [OF rs_lawsD(4) [OF laws S(2) k]]
  have "shards_of ?k d (take d S)" using S(2) by (auto simp: shards_of_def dest: in_set_takeD)
  then have par: "shards_of ?k p (par (take d S))" by (rule rs_lawsD(2) [OF laws])
  have len: "length S = d + p" using S(2) by (simp add: shards_of_def)
  let ?C = "take d S @ par (take d S)"
  have "shards_of ?k (d + p) ?C"
    using S(2) par by (auto simp: shards_of_def dest: in_set_takeD)
  then show ?thesis
    using enc S k len by (intro exI [of _ ?C]) (simp add: EncodeRaw_def)
qed

lemma Encode_eq: "Encode e data = obind (EncodeRaw e (contents (wrapData data)))
    (\<lambda>S. obind (first_shard S) (\<lambda>_. Ok (concat S)))"
  by (cases "rs_Split (ec_enc e) (contents (wrapData data))") (auto simp: Encode_def EncodeRaw_def)

text \<open>The encoded bytes are cut into shards again by those who store them.\<close>

lemma chunks_shards: "shards_of k n S \<Longrightarrow> 0 < k \<Longrightarrow> chunks k (concat S) = S"
  by (rule chunks_concat) (auto simp: shards_of_def)

lemma length_concat_shards: "shards_of k n S \<Longrightarrow> length (concat S) = n * k"
proof (induction S arbitrary: n)
  case Nil
  then show ?case by (simp add: shards_of_def)
next
  case (Cons s S)
  then have "shards_of k (n - 1) S" "n = Suc (n - 1)" "length s = k" by (auto simp: shards_of_def)
  with Cons.IH show ?case by (metis concat.simps(2) length_append mult_Suc)
qed

lemma Encode_codeword:
  assumes laws: "rs_laws (ec_enc e) d p par" and data: "valid_slice data" "slen data < 2 ^ 62"
  shows "\<exists>S k. Encode e data = Ok (concat S) \<and> shards_of k (d + p) S \<and> 0 < k \<and>
    drop d S = par (take d S) \<and> unwrapData (concat (take d S)) = Ok (contents data) \<and>
    k = (slen data + 12 + d - 1) div d"
proof -
  let ?w = "contents (wrapData data)"
  have w: "?w = put_uint64 (of_nat (length (contents data))) @ contents data @ magicSuffix"
    using data by (simp add: contents_wrapData len_simps)
  then have "?w \<noteq> []" by (simp add: magicSuffix_def)
  from EncodeRaw_codeword [OF laws this] obtain S where S: "EncodeRaw e ?w = Ok S"
    "shards_of ((length ?w + d - 1) div d) (d + p) S" "0 < (length ?w + d - 1) div d"
    "drop d S = par (take d S)"
    "concat (take d S) = ?w @ replicate (d * ((length ?w + d - 1) div d) - length ?w) 0"
    by blast
  have "S \<noteq> []" using S(2) rs_lawsD(1) [OF laws] by (auto simp: shards_of_def)
  then have "first_shard S = Ok (hd S)" by (cases S) (auto simp: first_shard_def)
  then have "Encode e data = Ok (concat S)" using S(1) by (simp add: Encode_eq)
  moreover have "unwrapData (concat (take d S)) = Ok (contents data)"
    using data unwrapData_wrapped [of "contents data"] by (simp add: S(5) w len_simps)
  moreover have "length ?w = slen data + 12"
    using data(1) by (simp add: w len_simps) (simp add: magicSuffix_def)
  ultimately show ?thesis using S by metis
qed

section \<open>Stripes\<close>

lemma SplitStripes_chunks:
  assumes "0 < m"
  shows "SplitStripes data (int m) = Ok (chunks m data)"
proof -
  let ?l = "length data"
  have n: "CeilDiv (int ?l) (int m) = int ((?l + m - 1) div m)" using assms by (rule CeilDiv_nat)
  have len: "length (chunks m data) = (?l + m - 1) div m" using assms by (simp add: len_simps)
  have piece: "slice_expr (int i * int m) (min (int i * int m + int m) (int ?l)) data = Ok (chunks m data ! i)"
    if "i < (?l + m - 1) div m" for i
  proof -
    have "Suc i * m \<le> ?l + m - 1"
      using that assms by (metis Suc_le_eq less_eq_div_iff_mult_less_eq)
    then have i: "i * m < ?l" using assms by simp
    have "slice_expr (int (i * m)) (int (min (i * m + m) ?l)) data =
        Ok (window (i * m) (min (i * m + m) ?l - i * m) data)"
      using i by (intro slice_expr_Ok) auto
    also have "window (i * m) (min (i * m + m) ?l - i * m) data = window (i * m) m data"
      by (auto simp: window_def min_def)
    also have "\<dots> = chunks m data ! i" using chunks_nth [OF assms i] by simp
    finally show ?thesis by (simp add: of_nat_min)
  qed
  have "omap (\<lambda>i. slice_expr (int i * int m) (min (int i * int m + int m) (int ?l)) data) [0..<(?l + m - 1) div m]
      = Ok (map ((!) (chunks m data)) [0..<(?l + m - 1) div m])"
    by (intro omap_all_Ok piece) simp
  also have "map ((!) (chunks m data)) [0..<(?l + m - 1) div m] = chunks m data"
    unfolding len [symmetric] by (rule map_nth)
  finally show ?thesis using assms by (simp add: SplitStripes_def n Let_def)
qed

section \<open>When unwrapping panics\<close>

text \<open>The eight bytes of a size between -8 and -1 are none of the suffix's first byte.\<close>

lemma negative_size_bytes:
  assumes "length bs = 8" and "sint (uint64 bs) = - int j" and "0 < j" "j \<le> 8" and "i < 8"
  shows "bs ! i \<noteq> 222"
proof -
  let ?cs = "[255, 255, 255, 255, 255, 255, 255, of_nat (256 - j)] :: byte list"
  have j: "j = 1 \<or> j = 2 \<or> j = 3 \<or> j = 4 \<or> j = 5 \<or> j = 6 \<or> j = 7 \<or> j = 8" using assms(3,4) by linarith
  have dec: "be_decode ?cs = 2 ^ 64 - j"
    using j by (elim disjE) (simp_all add: be_decode_def)
  have "(of_int (sint (uint64 bs)) :: 64 word) = uint64 bs" by simp
  then have "uint64 bs = of_int (- int j)" using assms(2) by simp
  then have "uint (uint64 bs) = (- int j) mod 2 ^ 64" by (simp only: uint_word_of_int) simp
  also have "\<dots> = 2 ^ 64 - int j" using j by (elim disjE) simp_all
  finally have "unat (uint64 bs) = 2 ^ 64 - j" by (simp add: unat_eq_nat_uint)
  moreover have "unat (uint64 bs) = be_decode bs"
    using be_decode_less [of bs] assms(1) by (simp add: uint64_def unat_of_nat)
  ultimately have "bs = ?cs"
    using dec assms(1) by (intro be_decode_inj) simp_all
  moreover have "222 \<notin> set ?cs" using j by (elim disjE) simp_all
  moreover have "bs ! i \<in> set bs" using assms(1,5) by simp
  ultimately show ?thesis by metis
qed

lemma unwrapData_Panic_iff:
  assumes "length buf < 2 ^ 62"
  shows "unwrapData buf = Panic \<longleftrightarrow> 12 \<le> length buf \<and> sint (uint64 (take 8 buf)) \<in> {-12..-9}"
proof (cases "12 \<le> length buf")
  case False
  then show ?thesis by (simp add: unwrapData_def wrap_consts)
next
  case len: True
  let ?size = "uint64 (take 8 buf)"
  let ?e = "8 + ?size" and ?n = "8 + ?size + 4"
  have unfold: "unwrapData buf = (if int (length buf) < sint ?n \<or> sint ?n < 0 then Err (ErrNew ''buffer too short'')
      else obind (slice_expr (sint ?e) (sint ?n) buf) (\<lambda>suffix.
        if suffix \<noteq> magicSuffix then Err (ErrNew ''missing suffix or corrupted data'')
        else slice_expr 8 (sint ?e) buf))"
    unfolding unwrapData_def wrap_consts Let_def of_nat_numeral using len by simp
  have s: "sint ?size < 2 ^ 63" "- (2 ^ 63) \<le> sint ?size" using sint_lt [of ?size] sint_ge [of ?size] by simp_all
  have l: "int (length buf) < 2 ^ 62" using assms by simp
  have size: "0 \<le> sint ?n \<Longrightarrow> sint ?n \<le> int (length buf) \<Longrightarrow>
      sint ?e = sint ?size + 8 \<and> sint ?n = sint ?size + 12"
    using l s sint_lt [of ?e] sint_lt [of ?n] sint_ge [of ?e] sint_ge [of ?n]
    by (cases rule: sint_add_64 [of 8 ?size]; cases rule: sint_add_64 [of ?e 4]) auto
  have small: "sint ?size \<in> {-12..-9} \<Longrightarrow> sint ?e = sint ?size + 8 \<and> sint ?n = sint ?size + 12"
    using sint_lt [of ?e] sint_lt [of ?n] sint_ge [of ?e] sint_ge [of ?n]
    by (cases rule: sint_add_64 [of 8 ?size]; cases rule: sint_add_64 [of ?e 4]) auto
  show ?thesis
  proof (cases "0 \<le> sint ?n \<and> sint ?n \<le> int (length buf)")
    case False
    then have "unwrapData buf \<noteq> Panic" unfolding unfold by auto
    moreover have "sint ?size \<notin> {-12..-9}" using small False len by auto
    ultimately show ?thesis by simp
  next
    case True
    note e = conjunct1 [OF size] conjunct2 [OF size]
    have e: "sint ?e = sint ?size + 8" "sint ?n = sint ?size + 12" using size True by blast+
    show ?thesis
    proof (cases "0 \<le> sint ?e")
      case False
      then have "slice_expr (sint ?e) (sint ?n) buf = Panic" by (simp add: slice_expr_def)
      then have "unwrapData buf = Panic" unfolding unfold using True by simp
      moreover have "sint ?size \<in> {-12..-9}" using False True e by auto
      ultimately show ?thesis using len by simp
    next
      case pos: True
      define k where "k = nat (sint ?e)"
      have k: "sint ?e = int k" "k + 4 \<le> length buf" using pos True e by (simp_all add: k_def)
      have sl: "slice_expr (sint ?e) (sint ?n) buf = Ok (window k 4 buf)"
      proof -
        have n: "sint ?n = int (k + 4)" using k e by simp
        show ?thesis unfolding n k(1) using k(2) by (subst slice_expr_Ok) simp_all
      qed
      have "window k 4 buf \<noteq> magicSuffix" if "k < 8"
      proof
        assume "window k 4 buf = magicSuffix"
        then have "buf ! k = 222"
          using k(2) by (auto simp: window_def magicSuffix_def dest!: arg_cong [of _ _ "\<lambda>xs. xs ! 0"])
        moreover have "take 8 buf ! k \<noteq> 222"
          using that len k(1) e(1) by (intro negative_size_bytes [of _ "8 - k"]) auto
        ultimately show False using that by simp
      qed
      moreover have "slice_expr 8 (sint ?e) buf \<noteq> Panic" if "8 \<le> k"
        using that k by (simp add: slice_expr_def)
      ultimately have "unwrapData buf \<noteq> Panic"
        unfolding unfold sl using True by (cases "k < 8") auto
      moreover have "sint ?size \<notin> {-12..-9}" using pos e by auto
      ultimately show ?thesis by simp
    qed
  qed
qed

section \<open>A code that fulfils the laws\<close>

text \<open>One data shard and one copy of it.\<close>

definition mirror_encoder :: rs_encoder where
  "mirror_encoder = \<lparr>
     rs_Split = (\<lambda>data. if data = [] then Err (ErrNew ''not enough data'') else Ok [data, replicate (length data) 0]),
     rs_Encode = (\<lambda>S. Ok [S ! 0, S ! 0]),
     rs_Verify = (\<lambda>S. if length (S ! 0) = length (S ! 1) then Ok (S ! 1 = S ! 0)
                     else Err (ErrNew ''shard sizes do not match'')),
     rs_Reconstruct = (\<lambda>S. if S ! 0 = [] \<and> S ! 1 = [] then Err (ErrNew ''too few shards given'')
                          else if S ! 0 = [] then Ok [S ! 1, S ! 1] else Ok [S ! 0, S ! 0]),
     rs_Join = (\<lambda>S n. Ok (take (nat n) (S ! 0))),
     rs_ErrShardSize = ErrNew ''shard sizes do not match''\<rparr>"

lemma mirror_laws: "rs_laws mirror_encoder 1 1 (\<lambda>D. D)"
proof -
  have two: "\<exists>a b. S = [a, b] \<and> length a = k \<and> length b = k" if "shards_of k 2 S" for S k
    using that by (auto simp: shards_of_def length_Suc_conv numeral_2_eq_2)
  have "rs_shard_laws mirror_encoder 1 1 (\<lambda>D. D) k S" if "0 < k" and S: "shards_of k 2 S" for S k
  proof -
    obtain a b where ab: "S = [a, b]" "length a = k" "length b = k" using two [OF S] by blast
    have ne: "a \<noteq> []" "b \<noteq> []" using ab \<open>0 < k\<close> by auto
    have er: "erase miss S = [if 0 \<in> set miss then [] else a, if 1 \<in> set miss then [] else b]" for miss
      by (simp add: erase_def ab)
    have lo: "lost miss 2 = (if 0 \<in> set miss then 1 else 0) + (if 1 \<in> set miss then 1 else 0)" for miss
      by (simp add: lost_def upt_rec)
    show ?thesis
      unfolding rs_shard_laws_def er one_add_one lo
      using ab ne by (auto simp: mirror_encoder_def)
  qed
  then show ?thesis
    unfolding rs_laws_def one_add_one
    by (auto simp: rs_split_law_def mirror_encoder_def shards_of_def)
qed

section \<open>Properties\<close>

text \<open>C17: With a Reed-Solomon library that keeps its documented contract, \<open>Encode\<close> succeeds on
  every buffer (the empty one too), its output is a whole number of equal shards, and
  \<open>ExtractData\<close> gives the buffer back from these shards whenever at most \<open>ParityBlocks\<close> of
  them are missing, and an error, never other data, when more but not all are missing.\<close>

theorem erasure_roundtrip:
  assumes "rs_laws (ec_enc e) d p par" and "DataBlocks e = int d"
    and "valid_slice data" and "slen data < 2 ^ 62"
  shows "\<exists>out k. Encode e data = Ok out \<and> 0 < k \<and> length out = (d + p) * k \<and>
    (\<forall>miss. lost miss (d + p) \<le> p \<longrightarrow> ExtractData e (erase miss (chunks k out)) = Ok (contents data)) \<and>
    (\<forall>miss. p < lost miss (d + p) \<and> lost miss (d + p) < d + p \<longrightarrow>
       (\<exists>err. ExtractData e (erase miss (chunks k out)) = Err err))"
proof -
  obtain S k where S: "Encode e data = Ok (concat S)" "shards_of k (d + p) S" "0 < k"
    "drop d S = par (take d S)" "unwrapData (concat (take d S)) = Ok (contents data)"
    using Encode_codeword [OF assms(1,3,4)] by metis
  have "ExtractData e (erase miss S) = Ok (contents data)" if "lost miss (d + p) \<le> p" for miss
    using joined_data_erased [OF assms(1,2) S(2,3,4) that] S(5) by (simp add: ExtractData_def)
  moreover have "\<exists>err. ExtractData e (erase miss S) = Err err"
    if "p < lost miss (d + p)" "lost miss (d + p) < d + p" for miss
    using joined_data_unrecoverable [OF assms(1) S(2,3) that] by (auto simp: ExtractData_def)
  ultimately show ?thesis
    using S(1,3) chunks_shards [OF S(2,3)] length_concat_shards [OF S(2)]
    by (intro exI [of _ "concat S"] exI [of _ k]) simp
qed

definition mirror_code :: ErasureCode where
  "mirror_code = \<lparr>DataBlocks = 1, ParityBlocks = 1, ec_enc = mirror_encoder\<rparr>"

theorem erasure_roundtrip_witness:
  "\<exists>out k. Encode mirror_code \<lparr>sarr = [1, 2, 3], slen = 2\<rparr> = Ok out \<and> length out = 2 * k \<and>
     ExtractData mirror_code (erase [0] (chunks k out)) = Ok [1, 2]"
proof -
  have "\<exists>out k. Encode mirror_code \<lparr>sarr = [1, 2, 3], slen = 2\<rparr> = Ok out \<and> 0 < k \<and> length out = (1 + 1) * k \<and>
    (\<forall>miss. lost miss (1 + 1) \<le> 1 \<longrightarrow>
       ExtractData mirror_code (erase miss (chunks k out)) = Ok (contents \<lparr>sarr = [1, 2, 3], slen = 2\<rparr>)) \<and>
    (\<forall>miss. 1 < lost miss (1 + 1) \<and> lost miss (1 + 1) < 1 + 1 \<longrightarrow>
       (\<exists>err. ExtractData mirror_code (erase miss (chunks k out)) = Err err))"
    using mirror_laws by (intro erasure_roundtrip) (simp_all add: mirror_code_def valid_slice_def scap_def)
  then obtain out k where "Encode mirror_code \<lparr>sarr = [1, 2, 3], slen = 2\<rparr> = Ok out" "length out = 2 * k"
    and all: "\<forall>miss. lost miss 2 \<le> 1 \<longrightarrow>
       ExtractData mirror_code (erase miss (chunks k out)) = Ok (contents \<lparr>sarr = [1, 2, 3], slen = 2\<rparr>)"
    unfolding one_add_one by blast
  moreover have "lost [0] 2 \<le> 1" by (simp add: lost_def upt_rec)
  ultimately show ?thesis by (auto simp: contents_def)
qed

text \<open>C37: \<open>unwrapData\<close> accepts exactly the buffers that start with a wrapped value, with
  whatever padding behind it, and returns that value. Its bounds check is incomplete: exactly the
  size fields that read as -12 to -9 make it panic on a negative slice bound, on any buffer long
  enough to hold the wrapping.\<close>

theorem unwrap_exact:
  assumes "length buf < 2 ^ 62"
  shows "(unwrapData buf = Ok x \<longleftrightarrow> (\<exists>junk. buf = put_uint64 (of_nat (length x)) @ x @ magicSuffix @ junk)) \<and>
    (unwrapData buf = Panic \<longleftrightarrow> 12 \<le> length buf \<and> sint (uint64 (take 8 buf)) \<in> {-12..-9})"
proof
  show "unwrapData buf = Ok x \<longleftrightarrow> (\<exists>junk. buf = put_uint64 (of_nat (length x)) @ x @ magicSuffix @ junk)"
    using unwrapData_Ok [of buf x] unwrapData_wrapped [of x] assms by auto
  show "unwrapData buf = Panic \<longleftrightarrow> 12 \<le> length buf \<and> sint (uint64 (take 8 buf)) \<in> {-12..-9}"
    using assms by (rule unwrapData_Panic_iff)
qed

theorem unwrap_exact_witness:
  "unwrapData (put_uint64 (- 10) @ replicate 24 7) = Panic \<and>
   unwrapData (put_uint64 2 @ [5, 6] @ magicSuffix @ [0, 0]) = Ok [5, 6]"
  using unwrap_exact [of "put_uint64 (- 10) @ replicate 24 7" "[]"]
    unwrap_exact [of "put_uint64 2 @ [5, 6] @ magicSuffix @ [0, 0]" "[5, 6]"]
  by (simp add: wrap_consts)

text \<open>\<open>ExtractDataRaw\<close> gives back the data given to \<open>EncodeRaw\<close>, filled with zeros to a
  multiple of \<open>DataBlocks\<close>, with at most \<open>ParityBlocks\<close> shards missing. The size the
  caller passes is not used: only data whose length is a multiple comes back unchanged.\<close>

theorem erasure_raw_roundtrip:
  assumes "rs_laws (ec_enc e) d p par" and "DataBlocks e = int d" and "data \<noteq> []"
  shows "\<exists>S pad. EncodeRaw e data = Ok S \<and> length S = d + p \<and>
    (\<forall>miss originalSize. lost miss (d + p) \<le> p \<longrightarrow>
       ExtractDataRaw e (erase miss S) originalSize = Ok (data @ replicate pad 0)) \<and>
    pad < d \<and> (pad = 0 \<longleftrightarrow> d dvd length data)"
proof -
  let ?k = "(length data + d - 1) div d"
  obtain S where S: "EncodeRaw e data = Ok S" "shards_of ?k (d + p) S" "0 < ?k" "drop d S = par (take d S)"
    "concat (take d S) = data @ replicate (d * ?k - length data) 0"
    using EncodeRaw_codeword [OF assms(1,3)] by blast
  note d = rs_lawsD(1) [OF assms(1)]
  have dm: "d * ?k + (length data + d - 1) mod d = length data + d - 1"
    by (simp add: mult_div_mod_eq)
  have "(length data + d - 1) mod d < d" using d by simp
  then have pad: "length data \<le> d * ?k" "d * ?k < length data + d"
    using d dm by linarith+
  have "d * ?k - length data = 0 \<longleftrightarrow> d dvd length data"
  proof
    assume "d * ?k - length data = 0"
    then have "length data = d * ?k" using pad by simp
    then show "d dvd length data" by (rule dvdI)
  next
    assume "d dvd length data"
    then obtain q where q: "length data = d * q" ..
    then have "d * ?k < d * Suc q" using pad(2) by simp
    then have "?k < Suc q" unfolding mult_less_cancel1 by (rule conjunct2)
    then have "?k \<le> q" by (rule less_Suc_eq_le [THEN iffD1])
    then have "d * ?k \<le> d * q" by (rule mult_le_mono2)
    then show "d * ?k - length data = 0" using q by simp
  qed
  moreover have "d * ?k - length data < d" using pad d by linarith
  ultimately show ?thesis
    using S joined_data_erased [OF assms(1,2) S(2,3,4)]
    by (intro exI [of _ S] exI [of _ "d * ?k - length data"]) (auto simp: ExtractDataRaw_def shards_of_def)
qed

theorem erasure_raw_roundtrip_witness:
  "\<exists>S pad. EncodeRaw mirror_code [4, 5] = Ok S \<and> length S = 2 \<and>
     ExtractDataRaw mirror_code (erase [1] S) 2 = Ok ([4, 5] @ replicate pad 0) \<and> pad < 1"
proof -
  have "\<exists>S pad. EncodeRaw mirror_code [4, 5] = Ok S \<and> length S = 1 + 1 \<and>
    (\<forall>miss originalSize. lost miss (1 + 1) \<le> 1 \<longrightarrow>
       ExtractDataRaw mirror_code (erase miss S) originalSize = Ok ([4, 5] @ replicate pad 0)) \<and>
    pad < 1 \<and> (pad = 0 \<longleftrightarrow> 1 dvd length ([4, 5] :: byte list))"
    using mirror_laws by (intro erasure_raw_roundtrip) (simp_all add: mirror_code_def)
  moreover have "lost [1] (1 + 1) \<le> 1" by (simp add: lost_def upt_rec)
  ultimately show ?thesis unfolding one_add_one by blast
qed

text \<open>\<open>SplitStripes\<close> with a positive stripe size never panics; its stripes, in order, are
  the data, none is empty or longer than the stripe size, and all but the last have exactly that
  size.\<close>

theorem split_stripes:
  assumes "0 < m"
  shows "\<exists>ss. SplitStripes data (int m) = Ok ss \<and> concat ss = data \<and>
    length ss = (length data + m - 1) div m \<and> (\<forall>s \<in> set ss. 0 < length s \<and> length s \<le> m) \<and>
    (\<forall>i. Suc i < length ss \<longrightarrow> length (ss ! i) = m)"
proof -
  have "length (chunks m data ! i) = m" if i: "Suc i < length (chunks m data)" for i
  proof -
    have "Suc (Suc i) * m \<le> length data + m - 1"
      using i assms by (simp add: len_simps) (metis Suc_le_eq less_eq_div_iff_mult_less_eq mult_Suc)
    then have le: "i * m + m < length data" using assms by simp
    then show ?thesis using chunks_nth [OF assms, of i data] by (simp add: window_def)
  qed
  then show ?thesis
    using assms by (auto simp: SplitStripes_chunks len_simps dest: chunks_member)
qed

theorem split_stripes_witness:
  "\<exists>ss. SplitStripes [1, 2, 3, 4, 5] (int 2) = Ok ss \<and> concat ss = [1, 2, 3, 4, 5] \<and> length ss = 3"
  using split_stripes [of 2 "[1, 2, 3, 4, 5]"] by auto

end
