(* ===== verification/Merkle.thy ===== *)
theory Merkle
  imports Encryption
begin

text \<open>
  \<open>private/merkletree\<close>: the binary Merkle tree of a piece, kept level after level in one buffer,
  inclusion proofs read out of it, their verification, and the reader that pads a piece with zeros.

  Node offsets are \<open>int64\<close>s far below their bound (a tree has at most 2^24 nodes) and are
  \<open>int\<close> here; the leaf index of a proof is any integer. \<open>fr32.Pad\<close> and \<open>Padded\<close> are
  library functions and parameters. Buffers come from a pool with whatever was in them. A loop that
  may not end is a \<open>partial_function\<close>, \<open>None\<close> meaning that the call never returns.
\<close>

definition NodeSize :: int where "NodeSize = 32"

definition MaxMemtreeSize :: int where "MaxMemtreeSize = push_bit 20 256"

text \<open>\<open>sum[len(sum)-1] &= 0x3F\<close>\<close>

definition clear_top_bits :: "byte list \<Rightarrow> byte list" where
  "clear_top_bits s = butlast s @ [last s AND 63]"

definition hash :: "prims \<Rightarrow> byte list \<Rightarrow> byte list" where
  "hash P data = clear_top_bits (sha256_sum P data)"

lemma length_hash [simp]: "length (hash P d) = 32"
  by (simp add: hash_def clear_top_bits_def)

section \<open>Building the tree\<close>

partial_function (option) level_counts ::
  "int \<Rightarrow> int \<Rightarrow> int \<Rightarrow> int list \<Rightarrow> (int \<times> int list) option" where
  "level_counts arity currLevelCount totalNodes levelCounts =
     (if 0 < currLevelCount
      then let counts = levelCounts @ [currLevelCount]; total = totalNodes + currLevelCount
           in if currLevelCount = 1 then Some (total, counts)
              else level_counts arity ((currLevelCount + arity - 1) sdiv arity) total counts
      else Some (totalNodes, levelCounts))"

definition computeTotalNodes :: "int \<Rightarrow> int \<Rightarrow> (int \<times> int list) option" where
  "computeTotalNodes nLeaves arity = level_counts arity nLeaves 0 []"

text \<open>The offsets of the levels: the running sums of their sizes in bytes.\<close>

fun level_offsets :: "int \<Rightarrow> int list \<Rightarrow> int list" where
  "level_offsets start [] = []"
| "level_offsets start (s # ss) = start # level_offsets (start + s * NodeSize) ss"

text \<open>
  The inner loop: \<open>n\<close> nodes of a level remain, node \<open>i\<close> is next. \<open>d.Sum\<close> appends the
  digest at \<open>outOffset\<close>, and the access to its last byte checks the bound.
\<close>

fun build_nodes :: "prims \<Rightarrow> int \<Rightarrow> int \<Rightarrow> nat \<Rightarrow> int \<Rightarrow> byte list \<Rightarrow> byte list outcome" where
  "build_nodes P prevLevelStart currLevelStart 0 i buf = Ok buf"
| "build_nodes P prevLevelStart currLevelStart (Suc n) i buf =
     (let leftOffset = prevLevelStart + (2 * i) * NodeSize;
          outOffset = currLevelStart + i * NodeSize
      in obind (slice_expr leftOffset (leftOffset + NodeSize * 2) buf) (\<lambda>pair.
         obind (slice_expr outOffset (outOffset + NodeSize) buf) (\<lambda>_.
         build_nodes P prevLevelStart currLevelStart n (i + 1) (splice (nat outOffset) (hash P pair) buf))))"

text \<open>The outer loop over the levels above the leaves, with the level below.\<close>

fun build_levels :: "prims \<Rightarrow> (int \<times> int) \<Rightarrow> (int \<times> int) list \<Rightarrow> byte list \<Rightarrow> byte list outcome" where
  "build_levels P prev [] buf = Ok buf"
| "build_levels P prev (cur # rest) buf =
     obind (build_nodes P (fst prev) (fst cur) (nat (snd cur)) 0 buf) (build_levels P cur rest)"

definition EOF :: go_error where "EOF = ErrNew ''EOF''"

text \<open>\<open>io.ReadFull\<close> of \<open>n\<close> bytes from a reader with the given content.\<close>

definition io_ReadFull :: "byte list \<Rightarrow> nat \<Rightarrow> byte list outcome" where
  "io_ReadFull content n =
     (if n \<le> length content then Ok (take n content)
      else if content = [] then Err EOF else Err ErrUnexpectedEOF)"

definition BuildSha254Memtree ::
  "prims \<Rightarrow> (int \<Rightarrow> int) \<Rightarrow> (byte list \<Rightarrow> byte list) \<Rightarrow> (nat \<Rightarrow> byte list) \<Rightarrow> byte list \<Rightarrow> int \<Rightarrow>
   byte list outcome option" where
  "BuildSha254Memtree P Padded fr32_Pad pool rawIn piece_size =
     (if MaxMemtreeSize < Padded piece_size
      then Some (Err (ErrNew (''piece too large for memtree: '' @ format_int piece_size)))
      else if piece_size < 0 then Some Panic
      else
        case map_err (\<lambda>e. ErrWrap ''failed to read into unpadBuf: '' e []) (io_ReadFull rawIn (nat piece_size)) of
          Err e \<Rightarrow> Some (Err e)
        | Panic \<Rightarrow> Some Panic
        | Ok unpadBuf \<Rightarrow>
            (let nLeaves = Padded piece_size sdiv NodeSize in
             case computeTotalNodes nLeaves 2 of
               None \<Rightarrow> None
             | Some (totalNodes, levelSizes) \<Rightarrow>
                 (let memtreeBuf = pool (nat (totalNodes * NodeSize)) in
                  Some (obind (slice_expr 0 (Padded piece_size) memtreeBuf) (\<lambda>_.
                    let buf = splice 0 (fr32_Pad unpadBuf) memtreeBuf in
                    case zip (level_offsets 0 levelSizes) levelSizes of
                      [] \<Rightarrow> Panic
                    | leaves # levels \<Rightarrow> build_levels P leaves levels buf)))))"

section \<open>Proofs\<close>

record RawMerkleProof =
  mp_Leaf :: "byte list"
  mp_Proof :: "byte list list"
  mp_Root :: "byte list"

text \<open>The first loop of \<open>MemtreeProof\<close>: it ends only when a level has one node.\<close>

partial_function (option) count_levels :: "int \<Rightarrow> int list \<Rightarrow> int \<Rightarrow> (int list \<times> int) option" where
  "count_levels currLevelCount levelSizes totalNodesCheck =
     (let sizes = levelSizes @ [currLevelCount]; check = totalNodesCheck + currLevelCount
      in if currLevelCount = 1 then Some (sizes, check)
         else count_levels ((currLevelCount + 2 - 1) sdiv 2) sizes check)"

text \<open>The siblings of the levels that start at the given offsets.\<close>

fun collect_siblings :: "byte list \<Rightarrow> int list \<Rightarrow> int \<Rightarrow> byte list list outcome" where
  "collect_siblings memtree [] index = Ok []"
| "collect_siblings memtree (start # starts) index =
     (let siblingOffset = start + (index XOR 1) * NodeSize
      in obind (slice_expr siblingOffset (siblingOffset + NodeSize) memtree) (\<lambda>sibling.
         obind (collect_siblings memtree starts (index sdiv 2)) (\<lambda>rest. Ok (sibling # rest))))"

definition MemtreeProof :: "byte list \<Rightarrow> int \<Rightarrow> RawMerkleProof outcome option" where
  "MemtreeProof memtree leafIndex =
     (let totalNodes = int (length memtree) sdiv NodeSize;
          nLeaves = (totalNodes + 1) sdiv 2
      in case count_levels nLeaves [] 0 of
           None \<Rightarrow> None
         | Some (levelSizes, totalNodesCheck) \<Rightarrow> Some
             (if totalNodesCheck \<noteq> totalNodes
              then Err (ErrNew ''invalid memtree size; reconstructed total nodes do not match'')
              else
                let levelStarts = level_offsets 0 levelSizes in
                if leafIndex < 0 \<or> hd levelSizes \<le> leafIndex
                then Err (ErrNew (''invalid leaf index '' @ format_int leafIndex @ '' for '' @
                       format_int (hd levelSizes) @ '' leaves''))
                else
                  let leafOffset = hd levelStarts + leafIndex * NodeSize;
                      rootOffset = last levelStarts
                  in obind (slice_expr leafOffset (leafOffset + NodeSize) memtree) (\<lambda>leaf.
                     obind (collect_siblings memtree (butlast levelStarts) leafIndex) (\<lambda>proof_nodes.
                     obind (slice_expr rootOffset (rootOffset + NodeSize) memtree) (\<lambda>root.
                     Ok \<lparr>mp_Leaf = leaf, mp_Proof = proof_nodes, mp_Root = root\<rparr>)))))"

fun verify_loop :: "prims \<Rightarrow> int \<Rightarrow> byte list \<Rightarrow> byte list list \<Rightarrow> byte list" where
  "verify_loop P index currentHash [] = currentHash"
| "verify_loop P index currentHash (sibling # rest) =
     verify_loop P (index sdiv 2)
       (if index smod 2 = 0 then hash P (currentHash @ sibling) else hash P (sibling @ currentHash)) rest"

definition VerifyMerkleProof :: "prims \<Rightarrow> RawMerkleProof \<Rightarrow> int \<Rightarrow> bool" where
  "VerifyMerkleProof P pf leafIndex = (verify_loop P leafIndex (mp_Leaf pf) (mp_Proof pf) = mp_Root pf)"

section \<open>Padding reader\<close>

text \<open>
  A reader is called with the length of the buffer and returns the bytes it put at its front.
  \<open>Read\<close> of \<open>PaddedReader\<close> returns the bytes it put into \<open>p\<close>.
\<close>

type_synonym 'r reader = "nat \<Rightarrow> 'r \<Rightarrow> (byte list \<times> go_error option) \<times> 'r"

record 'r PaddedReader =
  pr_r :: 'r
  pr_total :: int
  pr_read :: int

definition NewPaddedReader :: "'r \<Rightarrow> int \<Rightarrow> 'r PaddedReader" where
  "NewPaddedReader r total_size = \<lparr>pr_r = r, pr_total = total_size, pr_read = 0\<rparr>"

definition PaddedReader_Read ::
  "'r reader \<Rightarrow> nat \<Rightarrow> 'r PaddedReader \<Rightarrow> (byte list \<times> go_error option) \<times> 'r PaddedReader" where
  "PaddedReader_Read rd plen reader =
     (if pr_total reader \<le> pr_read reader then (([], Some EOF), reader)
      else
        let remaining = pr_total reader - pr_read reader;
            len = (if remaining < int plen then nat remaining else plen)
        in case rd len (pr_r reader) of
             ((bytes, err), r') \<Rightarrow>
               (let reader1 = reader\<lparr>pr_r := r', pr_read := pr_read reader + int (length bytes)\<rparr> in
                case err of
                  Some e \<Rightarrow>
                    if err_is e EOF then
                      (let padding = len - length bytes in
                       ((bytes @ replicate padding 0, None),
                        reader1\<lparr>pr_read := pr_read reader1 + int padding\<rparr>))
                    else ((bytes, err), reader1)
                | None \<Rightarrow> ((bytes, None), reader1)))"

section \<open>The tree as lists of nodes\<close>

definition next_level :: "prims \<Rightarrow> byte list list \<Rightarrow> byte list list" where
  "next_level P L = map (\<lambda>i. hash P (L ! (2 * i) @ L ! (2 * i + 1))) [0..<length L div 2]"

text \<open>The levels of the tree above \<open>2 ^ k\<close> leaves, the leaves first, and its root.\<close>

fun levels_of :: "prims \<Rightarrow> nat \<Rightarrow> byte list list \<Rightarrow> byte list list list" where
  "levels_of P 0 L = [L]"
| "levels_of P (Suc k) L = L # levels_of P k (next_level P L)"

fun merkle_root :: "prims \<Rightarrow> nat \<Rightarrow> byte list list \<Rightarrow> byte list" where
  "merkle_root P 0 L = L ! 0"
| "merkle_root P (Suc k) L = merkle_root P k (next_level P L)"

fun siblings :: "prims \<Rightarrow> nat \<Rightarrow> byte list list \<Rightarrow> nat \<Rightarrow> byte list list" where
  "siblings P 0 L i = []"
| "siblings P (Suc k) L i = L ! (i XOR 1) # siblings P k (next_level P L) (i div 2)"

definition nodes :: "nat \<Rightarrow> byte list list \<Rightarrow> bool" where
  "nodes n L \<longleftrightarrow> length L = n \<and> (\<forall>x \<in> set L. length x = 32)"

lemma nodes_next_level: "nodes (2 * n) L \<Longrightarrow> nodes n (next_level P L)"
  by (auto simp: nodes_def next_level_def)

lemma length_levels_of [simp]: "length (levels_of P k L) = Suc k"
  by (induction k arbitrary: L) auto

lemma sibling_index [simp]: "2 * b XOR Suc 0 = Suc (2 * b)" "Suc (2 * b) XOR Suc 0 = 2 * b"
  by (simp_all add: xor_Suc_0_eq)

lemma sibling_less: "i < 2 * n \<Longrightarrow> i XOR 1 < 2 * (n :: nat)"
  by (cases "even i") (auto elim!: evenE oddE)

section \<open>Verification\<close>

lemma parent_node:
  assumes "nodes (2 * n) L" and "i < 2 * n"
  shows "next_level P L ! (i div 2) =
    (if i mod 2 = 0 then hash P (L ! i @ L ! (i XOR 1)) else hash P (L ! (i XOR 1) @ L ! i))"
proof -
  have "i div 2 < n" using assms(2) by simp
  then have e: "next_level P L ! (i div 2) = hash P (L ! (2 * (i div 2)) @ L ! (2 * (i div 2) + 1))"
    using assms(1) by (simp add: next_level_def nodes_def)
  show ?thesis
  proof (cases "even i")
    case True
    then obtain b where "i = 2 * b" ..
    then show ?thesis unfolding e by simp
  next
    case False
    then obtain b where "i = Suc (2 * b)" using oddE by fastforce
    then show ?thesis unfolding e by simp
  qed
qed

lemma verify_siblings:
  "nodes (2 ^ k) L \<Longrightarrow> i < 2 ^ k \<Longrightarrow> verify_loop P (int i) (L ! i) (siblings P k L i) = merkle_root P k L"
proof (induction k arbitrary: L i)
  case 0
  then show ?case by simp
next
  case (Suc k)
  have L: "nodes (2 * 2 ^ k) L" and i: "i < 2 * 2 ^ k" using Suc.prems by simp_all
  have "int i sdiv 2 = int (i div 2)" "(int i smod 2 = 0) = (i mod 2 = 0)"
    by (simp_all add: go_arith zdiv_int) presburger
  then have "verify_loop P (int i) (L ! i) (siblings P (Suc k) L i) =
      verify_loop P (int (i div 2)) (next_level P L ! (i div 2)) (siblings P k (next_level P L) (i div 2))"
    using parent_node [OF L i] by simp
  also have "\<dots> = merkle_root P k (next_level P L)"
    using Suc.IH [OF nodes_next_level [OF L]] i by simp
  finally show ?case by simp
qed

text \<open>
  The pairs of nodes that are hashed, in building the tree over \<open>L\<close> and in verifying a proof, and a
  collision between them: a pair of the proof and another pair of the tree with the same digest.
\<close>

definition level_inputs :: "byte list list \<Rightarrow> byte list list" where
  "level_inputs L = map (\<lambda>i. L ! (2 * i) @ L ! (2 * i + 1)) [0..<length L div 2]"

fun tree_inputs :: "prims \<Rightarrow> nat \<Rightarrow> byte list list \<Rightarrow> byte list list" where
  "tree_inputs P 0 L = []"
| "tree_inputs P (Suc k) L = level_inputs L @ tree_inputs P k (next_level P L)"

fun proof_inputs :: "prims \<Rightarrow> nat \<Rightarrow> byte list \<Rightarrow> byte list list \<Rightarrow> byte list list" where
  "proof_inputs P i h [] = []"
| "proof_inputs P i h (s # ps) =
     (let x = (if i mod 2 = 0 then h @ s else s @ h) in x # proof_inputs P (i div 2) (hash P x) ps)"

definition proof_collision :: "prims \<Rightarrow> nat \<Rightarrow> byte list list \<Rightarrow> nat \<Rightarrow> byte list \<Rightarrow> byte list list \<Rightarrow> bool" where
  "proof_collision P k L i leaf ps \<longleftrightarrow>
     (\<exists>a \<in> set (proof_inputs P i leaf ps). \<exists>b \<in> set (tree_inputs P k L). a \<noteq> b \<and> hash P a = hash P b)"

lemma verify_sound:
  assumes "nodes (2 ^ k) L" and "i < 2 ^ k" and "length ps = k" and "\<forall>x \<in> set ps. length x = 32"
    and "length leaf = 32" and "verify_loop P (int i) leaf ps = merkle_root P k L" and "leaf \<noteq> L ! i"
  shows "proof_collision P k L i leaf ps"
  using assms
proof (induction k arbitrary: L i ps leaf)
  case 0
  then show ?case by simp
next
  case (Suc k)
  obtain s rest where ps: "ps = s # rest" "length s = 32" using Suc.prems(3,4) by (cases ps) auto
  have L: "nodes (2 * 2 ^ k) L" and i: "i < 2 * 2 ^ k" using Suc.prems by simp_all
  have s2: "int i sdiv 2 = int (i div 2)" "(int i smod 2 = 0) = (i mod 2 = 0)"
    by (simp_all add: go_arith zdiv_int) presburger
  define h where "h = (if i mod 2 = 0 then leaf @ s else s @ leaf)"
  define h' where "h' = (if i mod 2 = 0 then L ! i @ L ! (i XOR 1) else L ! (i XOR 1) @ L ! i)"
  have par: "next_level P L ! (i div 2) = hash P h'"
    using parent_node [OF L i] by (simp add: h'_def)
  have "h' = L ! (2 * (i div 2)) @ L ! (2 * (i div 2) + 1)"
  proof (cases "even i")
    case True
    then obtain b where "i = 2 * b" ..
    then show ?thesis by (simp add: h'_def)
  next
    case False
    then obtain b where "i = Suc (2 * b)" using oddE by fastforce
    then show ?thesis by (simp add: h'_def)
  qed
  then have tree: "h' \<in> set (tree_inputs P (Suc k) L)"
    using i L by (auto simp: level_inputs_def nodes_def)
  have len: "length (L ! i) = 32" "length (L ! (i XOR 1)) = 32"
    using L i sibling_less [OF i] by (auto simp: nodes_def)
  have "leaf @ s \<noteq> L ! i @ L ! (i XOR 1)" "s @ leaf \<noteq> L ! (i XOR 1) @ L ! i"
    using Suc.prems(5,7) ps(2) len by auto
  then have ne: "h \<noteq> h'" by (simp add: h_def h'_def)
  show ?case
  proof (cases "hash P h = hash P h'")
    case True
    moreover have "h \<in> set (proof_inputs P i leaf ps)" by (simp add: ps h_def Let_def)
    ultimately show ?thesis using ne tree unfolding proof_collision_def by blast
  next
    case False
    have "verify_loop P (int (i div 2)) (hash P h) rest = merkle_root P k (next_level P L)"
      using Suc.prems(6) unfolding ps h_def by (cases "i mod 2 = 0") (simp_all add: s2)
    then have "proof_collision P k (next_level P L) (i div 2) (hash P h) rest"
      using Suc.IH [OF nodes_next_level [OF L], of "i div 2" rest "hash P h"] i Suc.prems(3,4) ps par False
      by simp
    moreover have "set (proof_inputs P (i div 2) (hash P h) rest) \<subseteq> set (proof_inputs P i leaf ps)"
      by (auto simp: ps h_def Let_def)
    moreover have "set (tree_inputs P k (next_level P L)) \<subseteq> set (tree_inputs P (Suc k) L)" by simp
    ultimately show ?thesis unfolding proof_collision_def by blast
  qed
qed

section \<open>Nodes in a buffer\<close>

lemma take_concat_nodes: "nodes n Ns \<Longrightarrow> i \<le> n \<Longrightarrow> take (32 * i) (concat Ns) = concat (take i Ns)"
proof (induction i arbitrary: n Ns)
  case 0
  then show ?case by simp
next
  case (Suc i)
  then obtain x xs where "Ns = x # xs" "length x = 32" "nodes (n - 1) xs" by (cases Ns) (auto simp: nodes_def)
  with Suc show ?case by simp
qed

lemma drop_concat_nodes: "nodes n Ns \<Longrightarrow> i \<le> n \<Longrightarrow> drop (32 * i) (concat Ns) = concat (drop i Ns)"
proof (induction i arbitrary: n Ns)
  case 0
  then show ?case by simp
next
  case (Suc i)
  then obtain x xs where "Ns = x # xs" "length x = 32" "nodes (n - 1) xs" by (cases Ns) (auto simp: nodes_def)
  with Suc show ?case by simp
qed

lemma length_concat_nodes: "nodes n Ns \<Longrightarrow> length (concat Ns) = 32 * n"
  using drop_concat_nodes [of n Ns n] by (auto simp: nodes_def length_concat sum_list_triv
      map_replicate_trivial cong: map_cong) 

lemma nodes_append: "nodes m A \<Longrightarrow> nodes n B \<Longrightarrow> nodes (m + n) (A @ B)"
  by (auto simp: nodes_def)

lemma nodes_take: "nodes n Ns \<Longrightarrow> i \<le> n \<Longrightarrow> nodes i (take i Ns)"
  by (auto simp: nodes_def dest: in_set_takeD)

lemma nodes_drop: "nodes n Ns \<Longrightarrow> nodes (n - i) (drop i Ns)"
  by (auto simp: nodes_def dest: in_set_dropD)

lemma nodes_update: "nodes n Ns \<Longrightarrow> length h = 32 \<Longrightarrow> nodes n (Ns[i := h])"
  by (auto simp: nodes_def dest!: set_update_subset_insert [THEN subsetD])

lemma slice_nodes:
  assumes "nodes n Ns" and "i + m \<le> n" and "lo = 32 * int i" and "hi = 32 * int (i + m)"
  shows "slice_expr lo hi (concat Ns) = Ok (concat (take m (drop i Ns)))"
proof -
  have e: "lo = int (32 * i)" "hi = int (32 * (i + m))" using assms(3,4) by simp_all
  have "slice_expr lo hi (concat Ns) = Ok (window (32 * i) (32 * (i + m) - 32 * i) (concat Ns))"
    unfolding e using assms(2) length_concat_nodes [OF assms(1)] by (intro slice_expr_Ok) auto
  also have "window (32 * i) (32 * (i + m) - 32 * i) (concat Ns) = take (32 * m) (concat (drop i Ns))"
    using drop_concat_nodes [OF assms(1), of i] assms(2) by (simp add: window_def)
  also have "\<dots> = concat (take m (drop i Ns))"
    using take_concat_nodes [OF nodes_drop [OF assms(1)], of m i] assms(2) by simp
  finally show ?thesis .
qed

lemma slice_node:
  assumes "nodes n Ns" and "i < n" and "lo = 32 * int i" and "hi = lo + 32"
  shows "slice_expr lo hi (concat Ns) = Ok (Ns ! i)"
proof -
  have len: "i < length Ns" using assms(1,2) by (simp add: nodes_def)
  have "slice_expr lo hi (concat Ns) = Ok (concat (take 1 (drop i Ns)))"
    using assms(2-) by (intro slice_nodes [OF assms(1)]) simp_all
  also have "take 1 (drop i Ns) = [Ns ! i]"
    using len by (simp add: take_Suc hd_drop_conv_nth)
  finally show ?thesis by simp
qed

lemma splice_node:
  assumes "nodes n Ns" and "i < n" and "length h = 32"
  shows "splice (32 * i) h (concat Ns) = concat (Ns[i := h])"
proof -
  have "splice (32 * i) h (concat Ns) = concat (take i Ns) @ h @ concat (drop (Suc i) Ns)"
    using assms take_concat_nodes [OF assms(1), of i] drop_concat_nodes [OF assms(1), of "Suc i"]
    by (simp add: splice_def add.commute)
  also have "\<dots> = concat (Ns[i := h])"
    using assms(1,2) by (simp add: upd_conv_take_nth_drop nodes_def)
  finally show ?thesis .
qed

section \<open>The loops build the levels\<close>

definition parents :: "prims \<Rightarrow> byte list list \<Rightarrow> nat \<Rightarrow> nat \<Rightarrow> nat \<Rightarrow> byte list list" where
  "parents P Ns a i r = map (\<lambda>j. hash P (Ns ! (a + 2 * j) @ Ns ! (a + 2 * j + 1))) [i..<i + r]"

lemma build_nodes_step:
  assumes "nodes n Ns" and "a + 2 * Suc i \<le> b" and "b + i < n"
  shows "build_nodes P (32 * int a) (32 * int b) (Suc r) (int i) (concat Ns) =
    build_nodes P (32 * int a) (32 * int b) r (int (Suc i))
      (concat (Ns[b + i := hash P (Ns ! (a + 2 * i) @ Ns ! (a + 2 * i + 1))]))"
proof -
  have pair: "take 2 (drop (a + 2 * i) Ns) = [Ns ! (a + 2 * i), Ns ! (a + 2 * i + 1)]"
    using assms by (auto simp: nodes_def take_Suc numeral_2_eq_2 hd_drop_conv_nth tl_drop drop_Suc [symmetric])
  have "slice_expr (32 * int a + 2 * int i * 32) (32 * int a + 2 * int i * 32 + 64) (concat Ns) =
      Ok (concat (take 2 (drop (a + 2 * i) Ns)))"
    using assms(2,3) by (intro slice_nodes [OF assms(1)]) simp_all
  then have s1: "slice_expr (32 * int a + 2 * int i * 32) (32 * int a + 2 * int i * 32 + 64) (concat Ns) =
      Ok (Ns ! (a + 2 * i) @ Ns ! (a + 2 * i + 1))"
    unfolding pair by simp
  have s2: "slice_expr (32 * int b + int i * 32) (32 * int b + int i * 32 + 32) (concat Ns) = Ok (Ns ! (b + i))"
    using assms by (intro slice_node) auto
  have "nat (32 * int b + int i * 32) = 32 * (b + i)" by simp
  then show ?thesis
    using s1 s2 splice_node [OF assms(1,3)] by (simp add: NodeSize_def add.commute)
qed

lemma build_nodes_eq:
  assumes "nodes n Ns" and "a + 2 * (i + r) \<le> b" and "b + (i + r) \<le> n"
  shows "build_nodes P (32 * int a) (32 * int b) r (int i) (concat Ns) =
    Ok (concat (take (b + i) Ns @ parents P Ns a i r @ drop (b + i + r) Ns))"
  using assms
proof (induction r arbitrary: i Ns)
  case 0
  then show ?case by (simp add: parents_def flip: concat_append)
next
  case (Suc r)
  let ?h = "hash P (Ns ! (a + 2 * i) @ Ns ! (a + 2 * i + 1))"
  let ?Ns = "Ns[b + i := ?h]"
  have n: "length Ns = n" "b + i < n" using Suc.prems by (simp_all add: nodes_def)
  have "build_nodes P (32 * int a) (32 * int b) (Suc r) (int i) (concat Ns) =
      build_nodes P (32 * int a) (32 * int b) r (int (Suc i)) (concat ?Ns)"
    using Suc.prems by (intro build_nodes_step) auto
  also have "\<dots> = Ok (concat (take (b + Suc i) ?Ns @ parents P ?Ns a (Suc i) r @ drop (b + Suc i + r) ?Ns))"
    using Suc.prems by (intro Suc.IH nodes_update) auto
  also have "take (b + Suc i) ?Ns = take (b + i) Ns @ [?h]"
    using n by (simp add: take_Suc_conv_app_nth)
  also have "drop (b + Suc i + r) ?Ns = drop (b + i + Suc r) Ns" by simp
  also have "parents P ?Ns a (Suc i) r = parents P Ns a (Suc i) r"
    using Suc.prems by (auto simp: parents_def)
  also have "(take (b + i) Ns @ [?h]) @ parents P Ns a (Suc i) r @ drop (b + i + Suc r) Ns =
      take (b + i) Ns @ parents P Ns a i (Suc r) @ drop (b + i + Suc r) Ns"
    by (simp add: parents_def upt_rec [of i])
  finally show ?case .
qed

text \<open>The sizes of the levels above \<open>2 ^ k\<close> leaves.\<close>

fun pow_sizes :: "nat \<Rightarrow> int list" where
  "pow_sizes 0 = [1]"
| "pow_sizes (Suc k) = 2 ^ Suc k # pow_sizes k"

definition level_table :: "nat \<Rightarrow> nat \<Rightarrow> (int \<times> int) list" where
  "level_table k a = zip (level_offsets (32 * int a) (pow_sizes k)) (pow_sizes k)"

lemma level_table_simps:
  "level_table 0 a = [(32 * int a, 1)]"
  "level_table (Suc k) a = (32 * int a, 2 ^ Suc k) # level_table k (a + 2 ^ Suc k)"
  by (simp_all add: level_table_def NodeSize_def algebra_simps)

lemma level_table_Cons: "level_table k a = (32 * int a, 2 ^ k) # tl (level_table k a)"
  by (cases k) (simp_all add: level_table_simps)

lemma nodes_levels: "nodes (2 ^ k) L \<Longrightarrow> nodes (2 ^ Suc k - 1) (concat (levels_of P k L))"
proof (induction k arbitrary: L)
  case 0
  then show ?case by simp
next
  case (Suc k)
  have "nodes (2 ^ Suc k - 1) (concat (levels_of P k (next_level P L)))"
    using Suc nodes_next_level [of "2 ^ k" L P] by simp
  from nodes_append [OF Suc.prems this] show ?case by (simp add: mult_2 [symmetric])
qed

lemma build_levels_eq:
  assumes "nodes a pre" and "nodes (2 ^ k) L" and "nodes (2 ^ k - 1) rest"
  shows "build_levels P (32 * int a, 2 ^ k) (tl (level_table k a)) (concat (pre @ L @ rest)) =
    Ok (concat (pre @ concat (levels_of P k L)))"
  using assms
proof (induction k arbitrary: a pre L rest)
  case 0
  then show ?case by (simp add: level_table_simps nodes_def)
next
  case (Suc k)
  let ?a = "a + 2 ^ Suc k"
  have L: "nodes (2 * 2 ^ k) L" using Suc.prems(2) by simp
  have all: "nodes (a + (2 ^ Suc k + (2 ^ Suc k - 1))) (pre @ L @ rest)"
    using Suc.prems by (intro nodes_append)
  have bn: "build_nodes P (32 * int a) (32 * int ?a) (2 ^ k) (int 0) (concat (pre @ L @ rest)) =
      Ok (concat (take (?a + 0) (pre @ L @ rest) @ parents P (pre @ L @ rest) a 0 (2 ^ k) @
            drop (?a + 0 + 2 ^ k) (pre @ L @ rest)))"
  proof (intro build_nodes_eq [OF all])
    show "a + 2 * (0 + 2 ^ k) \<le> ?a" by simp
    have "(1 :: nat) \<le> 2 ^ k" by simp
    then show "?a + (0 + 2 ^ k) \<le> a + (2 ^ Suc k + (2 ^ Suc k - 1))" unfolding power_Suc by linarith
  qed
  have len: "length pre = a" "length L = 2 ^ Suc k" using Suc.prems by (simp_all add: nodes_def)
  have "parents P (pre @ L @ rest) a 0 (2 ^ k) = next_level P L"
    using len by (auto simp: parents_def next_level_def nth_append intro!: map_cong)
  with bn len have bn': "build_nodes P (32 * int a) (32 * int ?a) (2 ^ k) 0 (concat (pre @ L @ rest)) =
      Ok (concat ((pre @ L) @ next_level P L @ drop (2 ^ k) rest))"
    by simp
  have "build_levels P (32 * int ?a, 2 ^ k) (tl (level_table k ?a)) (concat ((pre @ L) @ next_level P L @ drop (2 ^ k) rest)) =
      Ok (concat ((pre @ L) @ concat (levels_of P k (next_level P L))))"
  proof (rule Suc.IH)
    show "nodes ?a (pre @ L)" using nodes_append [OF Suc.prems(1,2)] .
    show "nodes (2 ^ k) (next_level P L)" using nodes_next_level [OF L] .
    show "nodes (2 ^ k - 1) (drop (2 ^ k) rest)"
      using nodes_drop [OF Suc.prems(3), of "2 ^ k"] by (simp add: mult_2)
  qed
  moreover have "tl (level_table (Suc k) a) = (32 * int ?a, 2 ^ k) # tl (level_table k ?a)"
    by (subst level_table_Cons [of k ?a, symmetric]) (simp add: level_table_simps)
  ultimately show ?case using bn' by (simp add: nat_power_eq)
qed

section \<open>The level sizes\<close>

lemma half_power: "(2 ^ Suc k + 2 - 1) sdiv 2 = (2 :: int) ^ k"
proof -
  have "(2 ^ Suc k + 2 - 1) sdiv 2 = (1 + 2 * 2 ^ k) div (2 :: int)" by (simp add: go_arith add.commute)
  then show ?thesis by simp
qed

lemma level_counts_power:
  "level_counts 2 (2 ^ k) tot cs = Some (tot + 2 ^ Suc k - 1, cs @ pow_sizes k)"
proof (induction k arbitrary: tot cs)
  case 0
  show ?case by (subst level_counts.simps) simp
next
  case (Suc k)
  have "(2 :: int) ^ Suc k \<noteq> 1" using one_less_power [of "2 :: int" "Suc k"] by linarith
  then have "level_counts 2 (2 ^ Suc k) tot cs = level_counts 2 (2 ^ k) (tot + 2 ^ Suc k) (cs @ [2 ^ Suc k])"
    by (subst level_counts.simps) (simp only: half_power Let_def zero_less_power zero_less_numeral if_True if_False)
  then show ?case using Suc by simp
qed

lemma count_levels_power:
  "count_levels (2 ^ k) cs tot = Some (cs @ pow_sizes k, tot + 2 ^ Suc k - 1)"
proof (induction k arbitrary: tot cs)
  case 0
  show ?case by (subst count_levels.simps) simp
next
  case (Suc k)
  have "(2 :: int) ^ Suc k \<noteq> 1" using one_less_power [of "2 :: int" "Suc k"] by linarith
  then have "count_levels (2 ^ Suc k) cs tot = count_levels (2 ^ k) (cs @ [2 ^ Suc k]) (tot + 2 ^ Suc k)"
    by (subst count_levels.simps) (simp only: half_power Let_def if_False)
  then show ?case using Suc by simp
qed

text \<open>From zero nodes the reconstruction of the level sizes never reaches a level of one node.\<close>

lemma count_levels_result:
  assumes "count_levels c cs tot = Some r"
  shows "c \<noteq> 0"
proof (rule count_levels.raw_induct [where P = "\<lambda>c _ _ _. c \<noteq> 0", OF _ assms])
  fix f and c tot :: int and cs r
  assume ih: "\<And>c cs tot r. f c cs tot = Some r \<Longrightarrow> c \<noteq> (0 :: int)"
    and step: "(let sizes = cs @ [c]; check = tot + c in
      if c = 1 then Some (sizes, check) else f ((c + 2 - 1) sdiv 2) sizes check) = Some r"
  show "c \<noteq> 0"
  proof
    assume "c = 0"
    then have "f 0 (cs @ [0]) tot = Some r" using step by (simp add: go_arith)
    from ih [OF this] show False by simp
  qed
qed

lemma count_levels_returns: "0 < c \<Longrightarrow> \<exists>cs' t'. count_levels c cs tot = Some (cs @ c # cs', t')"
proof (induction "nat c" arbitrary: c cs tot rule: less_induct)
  case less
  show ?case
  proof (cases "c = 1")
    case True
    then show ?thesis by (subst count_levels.simps) simp
  next
    case False
    let ?c = "(c + 2 - 1) sdiv 2"
    have e: "?c = (c + 1) div 2" using less.prems by (simp add: go_arith)
    have c: "0 < ?c" "?c < c" unfolding e using False less.prems by auto
    obtain cs' t' where "count_levels ?c (cs @ [c]) (tot + c) = Some ((cs @ [c]) @ ?c # cs', t')"
      using less.hyps [of ?c "cs @ [c]" "tot + c"] c by auto
    then show ?thesis using False by (subst count_levels.simps) (simp add: Let_def)
  qed
qed

section \<open>Proofs from a tree\<close>

lemma tree_node:
  assumes "nodes a pre" and "nodes n Ns" and "i < n" and "lo = 32 * int (a + i)" and "hi = lo + 32"
  shows "slice_expr lo hi (concat (pre @ Ns)) = Ok (Ns ! i)"
proof -
  have "slice_expr lo hi (concat (pre @ Ns)) = Ok ((pre @ Ns) ! (a + i))"
    using assms by (intro slice_node [OF nodes_append [OF assms(1,2)]]) simp_all
  then show ?thesis using assms(1) by (simp add: nodes_def nth_append)
qed

lemma level_offsets_Cons: "level_offsets (32 * int a) (pow_sizes (Suc k)) =
    32 * int a # level_offsets (32 * int (a + 2 ^ Suc k)) (pow_sizes k)"
  by (simp add: NodeSize_def algebra_simps)

lemma level_offsets_nonempty [simp]: "level_offsets s (pow_sizes k) \<noteq> []"
  by (cases k) simp_all

lemma int_xor_1: "int i XOR 1 = int (i XOR 1)"
  by (metis of_nat_1 of_nat_xor_eq)

lemma collect_siblings_tree:
  assumes "nodes a pre" and "nodes (2 ^ k) L" and "i < 2 ^ k"
  shows "collect_siblings (concat (pre @ concat (levels_of P k L)))
      (butlast (level_offsets (32 * int a) (pow_sizes k))) (int i) = Ok (siblings P k L i)"
  using assms
proof (induction k arbitrary: a pre L i)
  case 0
  then show ?case by simp
next
  case (Suc k)
  let ?tree = "concat (pre @ concat (levels_of P (Suc k) L))"
  have L: "nodes (2 * 2 ^ k) L" and i: "i < 2 * 2 ^ k" using Suc.prems by simp_all
  have split: "?tree = concat ((pre @ L) @ concat (levels_of P k (next_level P L)))" by simp
  have sib: "slice_expr (32 * int a + (int i XOR 1) * 32) (32 * int a + (int i XOR 1) * 32 + 32) ?tree =
      Ok (concat (levels_of P (Suc k) L) ! (i XOR 1))"
  proof (rule tree_node [OF Suc.prems(1) nodes_levels [OF Suc.prems(2)]])
    have "(1 :: nat) \<le> 2 ^ k" by simp
    then show "i XOR 1 < 2 ^ Suc (Suc k) - 1" using sibling_less [OF i] unfolding power_Suc by linarith
  qed (simp_all only: int_xor_1, simp_all)
  have "concat (levels_of P (Suc k) L) ! (i XOR 1) = L ! (i XOR 1)"
    using sibling_less [OF i] L by (simp add: nodes_def nth_append)
  moreover have "collect_siblings ?tree (butlast (level_offsets (32 * int (a + 2 ^ Suc k)) (pow_sizes k))) (int (i div 2))
      = Ok (siblings P k (next_level P L) (i div 2))"
    unfolding split
    using i by (intro Suc.IH nodes_append [OF Suc.prems(1,2)] nodes_next_level [OF L]) simp
  moreover have "int i sdiv 2 = int (i div 2)" by (simp add: go_arith zdiv_int)
  moreover have "butlast (level_offsets (32 * int a) (pow_sizes (Suc k))) =
      32 * int a # butlast (level_offsets (32 * int (a + 2 ^ Suc k)) (pow_sizes k))"
    by (simp only: level_offsets_Cons butlast.simps level_offsets_nonempty if_False)
  ultimately show ?case
    by (simp only: collect_siblings.simps Let_def NodeSize_def sib obind.simps siblings.simps)
qed

lemma root_of_tree:
  assumes "nodes a pre" and "nodes (2 ^ k) L"
    and "lo = last (level_offsets (32 * int a) (pow_sizes k))"
  shows "slice_expr lo (lo + 32) (concat (pre @ concat (levels_of P k L))) = Ok (merkle_root P k L)"
  using assms
proof (induction k arbitrary: a pre L)
  case 0
  then show ?case using tree_node [of a pre 1 L 0 lo "lo + 32"] by simp
next
  case (Suc k)
  have L: "nodes (2 * 2 ^ k) L" using Suc.prems by simp
  have "slice_expr lo (lo + 32) (concat ((pre @ L) @ concat (levels_of P k (next_level P L)))) =
      Ok (merkle_root P k (next_level P L))"
    using Suc.prems(3)
    by (intro Suc.IH [OF nodes_append [OF Suc.prems(1,2)] nodes_next_level [OF L]])
      (simp only: level_offsets_Cons last.simps level_offsets_nonempty if_False)
  then show ?case by simp
qed

lemma MemtreeProof_tree:
  assumes "nodes (2 ^ k) L" and "i < 2 ^ k"
  shows "MemtreeProof (concat (concat (levels_of P k L))) (int i) =
    Some (Ok \<lparr>mp_Leaf = L ! i, mp_Proof = siblings P k L i, mp_Root = merkle_root P k L\<rparr>)"
proof -
  let ?tree = "concat (concat (levels_of P k L))"
  have len: "length ?tree = 32 * (2 ^ Suc k - 1)"
    using length_concat_nodes [OF nodes_levels [OF assms(1)]] .
  have one: "(1 :: nat) \<le> 2 ^ Suc k" by simp
  have total: "int (length ?tree) sdiv NodeSize = 2 ^ Suc k - 1"
  proof -
    have "int (32 * m) sdiv 32 = int m" for m by (simp add: go_arith)
    then show ?thesis unfolding len NodeSize_def by (simp only:) (simp add: of_nat_diff)
  qed
  have leaves: "(2 ^ Suc k - 1 + 1) sdiv 2 = (2 :: int) ^ k" by (simp add: go_arith)
  have none: "nodes 0 ([] :: byte list list)" by (simp add: nodes_def)
  let ?offs = "level_offsets (32 * int 0) (pow_sizes k)"
  have hd: "hd (pow_sizes k) = 2 ^ k" "hd ?offs = 0" by (cases k; simp)+
  have sibs: "collect_siblings ?tree (butlast ?offs) (int i) = Ok (siblings P k L i)"
    using collect_siblings_tree [OF none assms] by simp
  have root: "slice_expr (last ?offs) (last ?offs + 32) ?tree = Ok (merkle_root P k L)"
    using root_of_tree [OF none assms(1) refl] by simp
  have node: "concat (levels_of P k L) ! i = L ! i"
    using assms by (cases k) (auto simp: nodes_def nth_append)
  have less: "i < 2 ^ Suc k - 1" using assms(2) by simp
  have leaf: "slice_expr (int i * 32) (int i * 32 + 32) ?tree = Ok (L ! i)"
    using tree_node [OF none nodes_levels [OF assms(1), of P] less refl refl] node by (simp add: mult.commute)
  have "int i < 2 ^ k" using assms(2) by (metis of_nat_less_iff of_nat_numeral of_nat_power)
  then have bound: "\<not> (int i < 0 \<or> hd (pow_sizes k) \<le> int i)" using hd by simp
  show ?thesis
    unfolding MemtreeProof_def Let_def total leaves count_levels_power option.case prod.case append_Nil
      if_not_P [OF bound]
    using sibs root leaf hd by (simp add: NodeSize_def)
qed

section \<open>The tree of a piece\<close>

lemma nodes_chunks: "length xs = 32 * n \<Longrightarrow> nodes n (chunks 32 xs)"
proof -
  assume len: "length xs = 32 * n"
  have "length y = 32" if y: "y \<in> set (chunks 32 xs)" for y
  proof -
    obtain i where i: "i < length (chunks 32 xs)" "y = chunks 32 xs ! i" using y by (auto simp: in_set_conv_nth)
    then have "i < n" using len by (simp add: len_simps)
    then show ?thesis using chunks_nth [of 32 i xs] len i by (simp add: window_def)
  qed
  then show ?thesis using len by (simp add: nodes_def len_simps)
qed

lemma BuildSha254Memtree_eq:
  assumes "Padded (int n) = 32 * 2 ^ k" and "32 * 2 ^ k \<le> MaxMemtreeSize"
    and "n \<le> length rawIn" and "length (fr32_Pad (take n rawIn)) = 32 * 2 ^ k"
    and "\<forall>m. length (pool m) = m"
  shows "BuildSha254Memtree P Padded fr32_Pad pool rawIn (int n) =
    Some (Ok (concat (concat (levels_of P k (chunks 32 (fr32_Pad (take n rawIn)))))))"
proof -
  note pool = assms(5) [rule_format]
  let ?L = "chunks 32 (fr32_Pad (take n rawIn))"
  let ?T = "nat ((2 ^ Suc k - 1) * 32)"
  let ?buf = "splice 0 (fr32_Pad (take n rawIn)) (pool ?T)"
  have L: "nodes (2 ^ k) ?L" using nodes_chunks assms(4) by blast
  have T: "?T = 32 * (2 ^ Suc k - 1)" by (simp add: nat_mult_distrib nat_diff_distrib' nat_power_eq mult.commute del: power_Suc)
  have le: "32 * 2 ^ k \<le> ?T" unfolding T by simp
  have nl: "(32 * 2 ^ k) sdiv NodeSize = (2 :: int) ^ k" by (simp add: NodeSize_def go_arith)
  let ?rest = "chunks 32 (drop (32 * 2 ^ k) (pool ?T))"
  have rest: "nodes (2 ^ k - 1) ?rest"
  proof (intro nodes_chunks)
    have h: "32 * (2 * x - 1) - 32 * x = 32 * (x - 1)" for x :: nat by simp
    show "length (drop (32 * 2 ^ k) (pool ?T)) = 32 * (2 ^ k - 1)"
      unfolding length_drop pool T by (simp only: power_Suc h)
  qed
  have "?buf = fr32_Pad (take n rawIn) @ drop (32 * 2 ^ k) (pool ?T)"
    using assms(4) by (simp add: splice_def)
  then have buf: "?buf = concat ([] @ ?L @ ?rest)" by simp
  have none: "nodes 0 ([] :: byte list list)" by (simp add: nodes_def)
  have tab: "zip (level_offsets 0 (pow_sizes k)) (pow_sizes k) = (32 * int 0, 2 ^ k) # tl (level_table k 0)"
    using level_table_Cons [of k 0] by (simp add: level_table_def)
  have "slice_expr 0 (32 * 2 ^ k) (pool ?T) \<noteq> Panic \<and> (\<forall>e. slice_expr 0 (32 * 2 ^ k) (pool ?T) \<noteq> Err e)"
    using slice_expr_Ok [of 0 "32 * 2 ^ k" "pool ?T"] le pool by simp
  then obtain w where w: "slice_expr 0 (32 * 2 ^ k) (pool ?T) = Ok w"
    by (cases "slice_expr 0 (32 * 2 ^ k) (pool ?T)") auto
  have "\<not> MaxMemtreeSize < 32 * 2 ^ k" using assms(2) by simp
  then show ?thesis
    unfolding BuildSha254Memtree_def assms(1) io_ReadFull_def Let_def nat_int if_P [OF assms(3)]
      map_err.simps outcome.case nl [unfolded NodeSize_def] computeTotalNodes_def level_counts_power option.case prod.case
      append_Nil add_0 tab list.case NodeSize_def buf w obind.simps
    using build_levels_eq [OF none L rest, of P] by simp
qed

section \<open>Reading a padded piece\<close>

text \<open>A reader over bytes in memory (\<open>bytes.Reader\<close>).\<close>

definition bytes_reader :: "byte list reader" where
  "bytes_reader n content = ((take n content, if content = [] then Some EOF else None), drop n content)"

text \<open>Calls of \<open>Read\<close> with buffers of the given lengths; the bytes they returned, in order.\<close>

fun read_run :: "'r reader \<Rightarrow> nat list \<Rightarrow> 'r PaddedReader \<Rightarrow> byte list \<times> 'r PaddedReader" where
  "read_run rd [] r = ([], r)"
| "read_run rd (n # ns) r =
     (case PaddedReader_Read rd n r of ((bs, err), r') \<Rightarrow>
       (case read_run rd ns r' of (out, r'') \<Rightarrow> (bs @ out, r'')))"

definition padded_stream :: "nat \<Rightarrow> byte list \<Rightarrow> byte list" where
  "padded_stream n content = take n content @ replicate (n - length content) 0"

definition padded_inv :: "nat \<Rightarrow> byte list \<Rightarrow> byte list \<Rightarrow> byte list PaddedReader \<Rightarrow> bool" where
  "padded_inv n content out r \<longleftrightarrow>
     pr_total r = int n \<and> pr_read r = int (length out) \<and> length out \<le> n \<and>
     out = take (length out) (padded_stream n content) \<and> pr_r r = drop (length out) content"

lemma padded_inv_step:
  assumes "padded_inv n content out r" and "length out + length bs \<le> n"
    and "bs = take (length bs) (drop (length out) (padded_stream n content))"
    and "pr_total r' = pr_total r" and "pr_read r' = int (length out + length bs)"
    and "pr_r r' = drop (length out + length bs) content"
  shows "padded_inv n content (out @ bs) r'"
proof -
  have "out = take (length out) (padded_stream n content)" using assms(1) by (simp add: padded_inv_def)
  then have e: "out @ bs = take (length (out @ bs)) (padded_stream n content)"
    using assms(3) take_add [of "length out" "length bs" "padded_stream n content"] by simp
  show ?thesis
    unfolding padded_inv_def
  proof (intro conjI)
    show "out @ bs = take (length (out @ bs)) (padded_stream n content)" by (rule e)
  qed (use assms in \<open>simp_all add: padded_inv_def\<close>)
qed

lemma padded_Read:
  assumes "padded_inv n content out r" and "PaddedReader_Read bytes_reader m r = ((bs, err), r')"
  shows "padded_inv n content (out @ bs) r' \<and> err = (if length out = n then Some EOF else None) \<and>
    (0 < m \<longrightarrow> length out < n \<longrightarrow> bs \<noteq> [])"
proof -
  let ?o = "length out"
  define l where "l = min m (n - ?o)"
  have l: "(if int n - int ?o < int m then nat (int n - int ?o) else m) = l"
    using assms(1) by (auto simp: l_def padded_inv_def nat_diff_distrib')
  have inv: "pr_total r = int n" "pr_read r = int ?o" "?o \<le> n" "pr_r r = drop ?o content"
    using assms(1) by (simp_all add: padded_inv_def)
  consider "?o = n" | "?o < n" "length content \<le> ?o" | "?o < n" "?o < length content"
    using inv(3) by linarith
  then show ?thesis
  proof cases
    case 1
    then show ?thesis using assms inv by (auto simp: PaddedReader_Read_def)
  next
    case 2
    then have e: "bs = replicate l 0" "err = None" "r' = r\<lparr>pr_r := [], pr_read := int ?o + int l\<rparr>"
      using assms(2) inv l by (auto simp: PaddedReader_Read_def bytes_reader_def Let_def EOF_def)
    have "padded_inv n content (out @ bs) r'"
      using 2 by (intro padded_inv_step [OF assms(1)]) (auto simp: e padded_stream_def l_def min_def)
    then show ?thesis using e 2 by (auto simp: l_def)
  next
    case 3
    let ?b = "take l (drop ?o content)"
    have e: "bs = ?b" "err = None" "r' = r\<lparr>pr_r := drop l (drop ?o content), pr_read := int ?o + int (length ?b)\<rparr>"
      using assms(2) inv l 3 by (auto simp: PaddedReader_Read_def bytes_reader_def Let_def)
    have "l \<le> n - ?o" by (simp add: l_def)
    moreover from this have "?o + length ?b \<le> n" using 3(1) by simp
    ultimately have lb: "?o + length ?b \<le> n" "l \<le> n - ?o" by blast+
    have "padded_inv n content (out @ bs) r'"
    proof (rule padded_inv_step [OF assms(1)])
      show "?o + length bs \<le> n" using e lb by simp
      show "bs = take (length bs) (drop ?o (padded_stream n content))"
        using 3 lb(2) by (auto simp: e padded_stream_def take_drop min_def)
      show "pr_r r' = drop (?o + length bs) content" by (auto simp: e min_def add.commute)
    qed (simp_all add: e)
    then show ?thesis using e 3 by (auto simp: l_def)
  qed
qed

lemma read_run_inv:
  "padded_inv n content out r \<Longrightarrow> read_run bytes_reader ms r = (bs, r') \<Longrightarrow> padded_inv n content (out @ bs) r'"
proof (induction ms arbitrary: out r bs)
  case Nil
  then show ?case by simp
next
  case (Cons m ms)
  obtain b e r1 where s: "PaddedReader_Read bytes_reader m r = ((b, e), r1)" by (metis prod.collapse)
  obtain b' r2 where t: "read_run bytes_reader ms r1 = (b', r2)" by (metis prod.collapse)
  have "padded_inv n content ((out @ b) @ b') r2"
    using Cons.IH [OF conjunct1 [OF padded_Read [OF Cons.prems(1) s]]] t Cons.prems(2) s by simp
  then show ?case using Cons.prems(2) s t by simp
qed

section \<open>Properties\<close>

text \<open>C18: For a piece whose padded size is 32 times a power of two and at most
  \<open>MaxMemtreeSize\<close>, building the tree succeeds whatever the pooled buffer contained, and for every
  leaf the proof read out of the tree carries that leaf and is accepted by \<open>VerifyMerkleProof\<close> at
  its index.\<close>

theorem merkle_complete:
  assumes "Padded (int n) = 32 * 2 ^ k" and "32 * 2 ^ k \<le> MaxMemtreeSize"
    and "n \<le> length rawIn" and "length (fr32_Pad (take n rawIn)) = 32 * 2 ^ k"
    and "\<forall>m. length (pool m) = m" and "i < 2 ^ k"
  shows "\<exists>tree pf. BuildSha254Memtree P Padded fr32_Pad pool rawIn (int n) = Some (Ok tree) \<and>
    MemtreeProof tree (int i) = Some (Ok pf) \<and>
    mp_Leaf pf = chunks 32 (fr32_Pad (take n rawIn)) ! i \<and> length (mp_Proof pf) = k \<and>
    VerifyMerkleProof P pf (int i)"
proof -
  let ?L = "chunks 32 (fr32_Pad (take n rawIn))"
  have L: "nodes (2 ^ k) ?L" using nodes_chunks assms(4) by blast
  have len: "length (siblings P k M j) = k" for M j by (induction k arbitrary: M j) auto
  show ?thesis
    using BuildSha254Memtree_eq [of Padded n k rawIn fr32_Pad pool, OF assms(1-5), of P] MemtreeProof_tree [OF L assms(6), of P]
      verify_siblings [OF L assms(6), of P] len
    by (intro exI [of _ "concat (concat (levels_of P k ?L))"] exI conjI) (auto simp: VerifyMerkleProof_def)
qed

theorem merkle_complete_witness:
  "\<exists>tree pf. BuildSha254Memtree sample_prims (\<lambda>s. s + s sdiv 127) (\<lambda>bs. bs @ [0]) (\<lambda>m. replicate m 9)
       (replicate 200 1) (int 127) = Some (Ok tree) \<and>
    MemtreeProof tree (int 3) = Some (Ok pf) \<and>
    mp_Leaf pf = chunks 32 (replicate 127 1 @ [0]) ! 3 \<and> length (mp_Proof pf) = 2 \<and>
    VerifyMerkleProof sample_prims pf (int 3)"
  using merkle_complete [of "\<lambda>s. s + s sdiv 127" 127 2 "replicate 200 1" "\<lambda>bs. bs @ [0]" "\<lambda>m. replicate m 9" 3 sample_prims]
  by (simp add: go_arith MaxMemtreeSize_def push_bit_int_def)


definition constant_hash :: prims where
  "constant_hash = \<lparr>aes_block = \<lambda>k b. b, sha256 = \<lambda>m. 5\<rparr>"


lemma verify_loop_shift:
  "length ps = k \<Longrightarrow> verify_loop P (int (i + 2 ^ k * j)) h ps = verify_loop P (int i) h ps"
proof (induction k arbitrary: ps i h)
  case 0
  then show ?case by simp
next
  case (Suc k)
  then obtain s rest where ps: "ps = s # rest" "length rest = k" by (cases ps) auto
  have split: "i + 2 ^ Suc k * j = i + 2 * (2 ^ k * j)" by simp
  have "int (i + 2 ^ Suc k * j) sdiv 2 = int ((i + 2 * (2 ^ k * j)) div 2)"
    unfolding split by (simp add: go_arith zdiv_int)
  also have "(i + 2 * (2 ^ k * j)) div 2 = i div 2 + 2 ^ k * j" by simp
  finally have d: "int (i + 2 ^ Suc k * j) sdiv 2 = int (i div 2 + 2 ^ k * j)" .
  have "int (i + 2 ^ Suc k * j) smod 2 = int ((i + 2 * (2 ^ k * j)) mod 2)"
    unfolding split by (simp add: go_arith zmod_int)
  also have "(i + 2 * (2 ^ k * j)) mod 2 = i mod 2" by simp
  finally have m: "int (i + 2 ^ Suc k * j) smod 2 = int i smod 2" by (simp add: go_arith zmod_int)
  have di: "int i sdiv 2 = int (i div 2)" by (simp add: go_arith zdiv_int)
  show ?case unfolding ps(1) verify_loop.simps d m di by (rule Suc.IH [OF ps(2)])
qed

text \<open>\<open>VerifyMerkleProof\<close> does not bound the leaf index: a proof of \<open>k\<close> siblings that is
  accepted for an index is accepted for every index that is larger by a multiple of 2^k.\<close>

theorem merkle_index_unbounded:
  "VerifyMerkleProof P pf (int (i + 2 ^ length (mp_Proof pf) * j)) = VerifyMerkleProof P pf (int i)"
  by (simp only: VerifyMerkleProof_def verify_loop_shift [OF refl])

text \<open>C38: \<open>MemtreeProof\<close> returns exactly when the buffer holds at least one node: on a shorter one,
  the empty one included, the loop that reconstructs the level sizes never ends.\<close>

theorem memtree_proof_returns:
  "(MemtreeProof memtree i = None) = (length memtree < 32)"
proof -
  let ?t = "int (length memtree) sdiv NodeSize"
  let ?c = "(?t + 1) sdiv 2"
  have t: "?t = int (length memtree div 32)" by (simp add: NodeSize_def go_arith zdiv_int)
  then have c: "?c = int ((length memtree div 32 + 1) div 2)" by (simp add: go_arith zdiv_int)
  have none: "MemtreeProof memtree i = None \<longleftrightarrow> count_levels ?c [] 0 = None"
    by (auto simp: MemtreeProof_def Let_def split: option.splits)
  show ?thesis
  proof (cases "length memtree < 32")
    case True
    then have "?c = 0" using c by simp
    then have "count_levels ?c [] 0 = None" using count_levels_result [of ?c "[]" 0] by (cases "count_levels ?c [] 0") auto
    then show ?thesis using none True by simp
  next
    case False
    then have "1 \<le> length memtree div 32" by (simp add: less_eq_div_iff_mult_less_eq)
    then have "0 < ?c" using c by (simp add: div_greater_zero_iff)
    then have "count_levels ?c [] 0 \<noteq> None" using count_levels_returns [of ?c "[]" 0] by auto
    then show ?thesis using none False by simp
  qed
qed

text \<open>Whatever buffer lengths it is called with, \<open>PaddedReader\<close> over a reader with the given
  content delivers, in order and without gaps, a prefix of the content cut or filled with zeros to
  the total size; it reports end of file exactly when all of that was delivered, and before that
  every call with a non-empty buffer delivers something.\<close>

theorem padded_reader_streams:
  assumes "read_run bytes_reader ms (NewPaddedReader content (int n)) = (out, r)"
    and "PaddedReader_Read bytes_reader m r = ((bs, err), r')"
  shows "out @ bs = take (length (out @ bs)) (take n content @ replicate (n - length content) 0) \<and>
    (err = Some EOF \<longleftrightarrow> length out = n) \<and> (err = None \<longleftrightarrow> length out < n) \<and>
    (0 < m \<and> length out < n \<longrightarrow> bs \<noteq> [])"
proof -
  have "padded_inv n content [] (NewPaddedReader content (int n))"
    by (simp add: padded_inv_def NewPaddedReader_def)
  then have inv: "padded_inv n content out r" using read_run_inv [of n content "[]"] assms(1) by fastforce
  then have "length out \<le> n" by (simp add: padded_inv_def)
  then have ends: "(err = Some EOF \<longleftrightarrow> length out = n) \<and> (err = None \<longleftrightarrow> length out < n) \<and>
    (0 < m \<and> length out < n \<longrightarrow> bs \<noteq> [])"
    using padded_Read [OF inv assms(2)] by auto
  have "out @ bs = take (length (out @ bs)) (take n content @ replicate (n - length content) 0)"
    using padded_Read [OF inv assms(2)] unfolding padded_inv_def padded_stream_def by blast
  with ends show ?thesis by blast
qed

theorem padded_reader_streams_witness:
  "read_run bytes_reader [2, 3] (NewPaddedReader [1, 2, 3] (int 7)) =
     ([1, 2, 3], \<lparr>pr_r = [], pr_total = 7, pr_read = 3\<rparr>) \<and>
   fst (PaddedReader_Read bytes_reader 9 \<lparr>pr_r = [], pr_total = 7, pr_read = 3\<rparr>) = ([0, 0, 0, 0], None) \<and>
   [1, 2, 3] @ [0, 0, 0, 0] = take 7 (take 7 [1, 2, 3] @ replicate 4 (0 :: byte))"
proof -
  have run: "read_run bytes_reader [2, 3] (NewPaddedReader [1, 2, 3] (int 7)) =
     ([1, 2, 3], \<lparr>pr_r = [], pr_total = 7, pr_read = 3\<rparr>)"
    by (simp add: PaddedReader_Read_def bytes_reader_def NewPaddedReader_def Let_def)
  have read: "PaddedReader_Read bytes_reader 9 \<lparr>pr_r = [], pr_total = 7, pr_read = 3\<rparr> =
     (([0, 0, 0, 0], None), \<lparr>pr_r = [], pr_total = 7, pr_read = 7\<rparr>)"
    by (simp add: PaddedReader_Read_def bytes_reader_def Let_def EOF_def eval_nat_numeral)
  show ?thesis using padded_reader_streams [OF run read] run read by (simp add: eval_nat_numeral)
qed

end
