(* ===== verification/Retry.thy ===== *)
theory Retry
  imports Prelude
begin

text \<open>
  \<open>private/retry/retry.go\<close>: \<open>WithRetry.Do\<close>, the exponential-backoff loop.

  The operation is a state transformer, so that its effects show in the result. What the loop
  takes from outside is an \<open>retry_env\<close>: the random number drawn at each attempt and whether
  the context was done when the delay of that attempt was waited for. Durations are
  \<open>int64\<close> nanoseconds, so \<open>BaseDelay * (1 << attempt)\<close> wraps as the code's does.
\<close>

record WithRetry =
  MaxAttempts :: int
  BaseDelay :: "64 word"

record retry_env =
  random :: "nat \<Rightarrow> 64 word"
  ctx_done :: "nat \<Rightarrow> go_error option"

type_synonym 's attempt = "'s \<Rightarrow> (bool \<times> go_error option) \<times> 's"

text \<open>\<open>rand.Int64N(n)\<close> panics unless \<open>n > 0\<close> and is in \<open>[0, n)\<close> otherwise.\<close>

definition rand_Int64N :: "64 word \<Rightarrow> 64 word \<Rightarrow> 64 word outcome" where
  "rand_Int64N r n = (if sint n \<le> 0 then Panic else Ok (r mod n))"

definition ErrAborted :: "go_error \<Rightarrow> go_error \<Rightarrow> go_error" where
  "ErrAborted c e = ErrJoin [ErrWrap ''retry aborted: '' c [], e]"

function retry_loop ::
  "WithRetry \<Rightarrow> retry_env \<Rightarrow> 's attempt \<Rightarrow> nat \<Rightarrow> 's \<Rightarrow> 64 word list \<Rightarrow>
   's \<times> 64 word list \<times> unit outcome" where
  "retry_loop r env f attempt s ds =
     (case f s of ((needsRetry, err), s') \<Rightarrow>
       (case err of
          None \<Rightarrow> (s', ds, Ok ())
        | Some e \<Rightarrow>
            if \<not> needsRetry \<or> MaxAttempts r \<le> int attempt then (s', ds, Err e)
            else
              (let backoff = BaseDelay r * push_bit attempt 1 in
               case rand_Int64N (random env attempt) (BaseDelay r) of
                 Ok jitter \<Rightarrow>
                   (let delay = backoff + jitter in
                    case ctx_done env attempt of
                      Some c \<Rightarrow> (s', ds @ [delay], Err (ErrAborted c e))
                    | None \<Rightarrow> retry_loop r env f (Suc attempt) s' (ds @ [delay]))
               | _ \<Rightarrow> (s', ds, Panic))))"
  by pat_completeness auto
termination
  by (relation "measure (\<lambda>(r, env, f, attempt, s, ds). nat (MaxAttempts r) - attempt)") auto

declare retry_loop.simps [simp del]

definition Do :: "WithRetry \<Rightarrow> retry_env \<Rightarrow> 's attempt \<Rightarrow> 's \<Rightarrow> 's \<times> 64 word list \<times> unit outcome" where
  "Do r env f s = retry_loop r env f 0 s []"

text \<open>The state after \<open>k\<close> calls of the operation, and what call \<open>k\<close> returns.\<close>

fun after_calls :: "'s attempt \<Rightarrow> nat \<Rightarrow> 's \<Rightarrow> 's" where
  "after_calls f 0 s = s"
| "after_calls f (Suc k) s = after_calls f k (snd (f s))"

definition call_result :: "'s attempt \<Rightarrow> nat \<Rightarrow> 's \<Rightarrow> bool \<times> go_error option" where
  "call_result f k s = fst (f (after_calls f k s))"

lemma after_calls_Suc: "after_calls f (Suc k) s = snd (f (after_calls f k s))"
  by (induction k arbitrary: s) auto

lemma call_result_Suc: "call_result f (Suc k) s = call_result f k (snd (f s))"
  by (simp add: call_result_def)

lemma call_result_0: "call_result f 0 s = fst (f s)"
  by (simp add: call_result_def)

section \<open>How often the operation is called\<close>

lemma retry_loop_calls:
  assumes "retry_loop r env f a s ds = (s', ds', res)" and "a = 0 \<or> int a \<le> MaxAttempts r"
  shows "\<exists>k. s' = after_calls f (Suc k) s \<and> a + k \<le> nat (MaxAttempts r) \<and>
             length ds' \<le> length ds + Suc k"
  using assms
proof (induction r env f a s ds arbitrary: s' ds' res rule: retry_loop.induct)
  case (1 r env f a s ds)
  obtain nr err t where fs: "f s = ((nr, err), t)" by (metis prod.collapse)
  note unfold = retry_loop.simps [of r env f a s ds]
  have a: "a \<le> nat (MaxAttempts r)" using "1.prems"(2) by auto
  show ?case
  proof (cases "\<exists>e j. err = Some e \<and> nr \<and> int a < MaxAttempts r \<and> ctx_done env a = None \<and>
                  rand_Int64N (random env a) (BaseDelay r) = Ok j")
    case True
    then obtain e j where c: "err = Some e" "nr" "int a < MaxAttempts r" "ctx_done env a = None"
      "rand_Int64N (random env a) (BaseDelay r) = Ok j" by auto
    let ?ds = "ds @ [BaseDelay r * push_bit a 1 + j]"
    have rec: "retry_loop r env f (Suc a) t ?ds = (s', ds', res)"
      using "1.prems"(1) fs c by (simp add: unfold)
    have "\<exists>k. s' = after_calls f (Suc k) t \<and> Suc a + k \<le> nat (MaxAttempts r) \<and>
              length ds' \<le> length ?ds + Suc k"
      by (rule "1.IH" [OF fs [symmetric] refl c(1) _ refl c(5) refl c(4) rec]) (use c in auto)
    then obtain k where k: "s' = after_calls f (Suc k) t" "Suc a + k \<le> nat (MaxAttempts r)"
      "length ds' \<le> length ?ds + Suc k" by blast
    show ?thesis using k fs by (intro exI [of _ "Suc k"]) auto
  next
    case False
    then have "s' = t \<and> length ds' \<le> length ds + 1"
      using "1.prems"(1) fs
      by (auto simp: unfold Let_def not_le split: option.splits outcome.splits if_splits)
    then show ?thesis using fs a by (intro exI [of _ 0]) auto
  qed
qed

section \<open>What the loop returns\<close>

definition delay_at :: "WithRetry \<Rightarrow> retry_env \<Rightarrow> nat \<Rightarrow> 64 word" where
  "delay_at r env a = BaseDelay r * push_bit a 1 + random env a mod BaseDelay r"

text \<open>Call \<open>k\<close> fails with an error worth retrying, and the wait after it is not cut short.\<close>

definition retried :: "retry_env \<Rightarrow> 's attempt \<Rightarrow> 's \<Rightarrow> nat \<Rightarrow> bool" where
  "retried env f s k \<longleftrightarrow>
     fst (call_result f k s) \<and> snd (call_result f k s) \<noteq> None \<and> ctx_done env k = None"

lemma retry_loop_step:
  assumes "fst (f s) = (True, Some e)" and "int a < MaxAttempts r" and "0 < sint (BaseDelay r)"
    and "ctx_done env a = None"
  shows "retry_loop r env f a s ds = retry_loop r env f (Suc a) (snd (f s)) (ds @ [delay_at r env a])"
  using assms
  by (cases "f s") (simp add: retry_loop.simps [of r env f a s] rand_Int64N_def delay_at_def)

lemma retry_loop_prefix:
  assumes "\<And>k. k < n \<Longrightarrow> fst (call_result f k s) \<and> snd (call_result f k s) \<noteq> None \<and>
             ctx_done env (a + k) = None"
    and "int (a + n) \<le> MaxAttempts r" and "0 < sint (BaseDelay r)"
  shows "retry_loop r env f a s ds =
         retry_loop r env f (a + n) (after_calls f n s) (ds @ map (delay_at r env) [a..<a + n])"
  using assms
proof (induction n arbitrary: a s ds)
  case 0
  then show ?case by simp
next
  case (Suc n)
  have "fst (call_result f 0 s) \<and> snd (call_result f 0 s) \<noteq> None \<and> ctx_done env (a + 0) = None"
    using Suc.prems(1) by blast
  then obtain e where "fst (f s) = (True, Some e)" "ctx_done env a = None"
    by (cases "fst (f s)") (auto simp: call_result_0)
  then have "retry_loop r env f a s ds = retry_loop r env f (Suc a) (snd (f s)) (ds @ [delay_at r env a])"
    using Suc.prems(2,3) by (intro retry_loop_step) auto
  also have "\<dots> = retry_loop r env f (Suc a + n) (after_calls f n (snd (f s)))
                    ((ds @ [delay_at r env a]) @ map (delay_at r env) [Suc a..<Suc a + n])"
    by (rule Suc.IH) (use Suc.prems(1) [of "Suc _"] Suc.prems(2,3) in \<open>auto simp: call_result_Suc\<close>)
  also have "(ds @ [delay_at r env a]) @ map (delay_at r env) [Suc a..<Suc a + n] =
             ds @ map (delay_at r env) [a..<a + Suc n]"
    by (simp add: upt_rec [of a])
  finally show ?case by simp
qed

lemma Do_prefix:
  assumes "\<forall>k<n. retried env f s k" and "int n \<le> MaxAttempts r" and "0 < sint (BaseDelay r)"
  shows "Do r env f s =
         retry_loop r env f n (after_calls f n s) (map (delay_at r env) [0..<n])"
  using retry_loop_prefix [of n f s env 0 r "[]"] assms by (simp add: Do_def retried_def)

lemma retry_loop_returns:
  assumes "fst (f s) = (needsRetry, err)"
    and "err = None \<or> \<not> needsRetry \<or> MaxAttempts r \<le> int a"
  shows "retry_loop r env f a s ds =
         (snd (f s), ds, case err of None \<Rightarrow> Ok () | Some e \<Rightarrow> Err e)"
  using assms by (cases "f s") (auto simp: retry_loop.simps [of r env f a s] split: option.splits)

lemma Do_decides:
  assumes "\<forall>k<n. retried env f s k" and "int n \<le> MaxAttempts r" and "0 < sint (BaseDelay r)"
    and "call_result f n s = (needsRetry, err)"
    and "err = None \<or> \<not> needsRetry \<or> MaxAttempts r \<le> int n"
  shows "Do r env f s = (after_calls f (Suc n) s, map (delay_at r env) [0..<n],
           case err of None \<Rightarrow> Ok () | Some e \<Rightarrow> Err e)"
  using Do_prefix [OF assms(1-3)] retry_loop_returns [of f "after_calls f n s" needsRetry err r n] assms(4,5)
  by (simp add: call_result_def after_calls_Suc del: after_calls.simps)

section \<open>The delays\<close>

lemma uint_2_power: "a < 63 \<Longrightarrow> uint (2 ^ a :: 64 word) = 2 ^ a"
proof -
  assume "a < 63"
  then have "(2 :: int) ^ a < 2 ^ 64" by (intro power_strict_increasing) auto
  then have "(2 :: int) ^ a mod 2 ^ 64 = 2 ^ a" by (intro mod_pos_pos_trivial) auto
  moreover have "(2 :: 64 word) ^ a = word_of_int (2 ^ a)" by simp
  ultimately show ?thesis by (simp only: uint_word_of_int) simp
qed

lemma sint_pos_uint: "0 \<le> sint (w :: 64 word) \<Longrightarrow> sint w = uint w"
  using sint_lt [of w] by (simp add: uint_sint take_bit_eq_mod mod_pos_pos_trivial)

lemma uint_small_sint: "uint (w :: 64 word) < 2 ^ 63 \<Longrightarrow> sint w = uint w"
  using int_word_sint [of "uint w", where ?'a = 64]
  by (simp add: mod_pos_pos_trivial)

lemma delay_at_bounds:
  assumes "0 < sint (BaseDelay r)" and "sint (BaseDelay r) * 2 ^ a + sint (BaseDelay r) \<le> 2 ^ 63"
  shows "sint (BaseDelay r) * 2 ^ a \<le> sint (delay_at r env a)"
    and "sint (delay_at r env a) < sint (BaseDelay r) * 2 ^ a + sint (BaseDelay r)"
proof -
  define b where "b = uint (BaseDelay r)"
  define j where "j = uint (random env a) mod b"
  have sb: "sint (BaseDelay r) = b" using assms(1) sint_pos_uint by (simp add: b_def)
  have b: "0 < b" "b * 2 ^ a + b \<le> 2 ^ 63" using assms sb by auto
  have j: "0 \<le> j" "j < b" using b by (simp_all add: j_def)
  have "1 * 2 ^ a \<le> b * 2 ^ a" using b by (intro mult_right_mono) auto
  then have "(2 :: int) ^ a < 2 ^ 63" using b by linarith
  then have a: "a < 63" by (rule power_less_imp_less_exp [rotated]) simp
  have "uint (BaseDelay r * push_bit a 1) = b * 2 ^ a mod 2 ^ 64"
    using a by (simp add: uint_word_ariths b_def uint_2_power)
  also have "\<dots> = b * 2 ^ a"
    using b zero_le_power [of "2 :: int" a] by (intro mod_pos_pos_trivial) (auto simp: zero_le_mult_iff)
  finally have m: "uint (BaseDelay r * 2 ^ a) = b * 2 ^ a" by simp
  have "uint (delay_at r env a) = (b * 2 ^ a + j) mod 2 ^ 64"
    by (simp add: delay_at_def uint_word_ariths(1) m uint_mod b_def j_def)
  also have "\<dots> = b * 2 ^ a + j"
    using b j zero_le_mult_iff [of b "2 ^ a"] by (intro mod_pos_pos_trivial) auto
  finally have d: "uint (delay_at r env a) = b * 2 ^ a + j" .
  then have "sint (delay_at r env a) = b * 2 ^ a + j"
    using b j by (subst uint_small_sint) auto
  then show "sint (BaseDelay r) * 2 ^ a \<le> sint (delay_at r env a)"
    and "sint (delay_at r env a) < sint (BaseDelay r) * 2 ^ a + sint (BaseDelay r)"
    using j sb by auto
qed

section \<open>Properties\<close>

text \<open>\<open>Do\<close> always returns, after at least one and at most \<open>MaxAttempts + 1\<close> calls of
  the operation (one call when \<open>MaxAttempts\<close> is negative), and it never waits more often than it
  calls.\<close>

theorem retry_bounded:
  assumes "Do r env f s = (s', ds, res)"
  shows "\<exists>k. s' = after_calls f (Suc k) s \<and> k \<le> nat (MaxAttempts r) \<and> length ds \<le> Suc k"
  using retry_loop_calls [OF assms [unfolded Do_def]] by simp

definition count_calls :: "nat attempt" where
  "count_calls n = ((True, Some (ErrNew ''unavailable'')), Suc n)"

theorem retry_bounded_witness:
  "\<exists>k. 1 = after_calls count_calls (Suc k) 0 \<and> k \<le> nat (MaxAttempts \<lparr>MaxAttempts = 0, BaseDelay = 5\<rparr>) \<and>
     length ([] :: 64 word list) \<le> Suc k"
proof -
  have "Do \<lparr>MaxAttempts = 0, BaseDelay = 5\<rparr> \<lparr>random = of_nat, ctx_done = \<lambda>_. None\<rparr> count_calls 0 =
        (1, [], Err (ErrNew ''unavailable''))"
    by (simp add: Do_def retry_loop.simps count_calls_def)
  from retry_bounded [OF this] show ?thesis .
qed


definition fail_twice :: "nat attempt" where
  "fail_twice n = ((True, if n < 2 then Some (ErrNew ''unavailable'') else None), Suc n)"


text \<open>As long as the largest delay fits \<open>int64\<close>, the wait after attempt \<open>a\<close> is at least
  \<open>BaseDelay * 2^a\<close> and exceeds it by less than \<open>BaseDelay\<close>.\<close>

theorem retry_delay_bounds:
  assumes "0 < sint (BaseDelay r)" and "sint (BaseDelay r) * 2 ^ a + sint (BaseDelay r) \<le> 2 ^ 63"
  shows "sint (delay_at r env a) \<in>
    {sint (BaseDelay r) * 2 ^ a ..< sint (BaseDelay r) * 2 ^ a + sint (BaseDelay r)}"
  using delay_at_bounds [OF assms] by simp

theorem retry_delay_bounds_witness:
  "sint (delay_at \<lparr>MaxAttempts = 5, BaseDelay = 100000000\<rparr> \<lparr>random = of_nat, ctx_done = \<lambda>_. None\<rparr> 4) \<in>
    {1600000000 ..< 1700000000}"
  using retry_delay_bounds [of "\<lparr>MaxAttempts = 5, BaseDelay = 100000000\<rparr>" 4] by simp

text \<open>A context that ends during the wait stops the loop: the result carries both the
  context's error and the operation's, and the operation is not called again.\<close>

theorem retry_context_aborts:
  assumes "\<forall>k<n. retried env f s k" and "int n < MaxAttempts r" and "0 < sint (BaseDelay r)"
    and "call_result f n s = (True, Some e)" and "ctx_done env n = Some c"
  shows "\<exists>res. Do r env f s = (after_calls f (Suc n) s, map (delay_at r env) [0..<Suc n], Err res) \<and>
    err_is res c \<and> err_is res e"
proof -
  have "retry_loop r env f n (after_calls f n s) (map (delay_at r env) [0..<n]) =
      (after_calls f (Suc n) s, map (delay_at r env) [0..<n] @ [delay_at r env n], Err (ErrAborted c e))"
    using assms by (cases "f (after_calls f n s)")
      (simp add: retry_loop.simps [of r env f n] call_result_def rand_Int64N_def delay_at_def
        after_calls_Suc del: after_calls.simps)
  then show ?thesis
    using Do_prefix [OF assms(1) less_imp_le [OF assms(2)] assms(3)] by (simp add: ErrAborted_def)
qed

theorem retry_context_aborts_witness:
  "\<exists>res. Do \<lparr>MaxAttempts = 5, BaseDelay = 100\<rparr>
       \<lparr>random = of_nat, ctx_done = \<lambda>_. Some (ErrNew ''context canceled'')\<rparr> count_calls 0 =
     (1, [100], Err res) \<and> err_is res (ErrNew ''context canceled'') \<and> err_is res (ErrNew ''unavailable'')"
  using retry_context_aborts [of 0 "\<lparr>random = of_nat, ctx_done = \<lambda>_. Some (ErrNew ''context canceled'')\<rparr>"
      count_calls 0 "\<lparr>MaxAttempts = 5, BaseDelay = 100\<rparr>" "ErrNew ''unavailable''" "ErrNew ''context canceled''"]
  by (simp add: call_result_def count_calls_def delay_at_def)

end
