(* ===== verification/IpcErrors.thy ===== *)
theory IpcErrors
  imports Prelude
begin

text \<open>
  \<open>private/ipc/errors.go\<close>: the sentinel errors of the storage contract and the translation of
  the selectors the chain reverts with into them.

  \<open>errors.As\<close> with \<open>rpc.DataError\<close> and \<open>ErrorData\<close> belong to the RPC library and are the
  parameter \<open>error_data\<close>: the data of the first error of the chain that carries some, a string or
  something else. A nil error is \<open>None\<close>.
\<close>

section \<open>Sentinel errors\<close>

definition ErrBucketAlreadyExists :: go_error where "ErrBucketAlreadyExists = ErrNew ''BucketAlreadyExists''"
definition ErrBucketInvalid :: go_error where "ErrBucketInvalid = ErrNew ''BucketInvalid''"
definition ErrBucketInvalidOwner :: go_error where "ErrBucketInvalidOwner = ErrNew ''BucketInvalidOwner''"
definition ErrBucketNonexists :: go_error where "ErrBucketNonexists = ErrNew ''BucketNonexists''"
definition ErrBucketNonempty :: go_error where "ErrBucketNonempty = ErrNew ''BucketNonempty''"
definition ErrFileAlreadyExists :: go_error where "ErrFileAlreadyExists = ErrNew ''FileAlreadyExists''"
definition ErrFileInvalid :: go_error where "ErrFileInvalid = ErrNew ''FileInvalid''"
definition ErrFileNonexists :: go_error where "ErrFileNonexists = ErrNew ''FileNonexists''"
definition ErrFileNonempty :: go_error where "ErrFileNonempty = ErrNew ''FileNonempty''"
definition ErrFileNameDuplicate :: go_error where "ErrFileNameDuplicate = ErrNew ''FileNameDuplicate''"
definition ErrFileFullyUploaded :: go_error where "ErrFileFullyUploaded = ErrNew ''FileFullyUploaded''"
definition ErrFileChunkDuplicate :: go_error where "ErrFileChunkDuplicate = ErrNew ''FileChunkDuplicate''"
definition ErrBlockAlreadyExists :: go_error where "ErrBlockAlreadyExists = ErrNew ''BlockAlreadyExists''"
definition ErrBlockInvalid :: go_error where "ErrBlockInvalid = ErrNew ''BlockInvalid''"
definition ErrBlockNonexists :: go_error where "ErrBlockNonexists = ErrNew ''BlockNonexists''"
definition ErrInvalidArrayLength :: go_error where "ErrInvalidArrayLength = ErrNew ''InvalidArrayLength''"
definition ErrInvalidFileBlocksCount :: go_error where "ErrInvalidFileBlocksCount = ErrNew ''InvalidFileBlocksCount''"
definition ErrInvalidLastBlockSize :: go_error where "ErrInvalidLastBlockSize = ErrNew ''InvalidLastBlockSize''"
definition ErrInvalidEncodedSize :: go_error where "ErrInvalidEncodedSize = ErrNew ''InvalidEncodedSize''"
definition ErrInvalidFileCID :: go_error where "ErrInvalidFileCID = ErrNew ''InvalidFileCID''"
definition ErrIndexMismatch :: go_error where "ErrIndexMismatch = ErrNew ''IndexMismatch''"
definition ErrNoPolicy :: go_error where "ErrNoPolicy = ErrNew ''NoPolicy''"
definition ErrFileNotFilled :: go_error where "ErrFileNotFilled = ErrNew ''FileNotFilled''"
definition ErrBlockAlreadyFilled :: go_error where "ErrBlockAlreadyFilled = ErrNew ''BlockAlreadyFilled''"
definition ErrChunkCIDMismatch :: go_error where "ErrChunkCIDMismatch = ErrNew ''ChunkCIDMismatch''"
definition ErrNotBucketOwner :: go_error where "ErrNotBucketOwner = ErrNew ''NotBucketOwner''"
definition ErrBucketNotFound :: go_error where "ErrBucketNotFound = ErrNew ''BucketNotFound''"
definition ErrFileDoesNotExist :: go_error where "ErrFileDoesNotExist = ErrNew ''FileDoesNotExist''"
definition ErrNotThePolicyOwner :: go_error where "ErrNotThePolicyOwner = ErrNew ''NotThePolicyOwner''"
definition ErrCloneArgumentsTooLong :: go_error where "ErrCloneArgumentsTooLong = ErrNew ''CloneArgumentsTooLong''"
definition ErrCreate2EmptyBytecode :: go_error where "ErrCreate2EmptyBytecode = ErrNew ''Create2EmptyBytecode''"
definition ErrECDSAInvalidSignatureS :: go_error where "ErrECDSAInvalidSignatureS = ErrNew ''ECDSAInvalidSignatureS''"
definition ErrECDSAInvalidSignatureLength :: go_error where "ErrECDSAInvalidSignatureLength = ErrNew ''ECDSAInvalidSignatureLength''"
definition ErrECDSAInvalidSignature :: go_error where "ErrECDSAInvalidSignature = ErrNew ''ECDSAInvalidSignature''"
definition ErrAlreadyWhitelisted :: go_error where "ErrAlreadyWhitelisted = ErrNew ''AlreadyWhitelisted''"
definition ErrInvalidAddress :: go_error where "ErrInvalidAddress = ErrNew ''InvalidAddress''"
definition ErrNotWhitelisted :: go_error where "ErrNotWhitelisted = ErrNew ''NotWhitelisted''"
definition ErrMathOverflowedMulDiv :: go_error where "ErrMathOverflowedMulDiv = ErrNew ''MathOverflowedMulDiv''"
definition ErrInvalidBlocksAmount :: go_error where "ErrInvalidBlocksAmount = ErrNew ''InvalidBlocksAmount''"
definition ErrInvalidBlockIndex :: go_error where "ErrInvalidBlockIndex = ErrNew ''InvalidBlockIndex''"
definition ErrLastChunkDuplicate :: go_error where "ErrLastChunkDuplicate = ErrNew ''LastChunkDuplicate''"
definition ErrFileNotExists :: go_error where "ErrFileNotExists = ErrNew ''FileNotExists''"
definition ErrNotSignedByBucketOwner :: go_error where "ErrNotSignedByBucketOwner = ErrNew ''NotSignedByBucketOwner''"
definition ErrNonceAlreadyUsed :: go_error where "ErrNonceAlreadyUsed = ErrNew ''NonceAlreadyUsed''"
definition ErrOffsetOutOfBounds :: go_error where "ErrOffsetOutOfBounds = ErrNew ''OffsetOutOfBounds''"

lemmas contract_error_defs =
  ErrBucketAlreadyExists_def ErrBucketInvalid_def ErrBucketInvalidOwner_def
  ErrBucketNonexists_def ErrBucketNonempty_def ErrFileAlreadyExists_def
  ErrFileInvalid_def ErrFileNonexists_def ErrFileNonempty_def
  ErrFileNameDuplicate_def ErrFileFullyUploaded_def ErrFileChunkDuplicate_def
  ErrBlockAlreadyExists_def ErrBlockInvalid_def ErrBlockNonexists_def
  ErrInvalidArrayLength_def ErrInvalidFileBlocksCount_def ErrInvalidLastBlockSize_def
  ErrInvalidEncodedSize_def ErrInvalidFileCID_def ErrIndexMismatch_def
  ErrNoPolicy_def ErrFileNotFilled_def ErrBlockAlreadyFilled_def
  ErrChunkCIDMismatch_def ErrNotBucketOwner_def ErrBucketNotFound_def
  ErrFileDoesNotExist_def ErrNotThePolicyOwner_def ErrCloneArgumentsTooLong_def
  ErrCreate2EmptyBytecode_def ErrECDSAInvalidSignatureS_def ErrECDSAInvalidSignatureLength_def
  ErrECDSAInvalidSignature_def ErrAlreadyWhitelisted_def ErrInvalidAddress_def
  ErrNotWhitelisted_def ErrMathOverflowedMulDiv_def ErrInvalidBlocksAmount_def
  ErrInvalidBlockIndex_def ErrLastChunkDuplicate_def ErrFileNotExists_def
  ErrNotSignedByBucketOwner_def ErrNonceAlreadyUsed_def ErrOffsetOutOfBounds_def

section \<open>Selectors\<close>

datatype error_payload = PayloadString string | PayloadOther

definition contract_errors :: "(string \<times> go_error) list" where
  "contract_errors = [
    (''0x497ef2c2'', ErrBucketAlreadyExists),
    (''0x4f4b202a'', ErrBucketInvalid),
    (''0xdc64d0ad'', ErrBucketInvalidOwner),
    (''0x938a92b7'', ErrBucketNonexists),
    (''0x89fddc00'', ErrBucketNonempty),
    (''0x6891dde0'', ErrFileAlreadyExists),
    (''0x77a3cbd8'', ErrFileInvalid),
    (''0x21584586'', ErrFileNonexists),
    (''0xc4a3b6f1'', ErrFileNonempty),
    (''0xd09ec7af'', ErrFileNameDuplicate),
    (''0xd96b03b1'', ErrFileFullyUploaded),
    (''0x702cf740'', ErrFileChunkDuplicate),
    (''0xc1edd16a'', ErrBlockAlreadyExists),
    (''0xcb20e88c'', ErrBlockInvalid),
    (''0x15123121'', ErrBlockNonexists),
    (''0x856b300d'', ErrInvalidArrayLength),
    (''0x17ec8370'', ErrInvalidFileBlocksCount),
    (''0x5660ebd2'', ErrInvalidLastBlockSize),
    (''0x1b6fdfeb'', ErrInvalidEncodedSize),
    (''0xfe33db92'', ErrInvalidFileCID),
    (''0x37c7f255'', ErrIndexMismatch),
    (''0xcefa6b05'', ErrNoPolicy),
    (''0x5c371e92'', ErrFileNotFilled),
    (''0xdad01942'', ErrBlockAlreadyFilled),
    (''0x4b6b8ec8'', ErrChunkCIDMismatch),
    (''0x0d6b18f0'', ErrNotBucketOwner),
    (''0xc4c1a0c5'', ErrBucketNotFound),
    (''0x3bcbb0de'', ErrFileDoesNotExist),
    (''0xa2c09fea'', ErrNotThePolicyOwner),
    (''0x94289054'', ErrCloneArgumentsTooLong),
    (''0x4ca249dc'', ErrCreate2EmptyBytecode),
    (''0xf3714a9b'', ErrECDSAInvalidSignatureS),
    (''0x367e2e27'', ErrECDSAInvalidSignatureLength),
    (''0xf645eedf'', ErrECDSAInvalidSignature),
    (''0xb73e95e1'', ErrAlreadyWhitelisted),
    (''0xe6c4247b'', ErrInvalidAddress),
    (''0x584a7938'', ErrNotWhitelisted),
    (''0x227bc153'', ErrMathOverflowedMulDiv),
    (''0xe7b199a6'', ErrInvalidBlocksAmount),
    (''0x59b452ef'', ErrInvalidBlockIndex),
    (''0x55cbc831'', ErrLastChunkDuplicate),
    (''0x2abde339'', ErrFileNotExists),
    (''0x48e0ed68'', ErrNotSignedByBucketOwner),
    (''0x923b8cbb'', ErrNonceAlreadyUsed),
    (''0x9605a010'', ErrOffsetOutOfBounds)]"

definition ErrorHashToError ::
  "(go_error \<Rightarrow> error_payload option) \<Rightarrow> go_error option \<Rightarrow> go_error option" where
  "ErrorHashToError error_data err =
     (case err of
        None \<Rightarrow> None
      | Some e \<Rightarrow>
          (case error_data e of
             Some (PayloadString hashCode) \<Rightarrow>
               (case map_of contract_errors hashCode of Some sentinel \<Rightarrow> Some sentinel | None \<Rightarrow> Some e)
           | _ \<Rightarrow> Some e))"

definition IgnoreOffsetError ::
  "(go_error \<Rightarrow> error_payload option) \<Rightarrow> go_error option \<Rightarrow> go_error option" where
  "IgnoreOffsetError error_data err =
     (case ErrorHashToError error_data err of
        None \<Rightarrow> None
      | Some e \<Rightarrow> if err_is e ErrOffsetOutOfBounds then None else Some e)"

section \<open>The table\<close>

lemma contract_errors_distinct:
  "distinct (map fst contract_errors)" "distinct (map snd contract_errors)"
  unfolding contract_errors_def contract_error_defs by code_simp+

lemma contract_errors_sentinels: "(c, e) \<in> set contract_errors \<Longrightarrow> \<exists>s. e = ErrNew s"
  by (auto simp: contract_errors_def contract_error_defs)

lemma ErrorHashToError_known:
  assumes "error_data e = Some (PayloadString c)" and "(c, s) \<in> set contract_errors"
  shows "ErrorHashToError error_data (Some e) = Some s"
  using assms map_of_is_SomeI [OF contract_errors_distinct(1)] by (simp add: ErrorHashToError_def)

lemma contract_errors_inj:
  "(c, s) \<in> set contract_errors \<Longrightarrow> (c', s) \<in> set contract_errors \<Longrightarrow> c = c'"
  using contract_errors_distinct(2) by (force simp: distinct_map inj_on_def)

lemma offset_selector: "(c, ErrOffsetOutOfBounds) \<in> set contract_errors \<longleftrightarrow> c = ''0x9605a010''"
proof -
  have "(''0x9605a010'', ErrOffsetOutOfBounds) \<in> set contract_errors"
    by (simp add: contract_errors_def)
  then show ?thesis using contract_errors_inj by blast
qed

section \<open>Properties\<close>

text \<open>The translation recognises exactly the 45 selectors of the table: each becomes its sentinel,
  different selectors become different sentinels, and an error with another selector, without string
  data or without data at all is returned unchanged, as is the absence of an error.\<close>

theorem error_translation:
  "length contract_errors = 45 \<and>
   (\<forall>c s. error_data e = Some (PayloadString c) \<and> (c, s) \<in> set contract_errors \<longrightarrow>
      ErrorHashToError error_data (Some e) = Some s) \<and>
   (\<forall>c c' s. (c, s) \<in> set contract_errors \<and> (c', s) \<in> set contract_errors \<longrightarrow> c = c') \<and>
   ((\<forall>c. error_data e = Some (PayloadString c) \<longrightarrow> c \<notin> fst ` set contract_errors) \<longrightarrow>
      ErrorHashToError error_data (Some e) = Some e) \<and>
   ErrorHashToError error_data None = None"
proof (intro conjI allI impI)
  show "length contract_errors = 45" by (simp add: contract_errors_def)
  show "ErrorHashToError error_data None = None" by (simp add: ErrorHashToError_def)
  show "c = c'" if "(c, s) \<in> set contract_errors \<and> (c', s) \<in> set contract_errors" for c c' s
    using that contract_errors_inj by blast
  show "ErrorHashToError error_data (Some e) = Some s"
    if "error_data e = Some (PayloadString c) \<and> (c, s) \<in> set contract_errors" for c s
    using that ErrorHashToError_known by blast
next
  assume unknown: "\<forall>c. error_data e = Some (PayloadString c) \<longrightarrow> c \<notin> fst ` set contract_errors"
  have "map_of contract_errors c = None" if "error_data e = Some (PayloadString c)" for c
    using unknown that by (simp add: map_of_eq_None_iff)
  then show "ErrorHashToError error_data (Some e) = Some e"
    by (auto simp: ErrorHashToError_def split: option.splits error_payload.splits)
qed

theorem error_translation_witness:
  "ErrorHashToError (\<lambda>_. Some (PayloadString ''0x938a92b7'')) (Some (ErrNew ''execution reverted'')) =
     Some ErrBucketNonexists \<and>
   ErrorHashToError (\<lambda>_. Some PayloadOther) (Some (ErrNew ''execution reverted'')) =
     Some (ErrNew ''execution reverted'')"
proof -
  have "(''0x938a92b7'', ErrBucketNonexists) \<in> set contract_errors" by (simp add: contract_errors_def)
  then show ?thesis
    using error_translation [of "\<lambda>_. Some (PayloadString ''0x938a92b7'')" "ErrNew ''execution reverted''"]
      error_translation [of "\<lambda>_. Some PayloadOther" "ErrNew ''execution reverted''"]
    by auto
qed

text \<open>\<open>IgnoreOffsetError\<close> turns the out-of-bounds error into success, both as the sentinel and as
  the raw selector 0x9605a010, and no other known selector.\<close>

theorem offset_error_ignored:
  assumes "error_data e = Some (PayloadString c)" and "(c, s) \<in> set contract_errors"
  shows "(IgnoreOffsetError error_data (Some e) = None) = (c = ''0x9605a010'') \<and>
    (c \<noteq> ''0x9605a010'' \<longrightarrow> IgnoreOffsetError error_data (Some e) = Some s)"
proof -
  obtain t where t: "s = ErrNew t" using contract_errors_sentinels [OF assms(2)] by blast
  have "s = ErrOffsetOutOfBounds \<longleftrightarrow> c = ''0x9605a010''"
    using offset_selector [of c] assms(2) contract_errors_distinct(1)
    by (metis map_of_is_SomeI option.inject)
  then show ?thesis
    using ErrorHashToError_known [of error_data, OF assms] by (auto simp: IgnoreOffsetError_def t)
qed

theorem offset_error_ignored_witness:
  "IgnoreOffsetError (\<lambda>_. Some (PayloadString ''0x9605a010'')) (Some (ErrNew ''reverted'')) = None \<and>
   IgnoreOffsetError (\<lambda>_. Some (PayloadString ''0x938a92b7'')) (Some (ErrNew ''reverted'')) = Some ErrBucketNonexists"
  using offset_error_ignored [of "\<lambda>_. Some (PayloadString ''0x9605a010'')" "ErrNew ''reverted''" "''0x9605a010''" ErrOffsetOutOfBounds]
    offset_error_ignored [of "\<lambda>_. Some (PayloadString ''0x938a92b7'')" "ErrNew ''reverted''" "''0x938a92b7''" ErrBucketNonexists]
  by (simp add: contract_errors_def)

end
