(* ===== verification/Actions.thy ===== *)
theory Actions
  imports Prelude
begin

text \<open>
  Calls with effects: an \<open>act\<close> takes the state of the world the program talks to (chain, nodes,
  disk), gives an outcome and the state after it. Sequencing keeps the effects of the part that ran
  when a later call fails, as the code does.
\<close>

type_synonym ('s, 'a) act = "'s \<Rightarrow> 'a outcome \<times> 's"

definition aret :: "'a \<Rightarrow> ('s, 'a) act" where
  "aret x s = (Ok x, s)"

definition afail :: "go_error \<Rightarrow> ('s, 'a) act" where
  "afail e s = (Err e, s)"

definition alift :: "'a outcome \<Rightarrow> ('s, 'a) act" where
  "alift r s = (r, s)"

definition abind :: "('s, 'a) act \<Rightarrow> ('a \<Rightarrow> ('s, 'b) act) \<Rightarrow> ('s, 'b) act" where
  "abind m f s =
     (case m s of
        (Ok x, s') \<Rightarrow> f x s'
      | (Err e, s') \<Rightarrow> (Err e, s')
      | (Panic, s') \<Rightarrow> (Panic, s'))"

definition amap_err :: "(go_error \<Rightarrow> go_error) \<Rightarrow> ('s, 'a) act \<Rightarrow> ('s, 'a) act" where
  "amap_err w m s = (case m s of (r, s') \<Rightarrow> (map_err w r, s'))"

text \<open>A loop over a list that collects results and stops at the first failure.\<close>

fun amap :: "('a \<Rightarrow> ('s, 'b) act) \<Rightarrow> 'a list \<Rightarrow> ('s, 'b list) act" where
  "amap f [] = aret []"
| "amap f (x # xs) = abind (f x) (\<lambda>y. abind (amap f xs) (\<lambda>ys. aret (y # ys)))"

lemma act_simps [simp]:
  "aret x s = (Ok x, s)" "afail e s = (Err e, s)" "alift r s = (r, s)"
  by (simp_all add: aret_def afail_def alift_def)

lemma abind_simps:
  "m s = (Ok x, s') \<Longrightarrow> abind m f s = f x s'"
  "m s = (Err e, s') \<Longrightarrow> abind m f s = (Err e, s')"
  "m s = (Panic, s') \<Longrightarrow> abind m f s = (Panic, s')"
  by (simp_all add: abind_def)

lemma abind_lift [simp]:
  "abind (aret x) f = f x" "abind (afail e) f = afail e" "abind (alift (Ok x)) f = f x"
  "abind (alift (Err e)) f = afail e"
  by (auto simp: abind_def fun_eq_iff)

lemma abind_Ok_iff:
  "abind m f s = (Ok y, s'') \<longleftrightarrow> (\<exists>x s'. m s = (Ok x, s') \<and> f x s' = (Ok y, s''))"
  by (auto simp: abind_def split: prod.splits outcome.splits)

lemma abind_Err_iff:
  "abind m f s = (Err e, s'') \<longleftrightarrow>
   m s = (Err e, s'') \<or> (\<exists>x s'. m s = (Ok x, s') \<and> f x s' = (Err e, s''))"
  by (auto simp: abind_def split: prod.splits outcome.splits)

lemma abind_assoc: "abind (abind m f) g = abind m (\<lambda>x. abind (f x) g)"
  by (auto simp: abind_def fun_eq_iff split: prod.splits outcome.splits)

lemma amap_err_Ok_iff [simp]: "amap_err w m s = (Ok x, s') \<longleftrightarrow> m s = (Ok x, s')"
  by (auto simp: amap_err_def split: prod.splits)

lemma amap_Ok_length: "amap f xs s = (Ok ys, s') \<Longrightarrow> length ys = length xs"
  by (induction xs arbitrary: s ys) (auto simp: abind_Ok_iff)

text \<open>An invariant of the state that every call of the loop body keeps.\<close>

lemma amap_invariant:
  assumes "\<And>x s r s'. x \<in> set xs \<Longrightarrow> I s \<Longrightarrow> f x s = (r, s') \<Longrightarrow> I s'" and "I s" and "amap f xs s = (r, s')"
  shows "I s'"
  using assms
proof (induction xs arbitrary: s r s')
  case Nil
  then show ?case by simp
next
  case (Cons x xs)
  obtain o1 s1 where s1: "f x s = (o1, s1)" by (cases "f x s")
  have I1: "I s1" using Cons.prems(1) [of x s] Cons.prems(2) s1 by simp
  show ?case
  proof (cases o1)
    case (Ok y)
    obtain o2 s2 where s2: "amap f xs s1 = (o2, s2)" by (cases "amap f xs s1")
    have "I s2" by (rule Cons.IH [OF _ I1 s2]) (use Cons.prems(1) in auto)
    then show ?thesis using Cons.prems(3) s1 s2 Ok by (cases o2) (auto simp: abind_def)
  qed (use Cons.prems(3) s1 I1 in \<open>auto simp: abind_def\<close>)
qed

end
