(* ===== verification/Ids.thy ===== *)
theory Ids
  imports Crypto
begin

text \<open>
  Identifiers and signatures: \<open>private/cids\<close>, the identifier functions of \<open>private/ipc/ipc.go\<close>
  and \<open>private/eip712\<close>.

  A CID is its binary form (the value of \<open>Cid.Bytes()\<close>). The CID and multihash libraries and
  go-ethereum are parameters (\<open>cid_lib\<close>, \<open>eth_lib\<close>); \<open>cid_laws\<close> states what the
  documentation says of version-1 dag-pb CIDs with SHA-256 hashes, the only ones this program makes,
  and \<open>ecdsa_laws\<close> that a signature recovers to its signer.
\<close>

section \<open>CIDs (private/cids/cids.go)\<close>

type_synonym cid = "byte list"

record cid_prefix =
  pre_Version :: nat
  pre_Codec :: nat
  pre_MhType :: nat

record cid_lib =
  cid_Decode :: "string \<Rightarrow> cid outcome"
  cid_Cast :: "byte list \<Rightarrow> cid outcome"
  cid_String :: "cid \<Rightarrow> string"
  cid_Prefix :: "cid \<Rightarrow> cid_prefix"
  multihash_Sum :: "byte list \<Rightarrow> nat \<Rightarrow> byte list outcome"
  NewCidV0 :: "byte list \<Rightarrow> cid outcome"
  NewCidV1 :: "nat \<Rightarrow> byte list \<Rightarrow> cid outcome"

definition calculateStandardCID :: "cid_lib \<Rightarrow> cid \<Rightarrow> byte list \<Rightarrow> cid outcome" where
  "calculateStandardCID lib c data =
     (let pre = cid_Prefix lib c in
      obind (map_err (\<lambda>e. ErrWrap ''failed to create multihash: '' e []) (multihash_Sum lib data (pre_MhType pre)))
        (\<lambda>mh. if pre_Version pre = 0 then NewCidV0 lib mh
               else if pre_Version pre = 1 then NewCidV1 lib (pre_Codec pre) mh
               else Err (ErrNew (''unsupported CID version: '' @ format_int (int (pre_Version pre))))))"

definition Verify_cid :: "cid_lib \<Rightarrow> cid \<Rightarrow> byte list \<Rightarrow> unit outcome" where
  "Verify_cid lib c data =
     obind (calculateStandardCID lib c data) (\<lambda>calculated.
       if calculated \<noteq> c
       then Err (ErrNew (''CID mismatch: provided '' @ cid_String lib c @ '', calculated '' @
              cid_String lib calculated))
       else Ok ())"

definition VerifyRaw :: "cid_lib \<Rightarrow> string \<Rightarrow> byte list \<Rightarrow> unit outcome" where
  "VerifyRaw lib providedCID data =
     obind (map_err (\<lambda>e. ErrWrap ''failed to decode provided CID: '' e []) (cid_Decode lib providedCID))
       (\<lambda>parsed. Verify_cid lib parsed data)"

definition cidPrefix :: "byte list" where "cidPrefix = [1, 112, 18, 32]"

definition FromByteArrayCID :: "cid_lib \<Rightarrow> byte list \<Rightarrow> cid outcome" where
  "FromByteArrayCID lib data = cid_Cast lib (cidPrefix @ data)"

text \<open>The CID of bytes hashed with SHA-256, and what is kept of it on chain.\<close>

definition sha256_cid :: "prims \<Rightarrow> byte list \<Rightarrow> cid" where
  "sha256_cid P data = cidPrefix @ sha256_sum P data"

definition strip_prefix :: "cid \<Rightarrow> byte list" where
  "strip_prefix c = drop 4 c"

definition cid_laws :: "cid_lib \<Rightarrow> prims \<Rightarrow> bool" where
  "cid_laws lib P \<longleftrightarrow>
     (\<forall>h. length h = 32 \<longrightarrow>
        cid_Prefix lib (cidPrefix @ h) = \<lparr>pre_Version = 1, pre_Codec = 112, pre_MhType = 18\<rparr> \<and>
        cid_Cast lib (cidPrefix @ h) = Ok (cidPrefix @ h)) \<and>
     (\<forall>data. multihash_Sum lib data 18 = Ok ([18, 32] @ sha256_sum P data)) \<and>
     (\<forall>mh. length mh = 34 \<longrightarrow> NewCidV1 lib 112 mh = Ok ([1, 112] @ mh))"

lemma length_sha256_cid [simp]: "length (sha256_cid P data) = 36"
  by (simp add: sha256_cid_def cidPrefix_def)

lemma Verify_cid_iff:
  assumes "cid_laws lib P" and "length h = 32"
  shows "Verify_cid lib (cidPrefix @ h) data = Ok () \<longleftrightarrow> h = sha256_sum P data"
    and "Verify_cid lib (cidPrefix @ h) data \<noteq> Panic"
  using assms by (auto simp: cid_laws_def Verify_cid_def calculateStandardCID_def cidPrefix_def)

lemma FromByteArrayCID_stripped:
  assumes "cid_laws lib P" and "length h = 32"
  shows "FromByteArrayCID lib h = Ok (cidPrefix @ h)" and "strip_prefix (cidPrefix @ h) = h"
  using assms by (simp_all add: cid_laws_def FromByteArrayCID_def strip_prefix_def cidPrefix_def)

text \<open>A library that fulfils the laws, for the examples.\<close>

definition sample_cid_lib :: "prims \<Rightarrow> cid_lib" where
  "sample_cid_lib P = \<lparr>
     cid_Decode = (\<lambda>s. Ok (bytes_of s)), cid_Cast = Ok, cid_String = string_of,
     cid_Prefix = (\<lambda>c. \<lparr>pre_Version = 1, pre_Codec = 112, pre_MhType = 18\<rparr>),
     multihash_Sum = (\<lambda>data t. Ok ([18, 32] @ sha256_sum P data)),
     NewCidV0 = (\<lambda>mh. Ok mh), NewCidV1 = (\<lambda>codec mh. Ok ([1, of_nat codec] @ mh))\<rparr>"

lemma sample_cid_laws: "cid_laws (sample_cid_lib P) P"
  by (simp add: cid_laws_def sample_cid_lib_def)

section \<open>go-ethereum\<close>

type_synonym eip_types = "string \<rightharpoonup> (string \<times> string) list"

datatype eip_value = VBytes "byte list" | VBig int

record typed_domain =
  td_Name :: string
  td_Version :: string
  td_ChainId :: int
  td_VerifyingContract :: string

record typed_data =
  tdata_Types :: eip_types
  tdata_PrimaryType :: string
  tdata_Domain :: typed_domain
  tdata_Message :: "string \<rightharpoonup> eip_value"

record 'k eth_lib =
  TypedDataAndHash :: "typed_data \<Rightarrow> byte list outcome"
  crypto_Sign :: "byte list \<Rightarrow> 'k \<Rightarrow> byte list outcome"
  Ecrecover :: "byte list \<Rightarrow> byte list \<Rightarrow> byte list outcome"
  PubkeyToAddress :: "byte list \<Rightarrow> byte list outcome"
  Keccak256 :: "byte list \<Rightarrow> byte list"
  HexToAddress :: "string \<Rightarrow> byte list"

section \<open>Typed-data signatures (private/eip712/eip712.go)\<close>

definition eip712DomainType :: "(string \<times> string) list" where
  "eip712DomainType =
     [(''name'', ''string''), (''version'', ''string''), (''chainId'', ''uint256''),
      (''verifyingContract'', ''address'')]"

definition typed_data_of ::
  "typed_domain \<Rightarrow> string \<Rightarrow> eip_types \<Rightarrow> (string \<rightharpoonup> eip_value) \<Rightarrow> typed_data" where
  "typed_data_of domain primaryType dataTypes dataMessage =
     \<lparr>tdata_Types = dataTypes(''EIP712Domain'' \<mapsto> eip712DomainType), tdata_PrimaryType = primaryType,
      tdata_Domain = domain, tdata_Message = dataMessage\<rparr>"

text \<open>\<open>signature[64] += 27\<close> and \<open>-= 27\<close>, on a byte and with the bounds check.\<close>

definition adjust_v :: "byte \<Rightarrow> byte list \<Rightarrow> byte list outcome" where
  "adjust_v d signature =
     (if 64 < length signature then Ok (signature[64 := signature ! 64 + d]) else Panic)"

definition Sign ::
  "'k eth_lib \<Rightarrow> 'k \<Rightarrow> typed_domain \<Rightarrow> string \<Rightarrow> eip_types \<Rightarrow> (string \<rightharpoonup> eip_value) \<Rightarrow> byte list outcome" where
  "Sign lib privateKey domain primaryType dataTypes dataMessage =
     obind (TypedDataAndHash lib (typed_data_of domain primaryType dataTypes dataMessage)) (\<lambda>digestHash.
     obind (map_err (\<lambda>e. ErrWrap ''error signing hash: '' e []) (crypto_Sign lib digestHash privateKey))
       (\<lambda>signature. adjust_v 27 signature))"

definition RecoverSignerAddress ::
  "'k eth_lib \<Rightarrow> byte list \<Rightarrow> typed_domain \<Rightarrow> string \<Rightarrow> eip_types \<Rightarrow> (string \<rightharpoonup> eip_value) \<Rightarrow> byte list outcome" where
  "RecoverSignerAddress lib signature domain primaryType dataTypes dataMessage =
     obind (TypedDataAndHash lib (typed_data_of domain primaryType dataTypes dataMessage)) (\<lambda>digestHash.
     obind (adjust_v (- 27) signature) (\<lambda>sigCopy.
     obind (map_err (\<lambda>e. ErrWrap ''error recovering public key: '' e []) (Ecrecover lib digestHash sigCopy))
       (\<lambda>pubKey. map_err (\<lambda>e. ErrWrap ''error unmarshaling public key: '' e []) (PubkeyToAddress lib pubKey))))"

section \<open>Identifiers and block signatures (private/ipc/ipc.go)\<close>

record StorageData =
  sd_ChunkCID :: "byte list"
  sd_BlockCID :: "byte list"
  sd_ChunkIndex :: int
  sd_BlockIndex :: int
  sd_NodeID :: "byte list"
  sd_Nonce :: int
  sd_Deadline :: int
  sd_BucketID :: "byte list"

definition GenerateNonce :: "rand_reader \<Rightarrow> int outcome" where
  "GenerateNonce rnd = obind (read_full rnd 32) (\<lambda>b. Ok (int (be_decode b)))"

definition CalculateFileID :: "'k eth_lib \<Rightarrow> byte list \<Rightarrow> string \<Rightarrow> byte list" where
  "CalculateFileID lib bucketID name = Keccak256 lib (bucketID @ bytes_of name)"

definition CalculateBucketID :: "'k eth_lib \<Rightarrow> string \<Rightarrow> string \<Rightarrow> byte list" where
  "CalculateBucketID lib bucketName address =
     Keccak256 lib (bytes_of bucketName @ HexToAddress lib address)"

definition storageDataTypes :: eip_types where
  "storageDataTypes = [''StorageData'' \<mapsto>
     [(''chunkCID'', ''bytes''), (''blockCID'', ''bytes32''), (''chunkIndex'', ''uint256''),
      (''blockIndex'', ''uint8''), (''nodeId'', ''bytes32''), (''nonce'', ''uint256''),
      (''deadline'', ''uint256''), (''bucketId'', ''bytes32'')]]"

definition storage_message :: "StorageData \<Rightarrow> (string \<rightharpoonup> eip_value)" where
  "storage_message d =
     [''chunkCID'' \<mapsto> VBytes (sd_ChunkCID d), ''blockCID'' \<mapsto> VBytes (sd_BlockCID d),
      ''chunkIndex'' \<mapsto> VBig (sd_ChunkIndex d), ''blockIndex'' \<mapsto> VBig (sd_BlockIndex d),
      ''nodeId'' \<mapsto> VBytes (sd_NodeID d), ''nonce'' \<mapsto> VBig (sd_Nonce d),
      ''deadline'' \<mapsto> VBig (sd_Deadline d), ''bucketId'' \<mapsto> VBytes (sd_BucketID d)]"

definition SignBlock :: "'k eth_lib \<Rightarrow> 'k \<Rightarrow> string \<Rightarrow> int \<Rightarrow> StorageData \<Rightarrow> byte list outcome" where
  "SignBlock lib privateKey storageAddress chainId data =
     Sign lib privateKey
       \<lparr>td_Name = ''Storage'', td_Version = ''1'', td_ChainId = chainId, td_VerifyingContract = storageAddress\<rparr>
       ''StorageData'' storageDataTypes (storage_message data)"

section \<open>What the code relies on\<close>

definition ecdsa_laws :: "'k eth_lib \<Rightarrow> ('k \<Rightarrow> byte list) \<Rightarrow> bool" where
  "ecdsa_laws lib address_of \<longleftrightarrow>
     (\<forall>d k s. crypto_Sign lib d k = Ok s \<longrightarrow>
        length s = 65 \<and> (\<exists>pub. Ecrecover lib d s = Ok pub \<and> PubkeyToAddress lib pub = Ok (address_of k)))"

lemma adjust_v_inverse: "adjust_v d s = Ok s' \<Longrightarrow> adjust_v (- d) s' = Ok s"
  by (auto simp: adjust_v_def split: if_splits)

lemma storage_message_inj: "storage_message d = storage_message d' \<Longrightarrow> d = d'"
proof -
  assume eq: "storage_message d = storage_message d'"
  have "storage_message d k = storage_message d' k" for k using eq by simp
  from this [of "''chunkCID''"] this [of "''blockCID''"] this [of "''chunkIndex''"] this [of "''blockIndex''"]
    this [of "''nodeId''"] this [of "''nonce''"] this [of "''deadline''"] this [of "''bucketId''"]
  show "d = d'" by (simp add: storage_message_def)
qed

section \<open>Properties\<close>

text \<open>A block is checked against what the chain stores of its CID: rebuilding the CID from the 32
  stored bytes and verifying data against it succeeds exactly for data with that SHA-256 digest, and
  the stored bytes are those the CID of the data was stripped to.\<close>

theorem stored_cid_verifies:
  assumes "cid_laws lib P" and "length stored = 32"
  shows "(obind (FromByteArrayCID lib stored) (\<lambda>c. Verify_cid lib c data) = Ok ()) =
      (sha256_sum P data = stored) \<and>
    FromByteArrayCID lib (strip_prefix (sha256_cid P data)) = Ok (sha256_cid P data)"
  using assms FromByteArrayCID_stripped [OF assms(1)] Verify_cid_iff [OF assms]
  by (auto simp: sha256_cid_def)

theorem stored_cid_verifies_witness:
  "(obind (FromByteArrayCID (sample_cid_lib sample_prims) (sha256_sum sample_prims [1, 2]))
      (\<lambda>c. Verify_cid (sample_cid_lib sample_prims) c [1, 2]) = Ok ()) \<and>
   FromByteArrayCID (sample_cid_lib sample_prims) (strip_prefix (sha256_cid sample_prims [1, 2])) =
     Ok (sha256_cid sample_prims [1, 2])"
  using stored_cid_verifies [OF sample_cid_laws, of "sha256_sum sample_prims [1, 2]" sample_prims "[1, 2]"]
  by simp

text \<open>C39: A block signature made by \<open>SignBlock\<close> is 65 bytes and recovers, under the storage domain
  and the same block data, to the address of the signing key; and two different blocks are never
  signed as the same typed data.\<close>

theorem sign_block_recovers:
  assumes "ecdsa_laws lib address_of" and "SignBlock lib key contract chain d = Ok s"
  shows "length s = 65 \<and>
    RecoverSignerAddress lib s
      \<lparr>td_Name = ''Storage'', td_Version = ''1'', td_ChainId = chain, td_VerifyingContract = contract\<rparr>
      ''StorageData'' storageDataTypes (storage_message d) = Ok (address_of key) \<and>
    (\<forall>d'. storage_message d' = storage_message d \<longrightarrow> d' = d)"
proof -
  let ?td = "typed_data_of \<lparr>td_Name = ''Storage'', td_Version = ''1'', td_ChainId = chain, td_VerifyingContract = contract\<rparr>
      ''StorageData'' storageDataTypes (storage_message d)"
  obtain h s0 where h: "TypedDataAndHash lib ?td = Ok h" and s0: "crypto_Sign lib h key = Ok s0"
    and s: "adjust_v 27 s0 = Ok s"
    using assms(2) by (auto simp: SignBlock_def Sign_def obind_Ok_iff map_err_Ok_iff)
  obtain pub where pub: "length s0 = 65" "Ecrecover lib h s0 = Ok pub" "PubkeyToAddress lib pub = Ok (address_of key)"
    using assms(1) s0 unfolding ecdsa_laws_def by blast
  have "length s = 65" using s pub(1) by (auto simp: adjust_v_def)
  then show ?thesis
    using h pub adjust_v_inverse [OF s] storage_message_inj by (simp add: RecoverSignerAddress_def)
qed

definition sample_eth_lib :: "byte eth_lib" where
  "sample_eth_lib = \<lparr>
     TypedDataAndHash = (\<lambda>_. Ok [3]), crypto_Sign = (\<lambda>d k. Ok (replicate 64 k @ [1])),
     Ecrecover = (\<lambda>d s. Ok (take 20 s)), PubkeyToAddress = Ok,
     Keccak256 = sha256_sum sample_prims, HexToAddress = (\<lambda>s. replicate 20 0)\<rparr>"

lemma sample_ecdsa_laws: "ecdsa_laws sample_eth_lib (replicate 20)"
  by (simp add: ecdsa_laws_def sample_eth_lib_def)

theorem sign_block_recovers_witness:
  "\<exists>s d. SignBlock sample_eth_lib 5 ''0xab'' 1 d = Ok s \<and> length s = 65 \<and>
    RecoverSignerAddress sample_eth_lib s
      \<lparr>td_Name = ''Storage'', td_Version = ''1'', td_ChainId = 1, td_VerifyingContract = ''0xab''\<rparr>
      ''StorageData'' storageDataTypes (storage_message d) = Ok (replicate 20 5)"
proof -
  define d where "d = \<lparr>sd_ChunkCID = [1], sd_BlockCID = [2], sd_ChunkIndex = 0, sd_BlockIndex = 1,
    sd_NodeID = [3], sd_Nonce = 4, sd_Deadline = 9, sd_BucketID = [7]\<rparr>"
  have "SignBlock sample_eth_lib 5 ''0xab'' 1 d = Ok (replicate 64 5 @ [28])"
    by (simp add: SignBlock_def Sign_def sample_eth_lib_def adjust_v_def list_update_append nth_append)
  from sign_block_recovers [OF sample_ecdsa_laws this] this show ?thesis by blast
qed

definition keccak_collision :: "'k eth_lib \<Rightarrow> byte list \<Rightarrow> byte list \<Rightarrow> bool" where
  "keccak_collision lib x y \<longleftrightarrow> x \<noteq> y \<and> Keccak256 lib x = Keccak256 lib y"

text \<open>Equal identifiers mean equal objects or a Keccak collision: file identifiers of buckets whose
  identifiers have the same length, and bucket identifiers (whose owner address has a fixed length),
  determine bucket and name, respectively name and owner, unless just these two inputs collide.\<close>

theorem identifiers_distinct:
  assumes "length b = length b'" and "length (HexToAddress lib a) = length (HexToAddress lib a')"
  shows "(CalculateFileID lib b n = CalculateFileID lib b' n' \<longrightarrow>
      (b = b' \<and> n = n') \<or> keccak_collision lib (b @ bytes_of n) (b' @ bytes_of n')) \<and>
    (CalculateBucketID lib m a = CalculateBucketID lib m' a' \<longrightarrow>
      (m = m' \<and> HexToAddress lib a = HexToAddress lib a') \<or>
      keccak_collision lib (bytes_of m @ HexToAddress lib a) (bytes_of m' @ HexToAddress lib a'))"
proof -
  have inj: "bytes_of s = bytes_of s' \<Longrightarrow> s = s'" for s s' by (metis string_of_bytes_of)
  show ?thesis
    using assms inj append_eq_append_conv [of "HexToAddress lib a" "HexToAddress lib a'" "bytes_of m" "bytes_of m'"]
    by (auto simp: CalculateFileID_def CalculateBucketID_def keccak_collision_def)
qed

theorem identifiers_distinct_witness:
  "CalculateFileID (sample_eth_lib\<lparr>Keccak256 := \<lambda>x. x\<rparr>) [1] ''a'' \<noteq>
   CalculateFileID (sample_eth_lib\<lparr>Keccak256 := \<lambda>x. x\<rparr>) [2] ''a''"
proof
  let ?lib = "sample_eth_lib\<lparr>Keccak256 := \<lambda>x. x\<rparr>"
  assume "CalculateFileID ?lib [1] ''a'' = CalculateFileID ?lib [2] ''a''"
  with identifiers_distinct [of "[1]" "[2]" ?lib "''x''" "''x''" "''a''" "''a''"] show False by (auto simp: keccak_collision_def)
qed

end
