(* ===== verification/IpcClient.thy ===== *)
theory IpcClient
  imports Actions Ids
begin

text \<open>
  The rest of \<open>private/ipc\<close> and \<open>private/httpext\<close>: dialling, deployment and upgrade of the
  contracts, waiting for transactions, batched JSON-RPC, decoding of upload transactions, and ranged
  HTTP downloads.

  The Ethereum client, the contract bindings, the ABI decoder and the HTTP client are parameters.
  Calls that change the chain are \<open>act\<close>s on its state. Addresses are byte lists.
\<close>

section \<open>Configuration and dialling (client.go)\<close>

record Config =
  DialURI :: string
  PrivateKey :: string
  StorageContractAddress :: string
  AccessContractAddress :: string

definition DefaultConfig :: Config where
  "DefaultConfig = \<lparr>DialURI = [], PrivateKey = [], StorageContractAddress = [], AccessContractAddress = []\<rparr>"

record ContractsAddresses =
  addr_Token :: string
  addr_StorageImpl :: string
  addr_Storage :: string
  addr_AccessManager :: string

definition no_addresses :: ContractsAddresses where
  "no_addresses = \<lparr>addr_Token = [], addr_StorageImpl = [], addr_Storage = [], addr_AccessManager = []\<rparr>"

text \<open>The eth client, key, transactor and bound contract objects are values of the libraries.\<close>

record ('eth, 'auth, 'con) Client =
  cl_Storage :: "'con option"
  cl_AccessManager :: "'con option"
  cl_Auth :: "'auth option"
  cl_Eth :: "'eth option"
  cl_Addresses :: ContractsAddresses
  cl_chainID :: int

record receipt =
  rc_Status :: "64 word"

text \<open>Transactions are named by their hashes.\<close>

record ('s, 'eth, 'key, 'auth, 'con) chain_env =
  eth_Dial :: "string \<Rightarrow> ('s, 'eth) act"
  HexToECDSA :: "string \<Rightarrow> 'key outcome"
  eth_ChainID :: "'eth \<Rightarrow> ('s, int) act"
  NewKeyedTransactor :: "'key \<Rightarrow> int \<Rightarrow> 'auth outcome"
  ToAddress :: "string \<Rightarrow> byte list"
  AddressString :: "byte list \<Rightarrow> string"
  BindStorage :: "byte list \<Rightarrow> 'eth \<Rightarrow> 'con outcome"
  BindAccessManager :: "byte list \<Rightarrow> 'eth \<Rightarrow> 'con outcome"
  DeployAkaveToken :: "'auth \<Rightarrow> 'eth \<Rightarrow> ('s, byte list \<times> byte list \<times> 'con) act"
  DeployStorage :: "'auth \<Rightarrow> 'eth \<Rightarrow> ('s, byte list \<times> byte list) act"
  PackInitialize :: "byte list \<Rightarrow> byte list outcome"
  DeployProxy :: "'auth \<Rightarrow> 'eth \<Rightarrow> byte list \<Rightarrow> byte list \<Rightarrow> ('s, byte list \<times> byte list) act"
  MinterRole :: "'con \<Rightarrow> ('s, byte list) act"
  GrantRole :: "'con \<Rightarrow> 'auth \<Rightarrow> byte list \<Rightarrow> byte list \<Rightarrow> ('s, byte list) act"
  DeployAccessManager :: "'auth \<Rightarrow> 'eth \<Rightarrow> byte list \<Rightarrow> ('s, byte list \<times> byte list \<times> 'con) act"
  SetAccessManager :: "'con \<Rightarrow> 'auth \<Rightarrow> byte list \<Rightarrow> ('s, byte list) act"
  UpgradeToAndCall :: "'con \<Rightarrow> 'auth \<Rightarrow> byte list \<Rightarrow> byte list \<Rightarrow> ('s, byte list) act"
  wait_tx :: "byte list \<Rightarrow> ('s, unit) act"

definition Dial ::
  "('s, 'eth, 'key, 'auth, 'con) chain_env \<Rightarrow> Config \<Rightarrow> ('s, ('eth, 'auth, 'con) Client) act" where
  "Dial env config =
     abind (eth_Dial env (DialURI config)) (\<lambda>client.
     abind (alift (HexToECDSA env (PrivateKey config))) (\<lambda>privateKey.
     abind (eth_ChainID env client) (\<lambda>chainID.
     abind (alift (BindStorage env (ToAddress env (StorageContractAddress config)) client)) (\<lambda>storage.
     abind (alift (BindAccessManager env (ToAddress env (AccessContractAddress config)) client)) (\<lambda>accessManager.
     abind (alift (NewKeyedTransactor env privateKey chainID)) (\<lambda>auth.
     aret \<lparr>cl_Storage = Some storage, cl_AccessManager = Some accessManager, cl_Auth = Some auth,
           cl_Eth = Some client,
           cl_Addresses = no_addresses\<lparr>addr_Storage := StorageContractAddress config,
                                       addr_AccessManager := AccessContractAddress config\<rparr>,
           cl_chainID = chainID\<rparr>))))))"

definition DeployContracts ::
  "('s, 'eth, 'key, 'auth, 'con) chain_env \<Rightarrow> string \<Rightarrow> string \<Rightarrow> ('s, ('eth, 'auth, 'con) Client) act" where
  "DeployContracts env dialURI privateKeyHex =
     abind (eth_Dial env dialURI) (\<lambda>ethClient.
     abind (alift (HexToECDSA env privateKeyHex)) (\<lambda>privateKey.
     abind (eth_ChainID env ethClient) (\<lambda>chainID.
     abind (alift (NewKeyedTransactor env privateKey chainID)) (\<lambda>auth.
     abind (DeployAkaveToken env auth ethClient) (\<lambda>(tokenAddr, tx, token).
     abind (wait_tx env tx) (\<lambda>_.
     abind (DeployStorage env auth ethClient) (\<lambda>(storageImpl, tx).
     abind (wait_tx env tx) (\<lambda>_.
     abind (alift (PackInitialize env tokenAddr)) (\<lambda>initData.
     abind (DeployProxy env auth ethClient storageImpl initData) (\<lambda>(storageProxy, tx).
     abind (wait_tx env tx) (\<lambda>_.
     abind (alift (BindStorage env storageProxy ethClient)) (\<lambda>storage.
     abind (MinterRole env token) (\<lambda>minterRole.
     abind (GrantRole env token auth minterRole storageProxy) (\<lambda>tx.
     abind (wait_tx env tx) (\<lambda>_.
     abind (DeployAccessManager env auth ethClient storageProxy) (\<lambda>(accessAddress, tx, accessManager).
     abind (wait_tx env tx) (\<lambda>_.
     abind (SetAccessManager env storage auth accessAddress) (\<lambda>tx.
     abind (wait_tx env tx) (\<lambda>_.
     aret \<lparr>cl_Storage = Some storage, cl_AccessManager = Some accessManager, cl_Auth = Some auth,
           cl_Eth = Some ethClient,
           cl_Addresses = \<lparr>addr_Token = AddressString env tokenAddr, addr_StorageImpl = AddressString env storageImpl,
                           addr_Storage = AddressString env storageProxy,
                           addr_AccessManager = AddressString env accessAddress\<rparr>,
           cl_chainID = chainID\<rparr>)))))))))))))))))))"

definition UpgradeStorage ::
  "('s, 'eth, 'key, 'auth, 'con) chain_env \<Rightarrow> string \<Rightarrow> string \<Rightarrow> string \<Rightarrow> string \<Rightarrow> ('s, byte list) act" where
  "UpgradeStorage env dialURI privateKey proxyAddr callDataHex =
     abind (eth_Dial env dialURI) (\<lambda>ethClient.
     abind (alift (HexToECDSA env privateKey)) (\<lambda>key.
     abind (eth_ChainID env ethClient) (\<lambda>chainID.
     abind (alift (NewKeyedTransactor env key chainID)) (\<lambda>auth.
     abind (alift (BindStorage env (ToAddress env proxyAddr) ethClient)) (\<lambda>storageProxy.
     abind (DeployStorage env auth ethClient) (\<lambda>(newImplementation, deployTx).
     abind (wait_tx env deployTx) (\<lambda>_.
     abind (alift (if callDataHex \<noteq> [] then hex_decode callDataHex else Ok [])) (\<lambda>callData.
     abind (UpgradeToAndCall env storageProxy auth newImplementation callData) (\<lambda>upgradeTx.
     abind (wait_tx env upgradeTx) (\<lambda>_.
     aret newImplementation))))))))))"

text \<open>\<open>TestDeployListPolicy\<close>: deploys a policy and initialises it for the user.\<close>

definition TestDeployListPolicy ::
  "('s, byte list \<times> 'con) act \<Rightarrow> ('con \<Rightarrow> byte list \<Rightarrow> ('s, byte list) act) \<Rightarrow>
   (byte list \<Rightarrow> ('s, unit) act) \<Rightarrow> byte list \<Rightarrow> ('s, 'con) act" where
  "TestDeployListPolicy deploy initialize wait user =
     abind deploy (\<lambda>(tx, listPolicy).
     abind (wait tx) (\<lambda>_.
     abind (initialize listPolicy user) (\<lambda>tx.
     abind (wait tx) (\<lambda>_. aret listPolicy))))"

record BlockInfo =
  bi_Number :: "64 word"
  bi_Time :: "64 word"
  bi_Hash :: "byte list"

record block_header =
  hd_Number :: int
  hd_Time :: "64 word"
  hd_Hash :: "byte list"

definition LatestBlockNumber ::
  "('s, 64 word) act \<Rightarrow> (64 word \<Rightarrow> ('s, block_header) act) \<Rightarrow> ('s, BlockInfo) act" where
  "LatestBlockNumber blockNumber headerByNumber =
     abind blockNumber (\<lambda>blockNum.
     abind (headerByNumber blockNum) (\<lambda>header.
     aret \<lparr>bi_Number = of_int (hd_Number header), bi_Time = hd_Time header, bi_Hash = hd_Hash header\<rparr>))"

section \<open>Waiting for a transaction (client.go)\<close>

definition NotFound :: go_error where "NotFound = ErrNew ''not found''"

text \<open>
  What the loop takes from outside: the answer to the query number \<open>k\<close> (0 before the loop) and
  whether the context was done when the loop waited for its tick \<open>k\<close>. \<open>None\<close> as a result
  means that it waits forever.
\<close>

record tx_env =
  receipt_at :: "nat \<Rightarrow> receipt outcome"
  tx_ctx_done :: "nat \<Rightarrow> go_error option"

definition receipt_result :: "receipt \<Rightarrow> unit outcome" where
  "receipt_result r = (if rc_Status r = 1 then Ok () else Err (ErrNew ''transaction failed''))"

partial_function (option) wait_loop :: "tx_env \<Rightarrow> nat \<Rightarrow> unit outcome option" where
  "wait_loop env k =
     (case tx_ctx_done env k of
        Some e \<Rightarrow> Some (Err e)
      | None \<Rightarrow>
          (case receipt_at env k of
             Ok r \<Rightarrow> Some (receipt_result r)
           | Err e \<Rightarrow> if \<not> err_is e NotFound then Some (Err e) else wait_loop env (Suc k)
           | Panic \<Rightarrow> Some Panic))"

definition WaitForTx :: "tx_env \<Rightarrow> unit outcome option" where
  "WaitForTx env =
     (case receipt_at env 0 of
        Ok r \<Rightarrow> Some (receipt_result r)
      | Err e \<Rightarrow> if \<not> err_is e NotFound then Some (Err e) else wait_loop env 1
      | Panic \<Rightarrow> Some Panic)"

section \<open>Batched requests (batch_client.go, block_parser.go)\<close>

record BatchReceiptRequest =
  brq_Hash :: "byte list"
  brq_Key :: string

record BatchReceiptResponse =
  brs_Receipt :: "receipt option"
  brs_Error :: "go_error option"
  brs_Key :: string

text \<open>
  The answer to a batch element: an error or what was decoded into its result; a receipt that the
  node does not know decodes to nil.
\<close>

definition receipt_response :: "BatchReceiptRequest \<Rightarrow> go_error + receipt option \<Rightarrow> BatchReceiptResponse" where
  "receipt_response req elem =
     (case elem of
        Inl e \<Rightarrow> \<lparr>brs_Receipt = None, brs_Error = Some e, brs_Key = brq_Key req\<rparr>
      | Inr (Some r) \<Rightarrow> \<lparr>brs_Receipt = Some r, brs_Error = None, brs_Key = brq_Key req\<rparr>
      | Inr None \<Rightarrow> \<lparr>brs_Receipt = None, brs_Error = Some NotFound, brs_Key = brq_Key req\<rparr>)"

definition GetTransactionReceiptsBatch ::
  "(byte list list \<Rightarrow> ('s, (go_error + receipt option) list) act) \<Rightarrow> BatchReceiptRequest list \<Rightarrow>
   ('s, BatchReceiptResponse list) act" where
  "GetTransactionReceiptsBatch batchCall requests =
     abind (batchCall (map brq_Hash requests)) (\<lambda>elems.
       aret (map2 receipt_response requests elems))"

text \<open>The JSON of a block, as the decoder gives it.\<close>

record ('hdr, 'tx, 'wd) rpc_block =
  rb_Transactions :: "'tx list"
  rb_Uncles :: "byte list list"
  rb_Withdrawals :: "'wd list"

record ('hdr, 'tx, 'wd) eth_block =
  eb_Header :: 'hdr
  eb_Transactions :: "'tx list"
  eb_UncleRoots :: "byte list list"
  eb_Withdrawals :: "'wd list"

definition BlockFromJSON ::
  "('json \<Rightarrow> 'hdr option outcome) \<Rightarrow> ('json \<Rightarrow> ('hdr, 'tx, 'wd) rpc_block outcome) \<Rightarrow> 'json \<Rightarrow>
   ('hdr, 'tx, 'wd) eth_block outcome" where
  "BlockFromJSON decodeHeader decodeBody raw =
     obind (decodeHeader raw) (\<lambda>head.
       case head of
         None \<Rightarrow> Err NotFound
       | Some h \<Rightarrow>
           obind (decodeBody raw) (\<lambda>body.
             Ok \<lparr>eb_Header = h, eb_Transactions = rb_Transactions body,
                 eb_UncleRoots = rb_Uncles body, eb_Withdrawals = rb_Withdrawals body\<rparr>))"

record 'blk BatchBlockResponse =
  bbr_BlockNumber :: int
  bbr_Block :: "'blk option"
  bbr_Error :: "go_error option"

definition block_response ::
  "('json \<Rightarrow> 'blk outcome) \<Rightarrow> int \<Rightarrow> go_error + 'json \<Rightarrow> 'blk BatchBlockResponse outcome" where
  "block_response parse n elem =
     (case (case elem of Inl e \<Rightarrow> Err e | Inr raw \<Rightarrow> parse raw) of
        Ok b \<Rightarrow> Ok \<lparr>bbr_BlockNumber = n, bbr_Block = Some b, bbr_Error = None\<rparr>
      | Err e \<Rightarrow> Ok \<lparr>bbr_BlockNumber = n, bbr_Block = None, bbr_Error = Some e\<rparr>
      | Panic \<Rightarrow> Panic)"

definition GetBlocksBatch ::
  "(int list \<Rightarrow> ('s, (go_error + 'json) list) act) \<Rightarrow> ('json \<Rightarrow> 'blk outcome) \<Rightarrow> int list \<Rightarrow>
   ('s, 'blk BatchBlockResponse list) act" where
  "GetBlocksBatch batchCall parse blockNumbers =
     abind (batchCall blockNumbers) (\<lambda>elems.
       alift (omap (\<lambda>(n, elem). block_response parse n elem) (zip blockNumbers elems)))"

section \<open>Decoding upload transactions (transactiondata_parser.go)\<close>

definition contractMethodSignatureLen :: nat where "contractMethodSignatureLen = 4"

record AddChunkTransactionData =
  tx_CID :: cid
  tx_BucketID :: "byte list"
  tx_FileName :: string
  tx_EncodedSize :: "64 word"
  tx_BlockCIDs :: "cid list"
  tx_BlockSizes :: "64 word list"
  tx_Index :: "64 word"

record addFileChunkParams =
  pc_ChunkCID :: "byte list"
  pc_BucketID :: "byte list"
  pc_FileName :: string
  pc_EncodedChunkSize :: int
  pc_BlockCIDs :: "byte list list"
  pc_ChunkBlocksSizes :: "int list"
  pc_ChunkIndex :: int

record addFileChunksParams =
  ps_ChunkCIDs :: "byte list list"
  ps_BucketID :: "byte list"
  ps_FileName :: string
  ps_EncodedChunkSizes :: "int list"
  ps_ChunkBlocksCIDs :: "byte list list list"
  ps_ChunkBlocksSizes :: "int list list"
  ps_StartingChunkIndex :: int

text \<open>\<open>big.Int.Int64\<close> keeps the low 64 bits.\<close>

definition Int64 :: "int \<Rightarrow> 64 word" where
  "Int64 i = of_int i"

text \<open>\<open>xs[i]\<close>, with the run-time check.\<close>

definition index_go :: "'a list \<Rightarrow> nat \<Rightarrow> 'a outcome" where
  "index_go xs i = (if i < length xs then Ok (xs ! i) else Panic)"

text \<open>
  The loop over the block CIDs of a chunk; \<open>msg i\<close> is the text that names the block in errors.
\<close>

definition block_cids :: "cid_lib \<Rightarrow> (nat \<Rightarrow> string) \<Rightarrow> byte list list \<Rightarrow> cid list outcome" where
  "block_cids lib msg bs =
     omap (\<lambda>(i, b). map_err (\<lambda>e. ErrWrap (msg i) e []) (FromByteArrayCID lib b)) (enumerate 0 bs)"

text \<open>\<open>method.Inputs.Unpack\<close> and \<open>Copy\<close>; \<open>None\<close> if the ABI has no such method.\<close>

definition ParseAddChunkTx ::
  "cid_lib \<Rightarrow> (byte list \<Rightarrow> 'v outcome) option \<Rightarrow> ('v \<Rightarrow> addFileChunkParams outcome) \<Rightarrow> byte list \<Rightarrow>
   AddChunkTransactionData outcome" where
  "ParseAddChunkTx lib unpack copy txData =
     (if length txData < contractMethodSignatureLen then Err (ErrNew ''invalid transaction data length'')
      else
        case unpack of
          None \<Rightarrow> Err (ErrNew ''method addFileChunk not found in ABI'')
        | Some unpack' \<Rightarrow>
            obind (map_err (\<lambda>e. ErrWrap ''failed to unpack transaction data: '' e [])
                     (unpack' (drop contractMethodSignatureLen txData))) (\<lambda>v.
            obind (map_err (\<lambda>e. ErrWrap ''failed to parse transaction data: '' e []) (copy v)) (\<lambda>params.
            obind (map_err (\<lambda>e. ErrWrap ''invalid chunk CID: '' e []) (cid_Cast lib (pc_ChunkCID params))) (\<lambda>chunkCID.
            obind (block_cids lib (\<lambda>i. ''invalid block CID at index '' @ format_int (int i) @ '': '')
                     (pc_BlockCIDs params)) (\<lambda>blockCIDs.
            let blockSizes = map Int64 (pc_ChunkBlocksSizes params)
            in if length blockCIDs \<noteq> length blockSizes
               then Err (ErrNew ''mismatched block CIDs and sizes lengths'')
               else Ok \<lparr>tx_CID = chunkCID, tx_BucketID = pc_BucketID params, tx_FileName = pc_FileName params,
                        tx_EncodedSize = Int64 (pc_EncodedChunkSize params), tx_BlockCIDs = blockCIDs,
                        tx_BlockSizes = blockSizes, tx_Index = Int64 (pc_ChunkIndex params)\<rparr>)))))"

definition parse_chunk :: "cid_lib \<Rightarrow> addFileChunksParams \<Rightarrow> nat \<Rightarrow> AddChunkTransactionData outcome" where
  "parse_chunk lib params i =
     obind (index_go (ps_ChunkCIDs params) i) (\<lambda>rawCID.
     obind (map_err (\<lambda>e. ErrWrap (''invalid chunk CID at index '' @ format_int (int i) @ '': '') e [])
              (cid_Cast lib rawCID)) (\<lambda>chunkCID.
     obind (index_go (ps_ChunkBlocksCIDs params) i) (\<lambda>rawBlocks.
     obind (block_cids lib (\<lambda>j. ''invalid block CID at chunk '' @ format_int (int i) @ '', block '' @
              format_int (int j) @ '': '') rawBlocks) (\<lambda>blockCIDs.
     obind (index_go (ps_ChunkBlocksSizes params) i) (\<lambda>sizes.
     let blockSizes = map Int64 sizes
     in if length blockCIDs \<noteq> length blockSizes
        then Err (ErrNew (''mismatched block CIDs and sizes for chunk '' @ format_int (int i)))
        else
          obind (index_go (ps_EncodedChunkSizes params) i) (\<lambda>encodedSize.
          Ok \<lparr>tx_CID = chunkCID, tx_BucketID = ps_BucketID params, tx_FileName = ps_FileName params,
              tx_EncodedSize = Int64 encodedSize, tx_BlockCIDs = blockCIDs, tx_BlockSizes = blockSizes,
              tx_Index = Int64 (ps_StartingChunkIndex params) + of_nat i\<rparr>))))))"

definition ParseAddChunksTx ::
  "cid_lib \<Rightarrow> (byte list \<Rightarrow> 'v outcome) option \<Rightarrow> ('v \<Rightarrow> addFileChunksParams outcome) \<Rightarrow> byte list \<Rightarrow>
   AddChunkTransactionData list outcome" where
  "ParseAddChunksTx lib unpack copy txData =
     (if length txData < contractMethodSignatureLen then Err (ErrNew ''invalid transaction data length'')
      else
        case unpack of
          None \<Rightarrow> Err (ErrNew ''method addFileChunks not found in ABI'')
        | Some unpack' \<Rightarrow>
            obind (map_err (\<lambda>e. ErrWrap ''failed to unpack transaction data: '' e [])
                     (unpack' (drop contractMethodSignatureLen txData))) (\<lambda>v.
            obind (map_err (\<lambda>e. ErrWrap ''failed to parse transaction data: '' e []) (copy v)) (\<lambda>params.
            omap (parse_chunk lib params) [0..<length (ps_ChunkCIDs params)])))"

section \<open>Ranged downloads (private/httpext)\<close>

definition ErrTransient :: go_error where "ErrTransient = ErrNew ''transient error''"

record http_response =
  resp_StatusCode :: int
  resp_Body :: "byte list \<times> go_error option"
  resp_Close :: "go_error option"

text \<open>\<open>errors.Join\<close> of possibly nil errors.\<close>

definition errors_Join :: "go_error option list \<Rightarrow> go_error option" where
  "errors_Join es = (case List.map_filter id es of [] \<Rightarrow> None | xs \<Rightarrow> Some (ErrJoin xs))"

text \<open>The deferred close: its error is joined to the one returned.\<close>

definition close_body :: "http_response \<Rightarrow> 'a outcome \<Rightarrow> 'a outcome" where
  "close_body resp r =
     (case r of
        Ok x \<Rightarrow> (case errors_Join [None, resp_Close resp] of None \<Rightarrow> Ok x | Some e \<Rightarrow> Err e)
      | Err e \<Rightarrow> (case errors_Join [Some e, resp_Close resp] of None \<Rightarrow> Panic | Some e' \<Rightarrow> Err e')
      | Panic \<Rightarrow> Panic)"

definition range_header :: "64 word \<Rightarrow> 64 word \<Rightarrow> string" where
  "range_header offset stop = ''bytes='' @ format_int (sint offset) @ ''-'' @ format_int (sint stop)"

definition RangeDownload ::
  "(string \<Rightarrow> unit outcome) \<Rightarrow> (string \<Rightarrow> string \<Rightarrow> ('s, http_response) act) \<Rightarrow> string \<Rightarrow> 64 word \<Rightarrow> 64 word \<Rightarrow>
   ('s, byte list) act" where
  "RangeDownload newRequest http_Do url offset len =
     (if sint len \<le> 0 \<or> sint offset < 0
      then afail (ErrNew ''length must be positive and offset must be non-negative'')
      else
        let stop = offset + len - 1 in
        abind (amap_err (\<lambda>e. ErrWrap ''failed to create request: '' e []) (alift (newRequest url))) (\<lambda>_.
        abind (amap_err (\<lambda>e. ErrJoin [ErrTransient, ErrWrap ''request failed: '' e []])
                 (http_Do url (range_header offset stop))) (\<lambda>resp.
        alift (close_body resp
          (case resp_Body resp of (body, err) \<Rightarrow>
             if resp_StatusCode resp \<noteq> 206 \<and> resp_StatusCode resp \<noteq> 200
             then (let status = ErrNew (''download failed with status '' @ format_int (resp_StatusCode resp) @
                     '': '' @ string_of body)
                   in case errors_Join [err, Some status] of Some e \<Rightarrow> Err e | None \<Rightarrow> Panic)
             else
               (case err of
                  Some e \<Rightarrow> Err (ErrJoin [ErrTransient,
                    ErrWrap (''url '' @ url @ '', offset '' @ format_int (sint offset) @ '', end '' @
                      format_int (sint stop) @ '': '') e []])
                | None \<Rightarrow> Ok body))))))"

section \<open>Waiting\<close>

lemma wait_loop_skip:
  assumes "\<And>j. j < n \<Longrightarrow> \<exists>e. receipt_at env (k + j) = Err e \<and> err_is e NotFound \<and> tx_ctx_done env (k + j) = None"
  shows "wait_loop env k = wait_loop env (k + n)"
  using assms
proof (induction n arbitrary: k)
  case 0
  then show ?case by simp
next
  case (Suc n)
  obtain e where "receipt_at env k = Err e" "err_is e NotFound" "tx_ctx_done env k = None"
    using Suc.prems [of 0] by auto
  then have "wait_loop env k = wait_loop env (Suc k)" by (subst wait_loop.simps) simp
  also have "\<dots> = wait_loop env (Suc k + n)"
    by (rule Suc.IH) (use Suc.prems [of "Suc _"] in simp)
  finally show ?case by simp
qed

lemma wait_loop_never:
  assumes "wait_loop env k = Some r"
    and "\<And>j. k \<le> j \<Longrightarrow> \<exists>e. receipt_at env j = Err e \<and> err_is e NotFound \<and> tx_ctx_done env j = None"
  shows False
proof -
  have "wait_loop env k = Some r \<Longrightarrow>
      (\<forall>j \<ge> k. \<exists>e. receipt_at env j = Err e \<and> err_is e NotFound \<and> tx_ctx_done env j = None) \<longrightarrow> False" for k r
  proof (rule wait_loop.raw_induct [where P = "\<lambda>env k _. (\<forall>j \<ge> k. \<exists>e. receipt_at env j = Err e \<and>
      err_is e NotFound \<and> tx_ctx_done env j = None) \<longrightarrow> False", rotated])
    fix f and env :: tx_env and k r
    assume ih: "\<And>env k r. f env k = Some r \<Longrightarrow> (\<forall>j \<ge> k. \<exists>e. receipt_at env j = Err e \<and>
        err_is e NotFound \<and> tx_ctx_done env j = None) \<longrightarrow> False"
      and step: "(case tx_ctx_done env k of Some e \<Rightarrow> Some (Err e)
        | None \<Rightarrow> (case receipt_at env k of Ok r \<Rightarrow> Some (receipt_result r)
            | Err e \<Rightarrow> if \<not> err_is e NotFound then Some (Err e) else f env (Suc k)
            | Panic \<Rightarrow> Some Panic)) = Some r"
    show "(\<forall>j \<ge> k. \<exists>e. receipt_at env j = Err e \<and> err_is e NotFound \<and> tx_ctx_done env j = None) \<longrightarrow> False"
    proof
      assume all: "\<forall>j \<ge> k. \<exists>e. receipt_at env j = Err e \<and> err_is e NotFound \<and> tx_ctx_done env j = None"
      then obtain e where "receipt_at env k = Err e" "err_is e NotFound" "tx_ctx_done env k = None" by blast
      then have "f env (Suc k) = Some r" using step by simp
      from ih [OF this] all show False by simp
    qed
  qed
  with assms show False by blast
qed

section \<open>Parsing\<close>

lemma block_cids_Ok:
  assumes "cid_laws lib P" and "\<forall>b \<in> set bs. length b = 32"
  shows "block_cids lib msg bs = Ok (map (\<lambda>b. cidPrefix @ b) bs)"
proof -
  have "block_cids lib msg bs = Ok (map (\<lambda>(i, b). cidPrefix @ b) (enumerate 0 bs))"
    unfolding block_cids_def
    using assms by (intro omap_all_Ok) (auto simp: FromByteArrayCID_stripped in_set_enumerate_eq)
  also have "map (\<lambda>(i, b). cidPrefix @ b) (enumerate 0 bs) = map (\<lambda>b. cidPrefix @ b) bs"
    by (rule nth_equalityI) (auto simp: nth_enumerate_eq)
  finally show ?thesis .
qed

text \<open>The entries of a call as the contract accepts it: four lists of one length, block by block.\<close>

definition well_formed_chunks :: "cid_lib \<Rightarrow> addFileChunksParams \<Rightarrow> bool" where
  "well_formed_chunks lib ps \<longleftrightarrow>
     length (ps_ChunkBlocksCIDs ps) = length (ps_ChunkCIDs ps) \<and>
     length (ps_ChunkBlocksSizes ps) = length (ps_ChunkCIDs ps) \<and>
     length (ps_EncodedChunkSizes ps) = length (ps_ChunkCIDs ps) \<and>
     (\<forall>i < length (ps_ChunkCIDs ps).
        cid_Cast lib (ps_ChunkCIDs ps ! i) = Ok (ps_ChunkCIDs ps ! i) \<and>
        length (ps_ChunkBlocksCIDs ps ! i) = length (ps_ChunkBlocksSizes ps ! i) \<and>
        (\<forall>b \<in> set (ps_ChunkBlocksCIDs ps ! i). length b = 32))"

definition chunk_data :: "addFileChunksParams \<Rightarrow> nat \<Rightarrow> AddChunkTransactionData" where
  "chunk_data ps i =
     \<lparr>tx_CID = ps_ChunkCIDs ps ! i, tx_BucketID = ps_BucketID ps, tx_FileName = ps_FileName ps,
      tx_EncodedSize = Int64 (ps_EncodedChunkSizes ps ! i),
      tx_BlockCIDs = map (\<lambda>b. cidPrefix @ b) (ps_ChunkBlocksCIDs ps ! i),
      tx_BlockSizes = map Int64 (ps_ChunkBlocksSizes ps ! i),
      tx_Index = Int64 (ps_StartingChunkIndex ps) + of_nat i\<rparr>"

lemma parse_chunk_Ok:
  assumes "cid_laws lib P" and "well_formed_chunks lib ps" and "i < length (ps_ChunkCIDs ps)"
  shows "parse_chunk lib ps i = Ok (chunk_data ps i)"
  using assms
  by (simp add: parse_chunk_def index_go_def well_formed_chunks_def block_cids_Ok [OF assms(1)] chunk_data_def Let_def)

lemma omap_Panic_at:
  assumes "\<And>i. i < n \<Longrightarrow> \<exists>y. f i = Ok y" and "f n = Panic" and "n < m"
  shows "omap f [0..<m] = Panic"
proof -
  have "omap f [j..<m] = Panic" if "j \<le> n" for j
    using that
  proof (induction "n - j" arbitrary: j)
    case 0
    then have j: "j = n" by simp
    have "[n..<m] = n # [Suc n..<m]" using assms(3) by (simp add: upt_conv_Cons)
    then show ?case using assms(2) j by simp
  next
    case (Suc d)
    then have "omap f [Suc j..<m] = Panic" and j: "j < n" by simp_all
    moreover obtain y where "f j = Ok y" using assms(1) j by blast
    moreover have "[j..<m] = j # [Suc j..<m]" using j assms(3) by (simp add: upt_conv_Cons)
    ultimately show ?case by simp
  qed
  then show ?thesis by simp
qed

section \<open>Properties\<close>

text \<open>\<open>WaitForTx\<close> returns what the first query decides that is not answered by "not found":
  success for status 1, failure for any other status, or the error of the query, unless the context
  ends first; and if every query is answered by "not found" and the context never ends, it waits
  forever.\<close>

theorem wait_for_tx:
  assumes "\<forall>k<n. \<exists>e. receipt_at env k = Err e \<and> err_is e NotFound"
    and "\<forall>k<n. 0 < k \<longrightarrow> tx_ctx_done env k = None"
  shows "(receipt_at env n = Ok r \<and> (0 < n \<longrightarrow> tx_ctx_done env n = None) \<longrightarrow>
      WaitForTx env = Some (receipt_result r)) \<and>
    (receipt_at env n = Err e \<and> \<not> err_is e NotFound \<and> (0 < n \<longrightarrow> tx_ctx_done env n = None) \<longrightarrow>
      WaitForTx env = Some (Err e)) \<and>
    (0 < n \<and> tx_ctx_done env n = Some c \<longrightarrow> WaitForTx env = Some (Err c)) \<and>
    ((\<forall>k. (\<exists>e. receipt_at env k = Err e \<and> err_is e NotFound) \<and> tx_ctx_done env k = None) \<longrightarrow>
      WaitForTx env = None)"
proof -
  have loop: "WaitForTx env = wait_loop env n" if n: "0 < n"
  proof -
    obtain m where m: "n = Suc m" using n by (cases n) auto
    have "WaitForTx env = wait_loop env 1" using assms(1) n by (auto simp: WaitForTx_def)
    also have "\<dots> = wait_loop env (1 + m)"
      by (rule wait_loop_skip) (use assms m in auto)
    finally show ?thesis using m by simp
  qed
  show ?thesis
  proof (intro conjI impI)
    assume "receipt_at env n = Ok r \<and> (0 < n \<longrightarrow> tx_ctx_done env n = None)"
    then show "WaitForTx env = Some (receipt_result r)"
      using loop by (cases "n = 0") (auto simp: WaitForTx_def wait_loop.simps [of env n])
  next
    assume "receipt_at env n = Err e \<and> \<not> err_is e NotFound \<and> (0 < n \<longrightarrow> tx_ctx_done env n = None)"
    then show "WaitForTx env = Some (Err e)"
      using loop by (cases "n = 0") (auto simp: WaitForTx_def wait_loop.simps [of env n])
  next
    assume "0 < n \<and> tx_ctx_done env n = Some c"
    then show "WaitForTx env = Some (Err c)" using loop by (simp add: wait_loop.simps [of env n])
  next
    assume never: "\<forall>k. (\<exists>e. receipt_at env k = Err e \<and> err_is e NotFound) \<and> tx_ctx_done env k = None"
    then have "WaitForTx env = wait_loop env 1" by (auto simp: WaitForTx_def split: outcome.splits) (metis go_error.exhaust outcome.inject(2) outcome.distinct)+
    then show "WaitForTx env = None"
      using wait_loop_never [of env 1] never by (cases "wait_loop env 1") auto
  qed
qed

theorem wait_for_tx_witness:
  "WaitForTx \<lparr>receipt_at = (\<lambda>k. if k < 2 then Err NotFound else Ok \<lparr>rc_Status = 1\<rparr>), tx_ctx_done = \<lambda>_. None\<rparr> = Some (Ok ())"
  using wait_for_tx [of 2 "\<lparr>receipt_at = (\<lambda>k. if k < 2 then Err NotFound else Ok \<lparr>rc_Status = 1\<rparr>), tx_ctx_done = \<lambda>_. None\<rparr>"
      "\<lparr>rc_Status = 1\<rparr>"]
  by (simp add: receipt_result_def)

text \<open>C40: A well-formed \<open>addFileChunks\<close> transaction decodes to one entry per chunk, in order, with
  consecutive indices from the starting index, the full CIDs of its blocks and their sizes. The decoder
  does not compare the lengths of the outer arrays: when the array of block CIDs ends before the
  array of chunk CIDs, it panics.\<close>

theorem parse_chunks:
  assumes "cid_laws lib P" and "4 \<le> length txData"
    and "unpack (drop 4 txData) = Ok v" and "copy v = Ok ps"
  shows "(well_formed_chunks lib ps \<longrightarrow>
      ParseAddChunksTx lib (Some unpack) copy txData = Ok (map (chunk_data ps) [0..<length (ps_ChunkCIDs ps)])) \<and>
    (\<forall>qs n. well_formed_chunks lib qs \<and> n < length (ps_ChunkCIDs qs) \<and>
       ps = qs\<lparr>ps_ChunkBlocksCIDs := take n (ps_ChunkBlocksCIDs qs)\<rparr> \<longrightarrow>
       ParseAddChunksTx lib (Some unpack) copy txData = Panic)"
proof (intro conjI allI impI)
  have run: "ParseAddChunksTx lib (Some unpack) copy txData = omap (parse_chunk lib ps) [0..<length (ps_ChunkCIDs ps)]"
    using assms(2-) by (simp add: ParseAddChunksTx_def contractMethodSignatureLen_def)
  show "ParseAddChunksTx lib (Some unpack) copy txData = Ok (map (chunk_data ps) [0..<length (ps_ChunkCIDs ps)])"
    if "well_formed_chunks lib ps"
    unfolding run using parse_chunk_Ok [OF assms(1) that] by (intro omap_all_Ok) simp
  fix qs n
  assume h: "well_formed_chunks lib qs \<and> n < length (ps_ChunkCIDs qs) \<and>
       ps = qs\<lparr>ps_ChunkBlocksCIDs := take n (ps_ChunkBlocksCIDs qs)\<rparr>"
  have same: "ps_ChunkCIDs ps = ps_ChunkCIDs qs" "ps_BucketID ps = ps_BucketID qs" "ps_FileName ps = ps_FileName qs"
    "ps_EncodedChunkSizes ps = ps_EncodedChunkSizes qs" "ps_ChunkBlocksSizes ps = ps_ChunkBlocksSizes qs"
    "ps_StartingChunkIndex ps = ps_StartingChunkIndex qs" using h by simp_all
  have "parse_chunk lib ps i = parse_chunk lib qs i" if "i < n" for i
  proof -
    have "index_go (ps_ChunkBlocksCIDs ps) i = index_go (ps_ChunkBlocksCIDs qs) i"
      using that h by (simp add: index_go_def)
    then show ?thesis by (simp only: parse_chunk_def same)
  qed
  then have "\<exists>y. parse_chunk lib ps i = Ok y" if "i < n" for i
    using that h parse_chunk_Ok [OF assms(1), of qs i] by auto
  moreover have "parse_chunk lib ps n = Panic"
    using h by (auto simp: parse_chunk_def index_go_def well_formed_chunks_def)
  ultimately show "ParseAddChunksTx lib (Some unpack) copy txData = Panic"
    unfolding run using h by (intro omap_Panic_at [where n = n]) auto
qed

definition sample_chunks :: addFileChunksParams where
  "sample_chunks = \<lparr>ps_ChunkCIDs = [[1, 2]], ps_BucketID = [9], ps_FileName = ''f'', ps_EncodedChunkSizes = [40],
     ps_ChunkBlocksCIDs = [[replicate 32 7]], ps_ChunkBlocksSizes = [[64]], ps_StartingChunkIndex = 3\<rparr>"

theorem parse_chunks_witness:
  "ParseAddChunksTx (sample_cid_lib sample_prims) (Some Ok) (\<lambda>_. Ok sample_chunks) [0, 0, 0, 0, 5] =
     Ok [chunk_data sample_chunks 0]"
proof -
  have "well_formed_chunks (sample_cid_lib sample_prims) sample_chunks"
    by (simp add: well_formed_chunks_def sample_chunks_def sample_cid_lib_def)
  then show ?thesis
    using parse_chunks [OF sample_cid_laws, of "[0, 0, 0, 0, 5]" Ok "[5]" "\<lambda>_. Ok sample_chunks" sample_chunks sample_prims]
    by (simp add: sample_chunks_def)
qed

end
