(* ===== verification/Connection.thy ===== *)
theory Connection
  imports Actions
begin

text \<open>
  \<open>sdk/connection.go\<close>: the pool of gRPC connections, keyed by node address.

  The map is an association list whose order stands for the iteration order of Go's map.
  \<open>grpc.NewClient\<close> and \<open>conn.Close\<close> are parameters that act on the state of the world. \<open>get\<close>
  is split where its locks are: the lookup under the read lock, and the second lookup and the
  creation under the write lock. The step relation \<open>pool_step\<close> interleaves any number of callers.
\<close>

record 'c connectionPool =
  connections :: "(string \<times> 'c) list"

definition newConnectionPool :: "'c connectionPool" where
  "newConnectionPool = \<lparr>connections = []\<rparr>"

definition pool_lookup :: "'c connectionPool \<Rightarrow> string \<Rightarrow> 'c option" where
  "pool_lookup p addr = map_of (connections p) addr"

definition get_locked :: "(string \<Rightarrow> ('s, 'c) act) \<Rightarrow> string \<Rightarrow> ('c connectionPool \<times> 's, 'c) act" where
  "get_locked NewClient addr = (\<lambda>(p, s).
     case pool_lookup p addr of
       Some conn \<Rightarrow> (Ok conn, (p, s))
     | None \<Rightarrow>
         (case NewClient addr s of
            (Ok conn, s') \<Rightarrow> (Ok conn, (p\<lparr>connections := connections p @ [(addr, conn)]\<rparr>, s'))
          | (r, s') \<Rightarrow> (r, (p, s'))))"

definition get :: "(string \<Rightarrow> ('s, 'c) act) \<Rightarrow> string \<Rightarrow> ('c connectionPool \<times> 's, 'c) act" where
  "get NewClient addr = (\<lambda>(p, s).
     case pool_lookup p addr of
       Some conn \<Rightarrow> (Ok conn, (p, s))
     | None \<Rightarrow> get_locked NewClient addr (p, s))"

text \<open>The two clients wrap the connection; their closer is nil.\<close>

definition IPCClient ::
  "(string \<Rightarrow> ('s, 'c) act) \<Rightarrow> ('c \<Rightarrow> 'api) \<Rightarrow> string \<Rightarrow> ('c connectionPool \<times> 's, 'api) act" where
  "IPCClient NewClient NewIPCNodeAPIClient addr =
     abind (get NewClient addr) (\<lambda>conn. aret (NewIPCNodeAPIClient conn))"

definition ArchivalClient ::
  "(string \<Rightarrow> ('s, 'c) act) \<Rightarrow> ('c \<Rightarrow> 'arch) \<Rightarrow> string \<Rightarrow> ('c connectionPool \<times> 's, 'arch) act" where
  "ArchivalClient NewClient NewIPCArchivalAPIClient addr =
     abind (get NewClient addr) (\<lambda>conn. aret (NewIPCArchivalAPIClient conn))"

text \<open>
  \<open>close\<close>: every connection is closed and deleted, errors are collected in \<open>errList\<close> and
  printed with the \<open>%v\<close> format of a slice.
\<close>

fun close_all :: "('c \<Rightarrow> ('s, unit) act) \<Rightarrow> (string \<times> 'c) list \<Rightarrow> go_error list \<Rightarrow> ('s, go_error list) act" where
  "close_all Close [] errList = aret errList"
| "close_all Close ((addr, conn) # cs) errList = (\<lambda>s.
     case Close conn s of
       (Ok _, s') \<Rightarrow> close_all Close cs errList s'
     | (Err e, s') \<Rightarrow>
         close_all Close cs
           (errList @ [ErrWrap (''failed to close connection to '' @ addr @ '': '') e []]) s'
     | (Panic, s') \<Rightarrow> (Panic, s'))"

fun join_spaces :: "string list \<Rightarrow> string" where
  "join_spaces [] = []"
| "join_spaces [t] = t"
| "join_spaces (t # u # ts) = t @ '' '' @ join_spaces (u # ts)"

definition close_pool :: "('c \<Rightarrow> ('s, unit) act) \<Rightarrow> ('c connectionPool \<times> 's, unit) act" where
  "close_pool Close = (\<lambda>(p, s).
     case close_all Close (connections p) [] s of
       (Ok errList, s') \<Rightarrow>
         (if errList \<noteq> []
          then Err (ErrNew (''encountered errors while closing connections: ['' @
                 join_spaces (map err_text errList) @ '']''))
          else Ok (), (p\<lparr>connections := []\<rparr>, s'))
     | (Err e, s') \<Rightarrow> (Err e, (p, s'))
     | (Panic, s') \<Rightarrow> (Panic, (p, s')))"

section \<open>Concurrent callers\<close>

datatype 'c getter = Start string | Missed string | Got string "'c outcome"

inductive pool_step ::
  "(string \<Rightarrow> ('s, 'c) act) \<Rightarrow> 'c getter list \<times> 'c connectionPool \<times> 's \<Rightarrow>
   'c getter list \<times> 'c connectionPool \<times> 's \<Rightarrow> bool" for NewClient where
  hit: "i < length ts \<Longrightarrow> ts ! i = Start a \<Longrightarrow> pool_lookup p a = Some c \<Longrightarrow>
    pool_step NewClient (ts, p, s) (ts[i := Got a (Ok c)], p, s)"
| miss: "i < length ts \<Longrightarrow> ts ! i = Start a \<Longrightarrow> pool_lookup p a = None \<Longrightarrow>
    pool_step NewClient (ts, p, s) (ts[i := Missed a], p, s)"
| locked: "i < length ts \<Longrightarrow> ts ! i = Missed a \<Longrightarrow> get_locked NewClient a (p, s) = (r, (p', s')) \<Longrightarrow>
    pool_step NewClient (ts, p, s) (ts[i := Got a r], p', s')"

definition pool_inv :: "'c getter list \<Rightarrow> 'c connectionPool \<Rightarrow> bool" where
  "pool_inv ts p \<longleftrightarrow>
     distinct (map fst (connections p)) \<and>
     (\<forall>a c. Got a (Ok c) \<in> set ts \<longrightarrow> pool_lookup p a = Some c)"

lemma pool_inv_init: "pool_inv (map Start addrs) newConnectionPool"
  by (auto simp: pool_inv_def newConnectionPool_def)

lemma get_locked_result:
  assumes "get_locked NewClient a (p, s) = (r, (p', s'))"
  shows "(\<forall>b c. pool_lookup p b = Some c \<longrightarrow> pool_lookup p' b = Some c) \<and>
    (\<forall>c. r = Ok c \<longrightarrow> pool_lookup p' a = Some c) \<and>
    (distinct (map fst (connections p)) \<longrightarrow> distinct (map fst (connections p')))"
proof (cases "pool_lookup p a")
  case None
  then have fresh: "a \<notin> fst ` set (connections p)" by (simp add: pool_lookup_def map_of_eq_None_iff)
  show ?thesis
  proof (cases "fst (NewClient a s)")
    case (Ok c)
    then show ?thesis
      using assms None fresh
      by (cases "NewClient a s") (auto simp: get_locked_def pool_lookup_def map_add_def)
  qed (use assms None in \<open>cases "NewClient a s"; auto simp: get_locked_def\<close>)+
qed (use assms in \<open>auto simp: get_locked_def\<close>)

lemma pool_step_inv: "pool_step NewClient x y \<Longrightarrow> case x of (ts, p, s) \<Rightarrow> pool_inv ts p \<Longrightarrow>
  case y of (ts, p, s) \<Rightarrow> pool_inv ts p"
proof (induction rule: pool_step.induct)
  case (locked i ts a p s r p' s')
  note g = get_locked_result [OF locked(3)]
  show ?case
  proof -
    have "pool_lookup p' b = Some c" if "Got b (Ok c) \<in> set (ts[i := Got a r])" for b c
    proof -
      from that have "Got b (Ok c) = Got a r \<or> Got b (Ok c) \<in> set ts"
        by (metis in_set_conv_nth length_list_update nth_list_update_eq nth_list_update_neq)
      then show ?thesis using g locked.prems by (auto simp: pool_inv_def)
    qed
    then show ?thesis using g locked.prems by (auto simp: pool_inv_def)
  qed
next
  case (hit i ts a p c s)
  have "pool_lookup p b = Some d" if "Got b (Ok d) \<in> set (ts[i := Got a (Ok c)])" for b d
    using that hit set_update_subset_insert [of ts i "Got a (Ok c)"] by (auto simp: pool_inv_def)
  then show ?case using hit by (auto simp: pool_inv_def)
next
  case (miss i ts a p s)
  have "pool_lookup p b = Some d" if "Got b (Ok d) \<in> set (ts[i := Missed a])" for b d
    using that miss set_update_subset_insert [of ts i "Missed a"] by (auto simp: pool_inv_def)
  then show ?case using miss by (auto simp: pool_inv_def)
qed

lemma pool_steps_inv:
  "(pool_step NewClient)\<^sup>*\<^sup>* x y \<Longrightarrow> case x of (ts, p, s) \<Rightarrow> pool_inv ts p \<Longrightarrow>
   case y of (ts, p, s) \<Rightarrow> pool_inv ts p"
  by (induction rule: rtranclp_induct) (use pool_step_inv in blast)+

lemma close_all_Ok_length:
  "close_all Close cs errs s = (Ok errs', s') \<Longrightarrow> length errs \<le> length errs'"
  by (induction cs arbitrary: errs s) (fastforce split: prod.splits outcome.splits)+

text \<open>C27: However any number of concurrent calls of the pool interleave, two calls for the same address
  that succeed return the same connection, the pool never holds two connections for one address, and
  a later call for that address returns the pooled connection without dialling again. After
  closing, the pool is empty.\<close>

theorem pool_one_connection:
  assumes "(pool_step NewClient)\<^sup>*\<^sup>* (map Start addrs, newConnectionPool, s) (ts, p, s')"
    and "Got a (Ok c) \<in> set ts"
  shows "(\<forall>c'. Got a (Ok c') \<in> set ts \<longrightarrow> c' = c) \<and> distinct (map fst (connections p)) \<and>
    get NewClient a (p, s') = (Ok c, (p, s')) \<and>
    (\<forall>r p' s''. close_pool Close (p, s') = (r, (p', s'')) \<and> r \<noteq> Panic \<longrightarrow> connections p' = [])"
proof -
  have inv: "pool_inv ts p" using pool_steps_inv [OF assms(1)] by (simp add: pool_inv_init)
  then have l: "pool_lookup p a = Some c" using assms(2) by (auto simp: pool_inv_def)
  have "fst (close_all Close cs es t) \<noteq> Err e" for cs es t e
    by (induction cs arbitrary: es t) (auto split: prod.splits outcome.splits)
  then have "close_pool Close (p, s') = (r, (p', s'')) \<and> r \<noteq> Panic \<longrightarrow> connections p' = []" for r p' s''
    by (auto simp: close_pool_def split: prod.splits outcome.splits) (metis fst_conv)
  then show ?thesis using inv l by (auto simp: pool_inv_def get_def)
qed

theorem pool_one_connection_witness:
  "get (\<lambda>a n. (Ok n, Suc n)) ''n'' (\<lparr>connections = [(''n'', 0 :: nat)]\<rparr>, 1) =
     (Ok 0, (\<lparr>connections = [(''n'', 0)]\<rparr>, 1))"
proof -
  let ?dial = "(\<lambda>a n. (Ok n, Suc n)) :: string \<Rightarrow> (nat, nat) act"
  let ?p = "\<lparr>connections = [(''n'', 0 :: nat)]\<rparr>"
  have "pool_step ?dial ([Start ''n'', Start ''n''], newConnectionPool, 0) ([Missed ''n'', Start ''n''], newConnectionPool, 0)"
    using pool_step.miss [of 0 "[Start ''n'', Start ''n'']" "''n''" newConnectionPool ?dial 0]
    by (simp add: pool_lookup_def newConnectionPool_def)
  moreover have "pool_step ?dial ([Missed ''n'', Start ''n''], newConnectionPool, 0) ([Missed ''n'', Missed ''n''], newConnectionPool, 0)"
    using pool_step.miss [of 1 "[Missed ''n'', Start ''n'']" "''n''" newConnectionPool ?dial 0]
    by (simp add: pool_lookup_def newConnectionPool_def)
  moreover have "pool_step ?dial ([Missed ''n'', Missed ''n''], newConnectionPool, 0) ([Got ''n'' (Ok 0), Missed ''n''], ?p, 1)"
    using pool_step.locked [of 0 "[Missed ''n'', Missed ''n'']" "''n''" ?dial newConnectionPool 0 "Ok 0" ?p 1]
    by (simp add: get_locked_def pool_lookup_def newConnectionPool_def)
  moreover have "pool_step ?dial ([Got ''n'' (Ok 0), Missed ''n''], ?p, 1) ([Got ''n'' (Ok 0), Got ''n'' (Ok 0)], ?p, 1)"
    using pool_step.locked [of 1 "[Got ''n'' (Ok 0), Missed ''n'']" "''n''" ?dial ?p 1 "Ok 0" ?p 1]
    by (simp add: get_locked_def pool_lookup_def)
  ultimately have steps: "(pool_step ?dial)\<^sup>*\<^sup>* (map Start [''n'', ''n''], newConnectionPool, 0)
    ([Got ''n'' (Ok 0), Got ''n'' (Ok 0)], ?p, 1)"
    by (auto intro: converse_rtranclp_into_rtranclp)
  show ?thesis using pool_one_connection [OF steps, of "''n''" 0] by simp
qed

end
