(* ===== verification/SdkConfig.thy ===== *)
theory SdkConfig
  imports Connection IpcClient Erasure Memory Retry
begin

text \<open>
  \<open>sdk/sdk.go\<close>: the configuration of the SDK and its validation, the connection to a node, key
  derivation, the classification of transaction errors, reading of the input, and the payload of a
  DAG-PB block.

  \<open>int\<close> fields of the configuration are HOL integers; the retry delay keeps its 64 bits. The gRPC
  client, the Reed-Solomon constructor and the protobuf wire reader are parameters. An
  \<open>io.Reader\<close> is the bytes it delivers, the error it ends with, and how it seeks, if it does.
\<close>

section \<open>Constants\<close>

definition BlockSize :: Size where "BlockSize = 1 * MB"
definition minBucketNameLength :: nat where "minBucketNameLength = 3"
definition minFileSize :: int where "minFileSize = 127"
definition maxBlockSize :: Size where "maxBlockSize = 1 * MiB"

definition errSDK :: "go_error \<Rightarrow> go_error" where "errSDK e = ErrTag ''sdk'' e"

definition errMissingBlockMetadata :: go_error where
  "errMissingBlockMetadata = ErrNew ''missing block metadata''"

section \<open>The SDK and its options\<close>

record ('conn, 'http) SDK =
  sdk_conn :: 'conn
  sdk_httpClient :: "'http option"
  sdk_ec :: "ErasureCode option"
  sdk_pool :: "'conn connectionPool"
  sdk_maxConcurrency :: int
  sdk_blockPartSize :: int
  sdk_privateKey :: string
  sdk_encryptionKey :: "byte list"
  sdk_maxBlocksInChunk :: int
  sdk_parityBlocksCount :: int
  sdk_useMetadataEncryption :: bool
  sdk_chunkBuffer :: int
  sdk_chunkBatchSize :: int
  sdk_withRetry :: WithRetry

type_synonym ('conn, 'http) sdk_option = "('conn, 'http) SDK \<Rightarrow> ('conn, 'http) SDK"

definition WithMetadataEncryption :: "('conn, 'http) sdk_option" where
  "WithMetadataEncryption s = s\<lparr>sdk_useMetadataEncryption := True\<rparr>"

definition WithEncryptionKey :: "byte list \<Rightarrow> ('conn, 'http) sdk_option" where
  "WithEncryptionKey key s = s\<lparr>sdk_encryptionKey := key\<rparr>"

definition WithMaxBlocksInChunk :: "int \<Rightarrow> ('conn, 'http) sdk_option" where
  "WithMaxBlocksInChunk maxBlocksInChunk s = s\<lparr>sdk_maxBlocksInChunk := maxBlocksInChunk\<rparr>"

definition WithErasureCoding :: "int \<Rightarrow> ('conn, 'http) sdk_option" where
  "WithErasureCoding parityBlocks s = s\<lparr>sdk_parityBlocksCount := parityBlocks\<rparr>"

definition WithChunkBuffer :: "int \<Rightarrow> ('conn, 'http) sdk_option" where
  "WithChunkBuffer bufferSize s = s\<lparr>sdk_chunkBuffer := (if bufferSize < 0 then 0 else bufferSize)\<rparr>"

definition WithChunkBatchSize :: "int \<Rightarrow> ('conn, 'http) sdk_option" where
  "WithChunkBatchSize batchSize s = s\<lparr>sdk_chunkBatchSize := (if batchSize < 1 then 1 else batchSize)\<rparr>"

definition WithCustomHttpClient :: "'http \<Rightarrow> ('conn, 'http) sdk_option" where
  "WithCustomHttpClient client s = s\<lparr>sdk_httpClient := Some client\<rparr>"

definition WithoutRetry :: "('conn, 'http) sdk_option" where
  "WithoutRetry s = s\<lparr>sdk_withRetry := \<lparr>MaxAttempts = 0, BaseDelay = 0\<rparr>\<rparr>"

definition default_SDK :: "'conn \<Rightarrow> int \<Rightarrow> int \<Rightarrow> string \<Rightarrow> ('conn, 'http) SDK" where
  "default_SDK conn maxConcurrency blockPartSize privateKey =
     \<lparr>sdk_conn = conn, sdk_httpClient = None, sdk_ec = None, sdk_pool = newConnectionPool,
      sdk_maxConcurrency = maxConcurrency, sdk_blockPartSize = blockPartSize, sdk_privateKey = privateKey,
      sdk_encryptionKey = [], sdk_maxBlocksInChunk = 32, sdk_parityBlocksCount = 0,
      sdk_useMetadataEncryption = False, sdk_chunkBuffer = 0, sdk_chunkBatchSize = 1,
      sdk_withRetry = \<lparr>MaxAttempts = 5, BaseDelay = 100000000\<rparr>\<rparr>"

text \<open>What happens after the options were applied: validation, the erasure code, the defaults.\<close>

definition sanitize_retry :: "WithRetry \<Rightarrow> WithRetry" where
  "sanitize_retry r =
     (let r = (if MaxAttempts r < 0 then r\<lparr>MaxAttempts := 0\<rparr> else r)
      in if sint (BaseDelay r) \<le> 100000000 then r\<lparr>BaseDelay := 100000000\<rparr> else r)"

definition validate_SDK ::
  "(int \<Rightarrow> int \<Rightarrow> rs_encoder outcome) \<Rightarrow> 'http \<Rightarrow> ('conn, 'http) SDK \<Rightarrow> ('conn, 'http) SDK outcome" where
  "validate_SDK rs_New DefaultClient s =
     (let half = sdk_maxBlocksInChunk s sdiv 2; keyLen = length (sdk_encryptionKey s) in
      if sdk_maxBlocksInChunk s < 2
      then Err (errSDK (ErrNew (''max blocks in chunk '' @ format_int (sdk_maxBlocksInChunk s) @ '' should be >= 2'')))
      else if keyLen \<noteq> 0 \<and> keyLen \<noteq> 32
      then Err (errSDK (ErrNew ''encryption key length should be 32 bytes long''))
      else if sdk_parityBlocksCount s > half
      then Err (errSDK (ErrNew (''parity blocks count '' @ format_int (sdk_parityBlocksCount s) @
             '' should be <= '' @ format_int half)))
      else
        obind (if sdk_parityBlocksCount s > 0
               then obind (map_err errSDK (NewErasureCode rs_New
                      (sdk_maxBlocksInChunk s - sdk_parityBlocksCount s) (sdk_parityBlocksCount s)))
                      (\<lambda>ec. Ok (s\<lparr>sdk_ec := Some ec\<rparr>))
               else Ok s) (\<lambda>s.
        let s = (if sdk_httpClient s = None then s\<lparr>sdk_httpClient := Some DefaultClient\<rparr> else s)
        in Ok (s\<lparr>sdk_withRetry := sanitize_retry (sdk_withRetry s)\<rparr>)))"

definition New ::
  "(string \<Rightarrow> 'conn outcome) \<Rightarrow> int \<Rightarrow> (int \<Rightarrow> int \<Rightarrow> rs_encoder outcome) \<Rightarrow> 'http \<Rightarrow>
   string \<Rightarrow> int \<Rightarrow> int \<Rightarrow> string \<Rightarrow> ('conn, 'http) sdk_option list \<Rightarrow> ('conn, 'http) SDK outcome" where
  "New grpc_NewClient BlockSizeLimit rs_New DefaultClient address maxConcurrency blockPartSize privateKey options =
     (if blockPartSize \<le> 0 \<or> blockPartSize > BlockSizeLimit
      then Err (ErrNew (''invalid blockPartSize: '' @ format_int blockPartSize @ ''. Valid range is 1-'' @
             format_int BlockSizeLimit))
      else obind (grpc_NewClient address) (\<lambda>conn.
        validate_SDK rs_New DefaultClient
          (foldl (\<lambda>s opt. opt s) (default_SDK conn maxConcurrency blockPartSize privateKey) options)))"

definition Close ::
  "('conn \<Rightarrow> ('s, unit) act) \<Rightarrow> ('conn, 'http) SDK \<Rightarrow> 's \<Rightarrow> unit outcome \<times> ('conn, 'http) SDK \<times> 's" where
  "Close conn_Close sdk s =
     (case conn_Close (sdk_conn sdk) s of
        (r1, s1) \<Rightarrow>
          (if r1 = Panic then (Panic, sdk, s1)
           else case close_pool conn_Close (sdk_pool sdk, s1) of
             (r2, (p, s2)) \<Rightarrow>
               (let err = (\<lambda>r. case r of Err e \<Rightarrow> Some e | _ \<Rightarrow> None) in
                (if r2 = Panic then Panic
                 else case errors_Join [err r1, err r2] of None \<Rightarrow> Ok () | Some e \<Rightarrow> Err e,
                 sdk\<lparr>sdk_pool := p\<rparr>, s2))))"

section \<open>The IPC API object\<close>

record ('cl, 'conn, 'http) IPC =
  ipc_ipc :: 'cl
  ipc_httpClient :: "'http option"
  ipc_ec :: "ErasureCode option"
  ipc_pool :: "'conn connectionPool"
  ipc_privateKey :: string
  ipc_chainID :: int
  ipc_storageAddress :: string
  ipc_maxConcurrency :: int
  ipc_blockPartSize :: int
  ipc_encryptionKey :: "byte list"
  ipc_maxBlocksInChunk :: int
  ipc_useMetadataEncryption :: bool
  ipc_chunkBuffer :: int
  ipc_chunkBatchSize :: int
  ipc_withRetry :: WithRetry

record connection_params =
  cp_DialUri :: string
  cp_StorageAddress :: string
  cp_AccessAddress :: string

definition IPC_of ::
  "('s, connection_params) act \<Rightarrow> ('s, 'eth, 'key, 'auth, 'con) chain_env \<Rightarrow> ('conn, 'http) SDK \<Rightarrow>
   ('s, (('eth, 'auth, 'con) Client, 'conn, 'http) IPC) act" where
  "IPC_of ConnectionParams env sdk =
     abind ConnectionParams (\<lambda>cp.
     abind (Dial env \<lparr>DialURI = cp_DialUri cp, PrivateKey = sdk_privateKey sdk,
         StorageContractAddress = cp_StorageAddress cp, AccessContractAddress = cp_AccessAddress cp\<rparr>) (\<lambda>ipcClient.
     aret \<lparr>ipc_ipc = ipcClient, ipc_httpClient = sdk_httpClient sdk, ipc_ec = sdk_ec sdk, ipc_pool = sdk_pool sdk,
       ipc_privateKey = sdk_privateKey sdk, ipc_chainID = cl_chainID ipcClient,
       ipc_storageAddress = cp_StorageAddress cp, ipc_maxConcurrency = sdk_maxConcurrency sdk,
       ipc_blockPartSize = sdk_blockPartSize sdk, ipc_encryptionKey = sdk_encryptionKey sdk,
       ipc_maxBlocksInChunk = sdk_maxBlocksInChunk sdk,
       ipc_useMetadataEncryption = sdk_useMetadataEncryption sdk, ipc_chunkBuffer = sdk_chunkBuffer sdk,
       ipc_chunkBatchSize = sdk_chunkBatchSize sdk, ipc_withRetry = sdk_withRetry sdk\<rparr>))"

section \<open>Keys and errors\<close>

text \<open>\<open>strings.Join(infoData, "/")\<close>\<close>

fun join_slash :: "string list \<Rightarrow> string" where
  "join_slash [] = []"
| "join_slash [t] = t"
| "join_slash (t # u # ts) = t @ ''/'' @ join_slash (u # ts)"

definition encryptionKey :: "prims \<Rightarrow> byte list \<Rightarrow> string list \<Rightarrow> byte list outcome" where
  "encryptionKey P parentKey infoData =
     (if parentKey = [] then Ok parentKey else DeriveKey P parentKey (join_slash infoData))"

definition contains :: "string \<Rightarrow> string \<Rightarrow> bool" where
  "contains s sub \<longleftrightarrow> (\<exists>i \<in> set [0..<Suc (length s)]. take (length sub) (drop i s) = sub)"

definition isRetryableTxError :: "go_error option \<Rightarrow> bool" where
  "isRetryableTxError err =
     (case err of
        None \<Rightarrow> False
      | Some e \<Rightarrow>
          (let msg = err_text e in
           contains msg ''nonce too low'' \<or> contains msg ''replacement transaction underpriced'' \<or>
           contains msg ''EOF''))"

section \<open>Reading the input\<close>

record byte_reader =
  rd_data :: "byte list"
  rd_pos :: nat
  rd_end :: go_error
  rd_seek :: "(int \<Rightarrow> go_error option) option"

definition reader_EOF :: go_error where "reader_EOF = ErrNew ''EOF''"

definition rd_rest :: "byte_reader \<Rightarrow> byte list" where
  "rd_rest r = drop (rd_pos r) (rd_data r)"

definition skipToPosition :: "byte_reader \<Rightarrow> int \<Rightarrow> unit outcome \<times> byte_reader" where
  "skipToPosition reader position =
     (if position > 0 then
        (case rd_seek reader of
           Some seek \<Rightarrow>
             (case seek position of
                Some e \<Rightarrow> (Err (ErrWrap ''failed to seek for resumable upload: '' e []), reader)
              | None \<Rightarrow> (Ok (), reader\<lparr>rd_pos := nat position\<rparr>))
         | None \<Rightarrow>
             (let reader' = reader\<lparr>rd_pos := rd_pos reader + min (nat position) (length (rd_rest reader))\<rparr> in
              if length (rd_rest reader) < nat position \<and> \<not> err_is (rd_end reader) reader_EOF
              then (Err (ErrWrap ''failed to skip bytes for resumable upload: '' (rd_end reader) []), reader')
              else (Ok (), reader')))
      else (Ok (), reader))"

text \<open>
  \<open>io.ReadFull\<close> on such a reader, and \<open>readUpTo\<close>: the bytes read and the error returned.
\<close>

definition reader_ReadFull :: "byte_reader \<Rightarrow> nat \<Rightarrow> (byte list \<times> go_error option) \<times> byte_reader" where
  "reader_ReadFull r n =
     (let bs = take n (rd_rest r);
          r' = r\<lparr>rd_pos := rd_pos r + length bs\<rparr>;
          err = (if n \<le> length bs then None
                 else if 0 < length bs \<and> rd_end r = reader_EOF then Some ErrUnexpectedEOF
                 else Some (rd_end r))
      in ((bs, err), r'))"

definition readUpTo :: "byte_reader \<Rightarrow> nat \<Rightarrow> (byte list \<times> go_error option) \<times> byte_reader" where
  "readUpTo r n =
     (case reader_ReadFull r n of
        ((bs, err), r') \<Rightarrow>
          ((bs, case err of Some e \<Rightarrow> if err_is e ErrUnexpectedEOF then None else Some e | None \<Rightarrow> None), r'))"

section \<open>The payload of a block\<close>

text \<open>
  The wire reader: \<open>ConsumeTag\<close> gives field number, wire type and the number of bytes after the
  first one that the tag takes (a tag has at least one byte), or a negative code; \<open>ConsumeBytes\<close> the
  value; \<open>ConsumeFieldValue\<close> the length of the value. \<open>ParseError\<close> names a code.
\<close>

record wire_lib =
  ConsumeTag :: "byte list \<Rightarrow> (nat \<times> nat \<times> nat) + int"
  ConsumeBytes :: "byte list \<Rightarrow> byte list + int"
  ConsumeFieldValue :: "nat \<Rightarrow> nat \<Rightarrow> byte list \<Rightarrow> nat + int"
  ParseError :: "int \<Rightarrow> go_error"

definition BytesType :: nat where "BytesType = 2"

text \<open>
  \<open>consumeDAGPBDataField\<close> and \<open>consumeUnixFSDataField\<close> are the same loop for another field
  number and other texts.
\<close>

function consume_field :: "wire_lib \<Rightarrow> string \<Rightarrow> nat \<Rightarrow> byte list \<Rightarrow> byte list outcome" where
  "consume_field w what field b =
     (if b = [] then Err (ErrNew (what @ '' data field not found''))
      else
        (case ConsumeTag w b of
           Inr code \<Rightarrow> Err (ErrWrap (''invalid '' @ what @ '' tag: '') (ParseError w code) [])
         | Inl (num, typ, n) \<Rightarrow>
             if length b < Suc n then Panic
             else
               (let b' = drop (Suc n) b in
                if num = field \<and> typ = BytesType then
                  (case ConsumeBytes w b' of
                     Inr code \<Rightarrow> Err (ErrWrap (''invalid '' @ what @ '' data field: '') (ParseError w code) [])
                   | Inl val \<Rightarrow> Ok val)
                else
                  (case ConsumeFieldValue w num typ b' of
                     Inr code \<Rightarrow> Err (ErrWrap (''invalid '' @ what @ '' field: '') (ParseError w code) [])
                   | Inl m \<Rightarrow> if length b' < m then Panic else consume_field w what field (drop m b')))))"
  by pat_completeness auto
termination
  by (relation "measure (\<lambda>(w, what, field, b). length b)") auto

declare consume_field.simps [simp del]

definition consumeDAGPBDataField :: "wire_lib \<Rightarrow> byte list \<Rightarrow> byte list outcome" where
  "consumeDAGPBDataField w raw = consume_field w ''dag-pb'' 1 raw"

definition consumeUnixFSDataField :: "wire_lib \<Rightarrow> byte list \<Rightarrow> byte list outcome" where
  "consumeUnixFSDataField w raw = consume_field w ''unixfs'' 2 raw"

definition ExtractBlockData :: "wire_lib \<Rightarrow> cid_lib \<Rightarrow> string \<Rightarrow> byte list \<Rightarrow> byte list outcome" where
  "ExtractBlockData w lib idStr data =
     obind (cid_Decode lib idStr) (\<lambda>id.
       let codec = pre_Codec (cid_Prefix lib id) in
       if codec = 112 then obind (consumeDAGPBDataField w data) (consumeUnixFSDataField w)
       else if codec = 85 then Ok data
       else Err (ErrNew (''unknown cid type: '' @ format_int (int codec))))"

section \<open>Retried calls\<close>

text \<open>
  \<open>withRetry.Do\<close> around a call that acts on the world. The environment of the retry loop (random
  numbers, context) is given by the state in which it starts. A panic of the call leaves the loop.
\<close>

definition attempt_of :: "(go_error \<Rightarrow> bool) \<Rightarrow> ('s, 'a) act \<Rightarrow> ('a outcome \<times> 's) attempt" where
  "attempt_of retryable m = (\<lambda>(_, s).
     case m s of (r, s') \<Rightarrow>
       ((case r of Ok _ \<Rightarrow> (False, None) | Err e \<Rightarrow> (retryable e, Some e) | Panic \<Rightarrow> (False, Some (ErrNew ''panic''))),
        (r, s')))"

definition retry_act ::
  "WithRetry \<Rightarrow> ('s \<Rightarrow> retry_env) \<Rightarrow> (go_error \<Rightarrow> bool) \<Rightarrow> ('s, 'a) act \<Rightarrow> ('s, 'a) act" where
  "retry_act w envs retryable m s =
     (case Do w (envs s) (attempt_of retryable m) (Panic, s) of
        ((r, s'), _, res) \<Rightarrow>
          ((case res of
              Ok _ \<Rightarrow> r
            | Err e \<Rightarrow> (case r of Panic \<Rightarrow> Panic | _ \<Rightarrow> Err e)
            | Panic \<Rightarrow> Panic), s'))"

lemma after_calls_invariant:
  assumes "\<And>s r s'. I s \<Longrightarrow> m s = (r, s') \<Longrightarrow> I s'" and "I s"
  shows "I (snd (after_calls (attempt_of retryable m) k (r0, s)))"
  using assms(2)
proof (induction k arbitrary: r0 s)
  case (Suc k)
  obtain r s' where "m s = (r, s')" by (cases "m s")
  then show ?case using Suc assms(1) by (simp add: attempt_of_def)
qed simp

lemma retry_act_invariant:
  assumes "\<And>s r s'. I s \<Longrightarrow> m s = (r, s') \<Longrightarrow> I s'" and "I s" and "retry_act w envs retryable m s = (r, s')"
  shows "I s'"
proof -
  obtain x ds res where d: "retry_loop w (envs s) (attempt_of retryable m) 0 (Panic, s) [] = (x, ds, res)"
    by (metis prod.collapse)
  then obtain k where "x = after_calls (attempt_of retryable m) (Suc k) (Panic, s)"
    using retry_loop_calls [OF d] by auto
  then have "I (snd x)" using after_calls_invariant [of I m s retryable "Suc k" Panic] assms(1,2) by simp
  then show ?thesis using assms(3) d by (auto simp: retry_act_def Do_def split: prod.splits)
qed

text \<open>A call that succeeds at once is not repeated.\<close>

lemma retry_act_first: "m s = (Ok x, s') \<Longrightarrow> retry_act w envs retryable m s = (Ok x, s')"
  by (simp add: retry_act_def Do_def retry_loop.simps attempt_of_def)

lemma retry_act_Ok:
  assumes "\<And>s r s'. I s \<Longrightarrow> m s = (r, s') \<Longrightarrow> I s'" and "I s" and "retry_act w envs retryable m s = (Ok x, s')"
  shows "\<exists>s0. I s0 \<and> m s0 = (Ok x, s')"
proof -
  let ?f = "attempt_of retryable m"
  obtain y ds res where d: "retry_loop w (envs s) ?f 0 (Panic, s) [] = (y, ds, res)"
    by (metis prod.collapse)
  then obtain k where k: "y = after_calls ?f (Suc k) (Panic, s)"
    using retry_loop_calls [OF d] by auto
  have y: "fst y = Ok x \<and> snd y = s'"
    using assms(3) d by (auto simp: retry_act_def Do_def split: prod.splits outcome.splits)
  obtain r0 s0 where s0: "after_calls ?f k (Panic, s) = (r0, s0)" by (metis prod.collapse)
  have "snd (?f (r0, s0)) = m s0" by (cases "m s0") (simp add: attempt_of_def)
  then have "m s0 = (Ok x, s')"
    using k y by (simp add: after_calls_Suc [of ?f k "(Panic, s)"] s0 del: after_calls.simps) (metis prod.collapse)
  moreover have "I s0" using after_calls_invariant [of I m s retryable k Panic] assms(1,2) s0 by simp
  ultimately show ?thesis by blast
qed

section \<open>Validated configurations\<close>

text \<open>The options of the package; the fields are private to it.\<close>

definition package_option :: "('conn, 'http) sdk_option \<Rightarrow> bool" where
  "package_option opt \<longleftrightarrow>
     opt \<in> {WithMetadataEncryption, WithoutRetry} \<union> range WithEncryptionKey \<union> range WithMaxBlocksInChunk \<union>
       range WithErasureCoding \<union> range WithChunkBuffer \<union> range WithChunkBatchSize \<union> range WithCustomHttpClient"

definition options_inv :: "int \<Rightarrow> ('conn, 'http) SDK \<Rightarrow> bool" where
  "options_inv part s \<longleftrightarrow>
     sdk_ec s = None \<and> 0 \<le> sdk_chunkBuffer s \<and> 1 \<le> sdk_chunkBatchSize s \<and> sdk_blockPartSize s = part \<and>
     sdk_pool s = newConnectionPool"

lemma package_option_inv: "package_option opt \<Longrightarrow> options_inv part s \<Longrightarrow> options_inv part (opt s)"
  by (auto simp: package_option_def options_inv_def WithMetadataEncryption_def WithoutRetry_def
      WithEncryptionKey_def WithMaxBlocksInChunk_def WithErasureCoding_def WithChunkBuffer_def
      WithChunkBatchSize_def WithCustomHttpClient_def)

lemma options_inv_foldl:
  "\<forall>opt \<in> set options. package_option opt \<Longrightarrow> options_inv part s \<Longrightarrow>
   options_inv part (foldl (\<lambda>s opt. opt s) s options)"
  by (induction options arbitrary: s) (auto simp: package_option_inv)

definition valid_SDK :: "('conn, 'http) SDK \<Rightarrow> bool" where
  "valid_SDK s \<longleftrightarrow>
     2 \<le> sdk_maxBlocksInChunk s \<and> length (sdk_encryptionKey s) \<in> {0, 32} \<and>
     sdk_httpClient s \<noteq> None \<and> 0 < sdk_blockPartSize s \<and> 0 \<le> sdk_chunkBuffer s \<and> 1 \<le> sdk_chunkBatchSize s \<and>
     0 \<le> MaxAttempts (sdk_withRetry s) \<and> 100000000 \<le> sint (BaseDelay (sdk_withRetry s)) \<and>
     (case sdk_ec s of
        None \<Rightarrow> sdk_parityBlocksCount s \<le> 0
      | Some ec \<Rightarrow> 0 < ParityBlocks ec \<and> ParityBlocks ec \<le> DataBlocks ec \<and> ParityBlocks ec = sdk_parityBlocksCount s \<and>
          DataBlocks ec + ParityBlocks ec = sdk_maxBlocksInChunk s)"

lemma sanitize_retry_bounds:
  "0 \<le> MaxAttempts (sanitize_retry r) \<and> 100000000 \<le> sint (BaseDelay (sanitize_retry r))"
  by (auto simp: sanitize_retry_def Let_def)

lemma NewErasureCode_Ok:
  "NewErasureCode rs_New d p = Ok ec \<Longrightarrow> DataBlocks ec = d \<and> ParityBlocks ec = p \<and> 0 < d \<and> 0 < p"
  by (auto simp: NewErasureCode_def obind_Ok_iff split: if_splits)

lemma validate_SDK_checks:
  assumes "validate_SDK rs_New http s = Ok s'"
  shows "2 \<le> sdk_maxBlocksInChunk s" and "length (sdk_encryptionKey s) \<in> {0, 32}"
    and "sdk_parityBlocksCount s \<le> sdk_maxBlocksInChunk s div 2"
  using assms by (auto simp: validate_SDK_def Let_def go_arith split: if_splits)

lemma validate_SDK_result:
  assumes "validate_SDK rs_New http s = Ok s'"
  shows "\<exists>ec h. (if 0 < sdk_parityBlocksCount s
      then \<exists>e. ec = Some e \<and> NewErasureCode rs_New (sdk_maxBlocksInChunk s - sdk_parityBlocksCount s)
             (sdk_parityBlocksCount s) = Ok e
      else ec = sdk_ec s) \<and>
    s' = s\<lparr>sdk_ec := ec, sdk_httpClient := Some h, sdk_withRetry := sanitize_retry (sdk_withRetry s)\<rparr>"
  using assms
  by (cases s) (auto simp: validate_SDK_def Let_def obind_Ok_iff simp del: not_None_eq split: if_splits)

lemma validate_SDK_Ok:
  assumes "validate_SDK rs_New http s = Ok s'" and "options_inv part s" and "0 < part"
  shows "valid_SDK s' \<and> sdk_pool s' = newConnectionPool"
proof -
  note c = validate_SDK_checks [OF assms(1)]
  have e: "0 < p \<Longrightarrow> p \<le> m div 2 \<Longrightarrow> p \<le> m - p" for p m :: int by arith
  from validate_SDK_result [OF assms(1)] obtain ec h where
    ec: "if 0 < sdk_parityBlocksCount s
      then \<exists>e. ec = Some e \<and> NewErasureCode rs_New (sdk_maxBlocksInChunk s - sdk_parityBlocksCount s)
             (sdk_parityBlocksCount s) = Ok e
      else ec = sdk_ec s"
    and s': "s' = s\<lparr>sdk_ec := ec, sdk_httpClient := Some h, sdk_withRetry := sanitize_retry (sdk_withRetry s)\<rparr>"
    by blast
  show ?thesis
  proof (cases "0 < sdk_parityBlocksCount s")
    case True
    with ec obtain e' where "ec = Some e'" "NewErasureCode rs_New (sdk_maxBlocksInChunk s - sdk_parityBlocksCount s)
      (sdk_parityBlocksCount s) = Ok e'" by auto
    then show ?thesis
      using c assms(2,3) NewErasureCode_Ok [of rs_New _ _ e'] sanitize_retry_bounds e [OF True c(3)]
      by (simp add: s' valid_SDK_def options_inv_def)
  next
    case False
    then show ?thesis using ec c assms(2,3) sanitize_retry_bounds by (simp add: s' valid_SDK_def options_inv_def)
  qed
qed

text \<open>Whatever options of the package are given in whatever order, a configuration that \<open>New\<close> accepts is
  valid: at least two blocks in a chunk, a key of 0 or 32 bytes, a positive part size, a channel buffer
  that is not negative and batches of at least one chunk, a retry policy whose delays are positive (so the
  retry loop does not panic); and erasure coding is on exactly when parity blocks were asked for, with
  data and parity blocks that add up to the chunk and no more parity than data.\<close>

theorem sdk_config_valid:
  assumes "New grpc_NewClient limit rs_New http address maxConcurrency blockPartSize privateKey options = Ok s"
    and "\<forall>opt \<in> set options. package_option opt"
  shows "valid_SDK s \<and> sdk_pool s = newConnectionPool \<and> blockPartSize \<le> limit"
proof -
  obtain conn where c: "0 < blockPartSize" "blockPartSize \<le> limit"
    and v: "validate_SDK rs_New http
      (foldl (\<lambda>s opt. opt s) (default_SDK conn maxConcurrency blockPartSize privateKey) options) = Ok s"
    using assms(1) by (auto simp: New_def obind_Ok_iff split: if_splits)
  have "options_inv blockPartSize (default_SDK conn maxConcurrency blockPartSize privateKey)"
    by (simp add: options_inv_def default_SDK_def)
  from options_inv_foldl [OF assms(2) this] validate_SDK_Ok [OF v _ c(1)] c(2) show ?thesis by blast
qed

theorem sdk_config_valid_witness:
  "\<exists>s. New (\<lambda>_. Ok ()) 1048576 (\<lambda>_ _. Ok mirror_encoder) () ''node'' 4 65536 ''ab''
      [WithErasureCoding 8, WithChunkBatchSize 0, WithoutRetry] = Ok s \<and> valid_SDK s"
proof -
  let ?opts = "[WithErasureCoding 8, WithChunkBatchSize 0, WithoutRetry] :: (unit, unit) sdk_option list"
  obtain s where s: "New (\<lambda>_. Ok ()) 1048576 (\<lambda>_ _. Ok mirror_encoder) () ''node'' 4 65536 ''ab'' ?opts = Ok s"
    by (simp add: New_def default_SDK_def WithErasureCoding_def WithChunkBatchSize_def WithoutRetry_def
        validate_SDK_def NewErasureCode_def go_arith)
  have "\<forall>opt \<in> set ?opts. package_option opt" by (auto simp: package_option_def)
  with s sdk_config_valid [OF s] show ?thesis by blast
qed

end
