(* ===== verification/Dag.thy ===== *)
theory Dag
  imports SdkConfig
begin

text \<open>
  \<open>sdk/dag.go\<close>: the Merkle DAG of a chunk and the root of a file.

  The IPFS libraries (chunker, unixfs, balanced layout, merkledag, DAG service) are the parameter
  \<open>dag_lib\<close>. Nodes are seen through what the code reads of them. \<open>dag_laws\<close> states what the
  library documents for chunks of at most 1024 blocks, in the dag-pb and UnixFS wire formats; the
  store is content addressed, so that a node it returns for a CID hashes to that CID.
\<close>

section \<open>Nodes\<close>

record dag_link =
  ln_Size :: "64 word"
  ln_Cid :: cid

record dag_node =
  nd_Cid :: cid
  nd_Links :: "dag_link list"
  nd_RawData :: "byte list"
  nd_ProtoData :: "byte list option"
  nd_Size :: "64 word outcome"

text \<open>
  \<open>dag_Layout data blockSize\<close>: splitter, builder parameters and balanced layout; it gives the root
  and the DAG service it filled. \<open>ProtoNode\<close> makes a node of data and links with the CID builder
  set, \<open>fs_GetBytes\<close> serialises a UnixFS file node of inline data and block sizes.
\<close>

record dag_lib =
  dag_Layout :: "byte list \<Rightarrow> int \<Rightarrow> (dag_node \<times> (cid \<Rightarrow> dag_node outcome)) outcome"
  SetCidBuilder :: "unit outcome"
  ProtoNode :: "byte list \<Rightarrow> dag_link list \<Rightarrow> dag_node"
  AddRawLink :: "dag_link list \<Rightarrow> dag_link \<Rightarrow> unit outcome"
  fs_GetBytes :: "byte list \<Rightarrow> 64 word list \<Rightarrow> byte list outcome"
  unixfs_DataSize :: "byte list \<Rightarrow> 64 word outcome"

record FileBlockUpload =
  bu_CID :: string
  bu_Data :: "byte list"
  bu_Permit :: string
  bu_NodeAddress :: string
  bu_NodeID :: string

record ChunkDAG =
  cd_CID :: cid
  cd_RawDataSize :: "64 word"
  cd_EncodedSize :: "64 word"
  cd_Blocks :: "FileBlockUpload list"

section \<open>The root of a file\<close>

record DAGRoot =
  root_links :: "dag_link list"
  root_blockSizes :: "64 word list"

definition NewDAGRoot :: "dag_lib \<Rightarrow> DAGRoot outcome" where
  "NewDAGRoot lib = obind (SetCidBuilder lib) (\<lambda>_. Ok \<lparr>root_links = [], root_blockSizes = []\<rparr>)"

text \<open>The block size is recorded before the link is added, also when adding the link fails.\<close>

definition AddLink :: "dag_lib \<Rightarrow> cid \<Rightarrow> 64 word \<Rightarrow> 64 word \<Rightarrow> (DAGRoot, unit) act" where
  "AddLink lib c rawDataSize protoNodeSize root =
     (let root = root\<lparr>root_blockSizes := root_blockSizes root @ [rawDataSize]\<rparr>;
          link = \<lparr>ln_Size = protoNodeSize, ln_Cid = c\<rparr>
      in case AddRawLink lib (root_links root) link of
           Ok _ \<Rightarrow> (Ok (), root\<lparr>root_links := root_links root @ [link]\<rparr>)
         | r \<Rightarrow> (r, root))"

definition Build :: "dag_lib \<Rightarrow> DAGRoot \<Rightarrow> cid outcome" where
  "Build lib root =
     (case root_links root of
        [] \<Rightarrow> Err (ErrNew ''no chunks added'')
      | [link] \<Rightarrow> Ok (ln_Cid link)
      | links \<Rightarrow>
          obind (fs_GetBytes lib [] (root_blockSizes root)) (\<lambda>data. Ok (nd_Cid (ProtoNode lib data links))))"

section \<open>The DAG of a chunk\<close>

definition BuildLeafNode :: "dag_lib \<Rightarrow> byte list \<Rightarrow> dag_node outcome" where
  "BuildLeafNode lib data =
     obind (SetCidBuilder lib) (\<lambda>_.
     obind (fs_GetBytes lib data []) (\<lambda>fsBytes. Ok (ProtoNode lib fsBytes [])))"

definition nodeSizes :: "dag_lib \<Rightarrow> cid_lib \<Rightarrow> dag_node \<Rightarrow> (64 word \<times> 64 word) outcome" where
  "nodeSizes lib clib node =
     (case nd_ProtoData node of
        None \<Rightarrow> Err (ErrNew (''given node '' @ cid_String clib (nd_Cid node) @ '' is not a ProtoNode''))
      | Some protoData \<Rightarrow>
          obind (unixfs_DataSize lib protoData) (\<lambda>rawDataSize.
            if nd_Links node = []
            then obind (nd_Size node) (\<lambda>protoNodeSize. Ok (rawDataSize, protoNodeSize))
            else Ok (rawDataSize, foldl (\<lambda>encodedSize link. encodedSize + ln_Size link) 0 (nd_Links node))))"

definition block_of :: "string \<Rightarrow> byte list \<Rightarrow> FileBlockUpload" where
  "block_of c data = \<lparr>bu_CID = c, bu_Data = data, bu_Permit = [], bu_NodeAddress = [], bu_NodeID = []\<rparr>"

definition BuildDAG :: "dag_lib \<Rightarrow> cid_lib \<Rightarrow> byte list \<Rightarrow> int \<Rightarrow> ChunkDAG outcome" where
  "BuildDAG lib clib data blockSize =
     obind (dag_Layout lib data blockSize) (\<lambda>(rootNode, store).
     obind (if nd_Links rootNode = []
            then obind (store (nd_Cid rootNode)) (\<lambda>node. Ok [block_of (cid_String clib (nd_Cid node)) (nd_RawData node)])
            else omap (\<lambda>l. obind (store (ln_Cid l)) (\<lambda>node. Ok (block_of (cid_String clib (ln_Cid l)) (nd_RawData node))))
                   (nd_Links rootNode)) (\<lambda>blocks.
     obind (nodeSizes lib clib rootNode) (\<lambda>(rawDataSize, encodedSize).
       Ok \<lparr>cd_CID = nd_Cid rootNode, cd_RawDataSize = rawDataSize, cd_EncodedSize = encodedSize,
           cd_Blocks = blocks\<rparr>)))"

section \<open>The wire formats\<close>

text \<open>Protocol buffers: varints, tags, and the two wire types the formats use.\<close>

fun varint :: "nat \<Rightarrow> byte list" where
  "varint n = (if n < 128 then [of_nat n] else of_nat (n mod 128 + 128) # varint (n div 128))"

declare varint.simps [simp del]

definition pb_tag :: "nat \<Rightarrow> nat \<Rightarrow> byte list" where
  "pb_tag num typ = varint (8 * num + typ)"

definition pb_uint :: "nat \<Rightarrow> nat \<Rightarrow> byte list" where
  "pb_uint num n = pb_tag num 0 @ varint n"

definition pb_bytes :: "nat \<Rightarrow> byte list \<Rightarrow> byte list" where
  "pb_bytes num v = pb_tag num 2 @ varint (length v) @ v"

text \<open>A UnixFS file with inline data, and a dag-pb node without links.\<close>

definition unixfs_file :: "byte list \<Rightarrow> byte list" where
  "unixfs_file content = pb_uint 1 2 @ pb_bytes 2 content @ pb_uint 3 (length content)"

definition leaf_bytes :: "byte list \<Rightarrow> byte list" where
  "leaf_bytes content = pb_bytes 1 (unixfs_file content)"

text \<open>What the protowire library documents, on values below its limits.\<close>

definition wire_laws :: "wire_lib \<Rightarrow> bool" where
  "wire_laws w \<longleftrightarrow>
     (\<forall>num typ rest. 0 < num \<and> num < 2 ^ 29 \<and> typ < 6 \<longrightarrow>
        ConsumeTag w (pb_tag num typ @ rest) = Inl (num, typ, length (pb_tag num typ) - 1)) \<and>
     (\<forall>v rest. length v < 2 ^ 63 \<longrightarrow> ConsumeBytes w (varint (length v) @ v @ rest) = Inl v) \<and>
     (\<forall>num n rest. n < 2 ^ 64 \<longrightarrow> ConsumeFieldValue w num 0 (varint n @ rest) = Inl (length (varint n)))"

lemma varint_nonempty [simp]: "varint n \<noteq> []"
  by (subst varint.simps) simp

lemma length_varint_pos: "0 < length (varint n)"
  by simp

lemma consume_field_found:
  assumes "wire_laws w" and "0 < num" and "num < 2 ^ 29" and "length v < 2 ^ 63"
  shows "consume_field w what num (pb_bytes num v @ rest) = Ok v"
proof -
  have t: "pb_tag num 2 \<noteq> []" by (simp add: pb_tag_def)
  have "ConsumeTag w (pb_tag num 2 @ varint (length v) @ v @ rest) = Inl (num, 2, length (pb_tag num 2) - 1)"
    using assms by (simp add: wire_laws_def)
  moreover have "ConsumeBytes w (varint (length v) @ v @ rest) = Inl v"
    using assms by (simp add: wire_laws_def)
  moreover have "Suc (length (pb_tag num 2) - 1) = length (pb_tag num 2)" using t by simp
  ultimately show ?thesis
    using t by (subst consume_field.simps) (simp add: pb_bytes_def BytesType_def Let_def)
qed

lemma consume_field_skip_uint:
  assumes "wire_laws w" and "0 < num" and "num < 2 ^ 29" and "n < 2 ^ 64"
  shows "consume_field w what field (pb_uint num n @ rest) = consume_field w what field rest"
proof -
  have t: "pb_tag num 0 \<noteq> []" by (simp add: pb_tag_def)
  have "ConsumeTag w (pb_tag num 0 @ varint n @ rest) = Inl (num, 0, length (pb_tag num 0) - 1)"
    using assms by (simp add: wire_laws_def)
  moreover have "ConsumeFieldValue w num 0 (varint n @ rest) = Inl (length (varint n))"
    using assms by (simp add: wire_laws_def)
  moreover have "Suc (length (pb_tag num 0) - 1) = length (pb_tag num 0)" using t by simp
  ultimately show ?thesis
    using t by (subst consume_field.simps) (simp add: pb_uint_def BytesType_def Let_def)
qed

lemma length_varint: "n < 2 ^ (7 * Suc k) \<Longrightarrow> length (varint n) \<le> Suc k"
proof (induction k arbitrary: n)
  case (Suc k)
  then have "n div 128 < 2 ^ (7 * Suc k)" by (simp add: less_mult_imp_div_less power_add)
  with Suc.IH show ?case by (subst varint.simps) simp
qed (simp add: varint.simps)

lemma length_varint_le: "n < 2 ^ 64 \<Longrightarrow> length (varint n) \<le> 10"
  using length_varint [of n 9] by simp

lemma length_unixfs_file_bound:
  assumes "length content < 2 ^ 62"
  shows "length (unixfs_file content) < 2 ^ 63"
proof -
  have "length (pb_tag n t) \<le> 10" if "n < 4" "t < 3" for n t
    unfolding pb_tag_def by (rule length_varint_le) (use that in simp)
  note this [of 1 0] this [of 2 2] this [of 3 0]
  moreover have "length (varint 2) \<le> 10" "length (varint (length content)) \<le> 10"
    using length_varint_le [of 2] length_varint_le [of "length content"] assms by simp_all
  ultimately show ?thesis using assms by (simp add: unixfs_file_def pb_uint_def pb_bytes_def)
qed

lemma extract_leaf:
  assumes "wire_laws w" and "length content < 2 ^ 62"
  shows "obind (consumeDAGPBDataField w (leaf_bytes content)) (consumeUnixFSDataField w) = Ok content"
proof -
  have "length (unixfs_file content) < 2 ^ 63"
    using length_unixfs_file_bound [OF assms(2)] .
  then have d: "consumeDAGPBDataField w (leaf_bytes content) = Ok (unixfs_file content)"
    using consume_field_found [OF assms(1), of 1 "unixfs_file content" _ "[]"]
    by (simp add: consumeDAGPBDataField_def leaf_bytes_def)
  have "consumeUnixFSDataField w (unixfs_file content) = Ok content"
    using consume_field_skip_uint [OF assms(1), of 1 2] consume_field_found [OF assms(1), of 2 content] assms(2)
    by (simp add: consumeUnixFSDataField_def unixfs_file_def)
  with d show ?thesis by simp
qed

section \<open>What the code relies on in the library\<close>

text \<open>The text form of a CID decodes to it.\<close>

definition cid_text_law :: "cid_lib \<Rightarrow> bool" where
  "cid_text_law clib \<longleftrightarrow> (\<forall>h. length h = 32 \<longrightarrow> cid_Decode clib (cid_String clib (cidPrefix @ h)) = Ok (cidPrefix @ h))"

text \<open>
  The node the DAG service returns for the CID of a piece is the leaf of a piece with that CID. Two
  pieces with the same CID would be a collision of SHA-256 among the pieces.
\<close>

definition leaf_stored :: "prims \<Rightarrow> byte list list \<Rightarrow> byte list \<Rightarrow> dag_node \<Rightarrow> bool" where
  "leaf_stored P cs c node \<longleftrightarrow>
     nd_Cid node = sha256_cid P (leaf_bytes c) \<and>
     (\<exists>c' \<in> set cs. nd_RawData node = leaf_bytes c' \<and> sha256_cid P (leaf_bytes c') = sha256_cid P (leaf_bytes c))"

definition leaves_collide :: "prims \<Rightarrow> byte list list \<Rightarrow> bool" where
  "leaves_collide P cs \<longleftrightarrow>
     (\<exists>c \<in> set cs. \<exists>c' \<in> set cs. c \<noteq> c' \<and> sha256_sum P (leaf_bytes c) = sha256_sum P (leaf_bytes c'))"

text \<open>
  For a chunk cut into at most 1024 blocks: the leaves are UnixFS files in dag-pb nodes, one block is
  its own root, more blocks are linked from the root in order. A file node without data, and without
  links, serialises to the leaf format.
\<close>

definition dag_layout_law :: "dag_lib \<Rightarrow> prims \<Rightarrow> nat \<Rightarrow> byte list \<Rightarrow> bool" where
  "dag_layout_law lib P n data \<longleftrightarrow>
     (\<exists>root store z d.
        dag_Layout lib data (int n) = Ok (root, store) \<and> nd_Size root = Ok z \<and>
        nd_ProtoData root = Some d \<and> unixfs_DataSize lib d = Ok (of_nat (length data)) \<and>
        (if length (chunks n data) = 1
         then nd_Links root = [] \<and> nd_Cid root = sha256_cid P (leaf_bytes data)
         else map ln_Cid (nd_Links root) = map (\<lambda>c. sha256_cid P (leaf_bytes c)) (chunks n data)) \<and>
        (\<forall>c \<in> set (chunks n data). \<exists>node. store (sha256_cid P (leaf_bytes c)) = Ok node \<and>
           leaf_stored P (chunks n data) c node))"

definition dag_laws :: "dag_lib \<Rightarrow> prims \<Rightarrow> bool" where
  "dag_laws lib P \<longleftrightarrow>
     SetCidBuilder lib = Ok () \<and>
     (\<forall>content. fs_GetBytes lib content [] = Ok (unixfs_file content)) \<and>
     (\<forall>d. nd_RawData (ProtoNode lib d []) = pb_bytes 1 d \<and>
        nd_Cid (ProtoNode lib d []) = sha256_cid P (pb_bytes 1 d)) \<and>
     (\<forall>data n. 0 < n \<and> data \<noteq> [] \<and> length (chunks n data) \<le> 1024 \<longrightarrow> dag_layout_law lib P n data)"

lemma sha256_cid_inj: "sha256_cid P a = sha256_cid P b \<longleftrightarrow> sha256_sum P a = sha256_sum P b"
  by (simp add: sha256_cid_def)

lemma leaf_stored_data:
  "leaf_stored P cs c node \<Longrightarrow> c \<in> set cs \<Longrightarrow> \<not> leaves_collide P cs \<Longrightarrow> nd_RawData node = leaf_bytes c"
  unfolding leaf_stored_def leaves_collide_def sha256_cid_inj by metis

text \<open>The block a chunk's piece becomes.\<close>

definition block_for :: "prims \<Rightarrow> cid_lib \<Rightarrow> byte list \<Rightarrow> FileBlockUpload \<Rightarrow> bool" where
  "block_for P clib content b \<longleftrightarrow>
     bu_CID b = cid_String clib (sha256_cid P (leaf_bytes content)) \<and> bu_Data b = leaf_bytes content"

lemma BuildDAG_blocks:
  assumes "dag_laws lib P" and "0 < n" and "data \<noteq> []" and "length (chunks n data) \<le> 1024"
    and "\<not> leaves_collide P (chunks n data)"
  shows "\<exists>dag. BuildDAG lib clib data (int n) = Ok dag \<and>
    list_all2 (block_for P clib) (chunks n data) (cd_Blocks dag) \<and> cd_RawDataSize dag = of_nat (length data)"
proof -
  have "dag_layout_law lib P n data" using assms by (simp add: dag_laws_def)
  then obtain root store z d where l: "dag_Layout lib data (int n) = Ok (root, store)" "nd_Size root = Ok z"
      "nd_ProtoData root = Some d" "unixfs_DataSize lib d = Ok (of_nat (length data))"
    and links: "if length (chunks n data) = 1
      then nd_Links root = [] \<and> nd_Cid root = sha256_cid P (leaf_bytes data)
      else map ln_Cid (nd_Links root) = map (\<lambda>c. sha256_cid P (leaf_bytes c)) (chunks n data)"
    and "\<forall>c \<in> set (chunks n data). \<exists>node. store (sha256_cid P (leaf_bytes c)) = Ok node \<and>
      leaf_stored P (chunks n data) c node"
    unfolding dag_layout_law_def by blast
  then have store: "\<exists>node. store (sha256_cid P (leaf_bytes c)) = Ok node \<and> nd_RawData node = leaf_bytes c \<and>
      nd_Cid node = sha256_cid P (leaf_bytes c)" if "c \<in> set (chunks n data)" for c
    using leaf_stored_data [OF _ that assms(5)] that unfolding leaf_stored_def by blast
  have sizes: "\<exists>e. nodeSizes lib clib root = Ok (of_nat (length data), e)"
    using l by (simp add: nodeSizes_def)
  have ne: "chunks n data \<noteq> []" using assms(2,3) by (subst chunks.simps) simp
  have node: "\<exists>b. obind (store (sha256_cid P (leaf_bytes c)))
      (\<lambda>node. Ok (block_of (cid_String clib (sha256_cid P (leaf_bytes c))) (nd_RawData node))) = Ok b \<and>
      block_for P clib c b" if "c \<in> set (chunks n data)" for c
    using store [OF that] by (auto simp: block_for_def block_of_def)
  show ?thesis
  proof (cases "length (chunks n data) = 1")
    case True
    then obtain c where c: "chunks n data = [c]" by (auto simp: length_Suc_conv)
    then have "c = data" using concat_chunks [OF assms(2), of data] by simp
    moreover obtain node where "store (sha256_cid P (leaf_bytes c)) = Ok node"
      "nd_RawData node = leaf_bytes c" "nd_Cid node = sha256_cid P (leaf_bytes c)" using store c by auto
    ultimately show ?thesis
      using l(1) links True sizes c
      by (auto simp: BuildDAG_def block_for_def block_of_def)
  next
    case False
    let ?blk = "\<lambda>l. obind (store (ln_Cid l)) (\<lambda>node. Ok (block_of (cid_String clib (ln_Cid l)) (nd_RawData node)))"
    have cids: "map ln_Cid (nd_Links root) = map (\<lambda>c. sha256_cid P (leaf_bytes c)) (chunks n data)"
      using links False by simp
    then have "nd_Links root \<noteq> []" using ne by auto
    moreover have "\<exists>bs. omap ?blk ls = Ok bs \<and> list_all2 (block_for P clib) cs bs"
      if "map ln_Cid ls = map (\<lambda>c. sha256_cid P (leaf_bytes c)) cs" "set cs \<subseteq> set (chunks n data)" for ls cs
      using that
    proof (induction cs arbitrary: ls)
      case (Cons c cs)
      then obtain l ls' where ls: "ls = l # ls'" "ln_Cid l = sha256_cid P (leaf_bytes c)"
        "map ln_Cid ls' = map (\<lambda>c. sha256_cid P (leaf_bytes c)) cs" by (cases ls) auto
      obtain bs where "omap ?blk ls' = Ok bs" "list_all2 (block_for P clib) cs bs"
        using Cons.IH [OF ls(3)] Cons.prems(2) by auto
      moreover obtain b where "?blk l = Ok b" "block_for P clib c b"
        using node [of c] Cons.prems(2) ls(2) by auto
      ultimately show ?case using ls(1) by auto
    qed simp
    from this [OF cids subset_refl] obtain bs where "omap ?blk (nd_Links root) = Ok bs"
      "list_all2 (block_for P clib) (chunks n data) bs" by blast
    ultimately show ?thesis using l(1) sizes by (auto simp: BuildDAG_def)
  qed
qed

text \<open>A block of a leaf is decoded to the leaf's content.\<close>

lemma extract_block:
  assumes "wire_laws w" and "cid_laws clib P" and "cid_text_law clib" and "length content < 2 ^ 62"
  shows "ExtractBlockData w clib (cid_String clib (sha256_cid P data)) (leaf_bytes content) = Ok content"
  using extract_leaf [OF assms(1,4)] assms(2,3)
  by (simp add: ExtractBlockData_def sha256_cid_def cid_text_law_def cid_laws_def)

lemma extract_blocks:
  assumes "wire_laws w" and "cid_laws clib P" and "cid_text_law clib"
    and "list_all2 (block_for P clib) cs bs" and "\<forall>c \<in> set cs. length c < 2 ^ 62"
  shows "omap (\<lambda>b. ExtractBlockData w clib (bu_CID b) (bu_Data b)) bs = Ok cs"
  using assms(4,5)
proof (induction rule: list_all2_induct)
  case (Cons c cs b bs)
  then have "bu_Data b = leaf_bytes c" "bu_CID b = cid_String clib (sha256_cid P (leaf_bytes c))"
    by (simp_all add: block_for_def)
  then have "ExtractBlockData w clib (bu_CID b) (bu_Data b) = Ok c"
    using extract_block [OF assms(1-3), of c] Cons.prems by simp
  then show ?case using Cons by simp
qed simp

lemma block_for_verifies:
  assumes "cid_laws clib P" and "cid_text_law clib" and "block_for P clib c b"
  shows "VerifyRaw clib (bu_CID b) data = Ok () \<longleftrightarrow> sha256_sum P data = sha256_sum P (bu_Data b)"
    and "VerifyRaw clib (bu_CID b) data \<noteq> Panic"
proof -
  have d: "cid_Decode clib (bu_CID b) = Ok (cidPrefix @ sha256_sum P (leaf_bytes c))"
    using assms(2,3) by (simp add: block_for_def sha256_cid_def cid_text_law_def)
  have h: "sha256_sum P (leaf_bytes c) = sha256_sum P (bu_Data b)" using assms(3) by (simp add: block_for_def)
  show "VerifyRaw clib (bu_CID b) data = Ok () \<longleftrightarrow> sha256_sum P data = sha256_sum P (bu_Data b)"
    using Verify_cid_iff(1) [OF assms(1), of "sha256_sum P (leaf_bytes c)" data]
    by (auto simp: VerifyRaw_def d h)
  show "VerifyRaw clib (bu_CID b) data \<noteq> Panic"
    using Verify_cid_iff(2) [OF assms(1), of "sha256_sum P (leaf_bytes c)" data] by (simp add: VerifyRaw_def d h)
qed

section \<open>An instance of the parameters\<close>

fun get_varint :: "byte list \<Rightarrow> (nat \<times> nat) option" where
  "get_varint [] = None"
| "get_varint (b # bs) =
     (if unat b < 128 then Some (unat b, 1)
      else case get_varint bs of Some (n, k) \<Rightarrow> Some (unat b - 128 + 128 * n, Suc k) | None \<Rightarrow> None)"

lemma get_varint_varint: "get_varint (varint n @ rest) = Some (n, length (varint n))"
proof (induction n rule: varint.induct)
  case (1 n)
  have m: "n mod 128 + 128 < 256" by (simp add: order_less_le_trans [OF mod_less_divisor])
  show ?case
  proof (cases "n < 128")
    case True
    then show ?thesis by (simp add: varint.simps [of n] unat_of_nat)
  next
    case False
    have "unat (of_nat (n mod 128 + 128) :: byte) = n mod 128 + 128"
      using m by (simp only: unat_of_nat) simp
    with False 1 [OF False] show ?thesis by (subst (1 2) varint.simps) simp
  qed
qed

definition sample_wire :: wire_lib where
  "sample_wire = \<lparr>
     ConsumeTag = (\<lambda>b. case get_varint b of Some (t, k) \<Rightarrow> Inl (t div 8, t mod 8, k - 1) | None \<Rightarrow> Inr (- 1)),
     ConsumeBytes = (\<lambda>b. case get_varint b of Some (l, k) \<Rightarrow> Inl (take l (drop k b)) | None \<Rightarrow> Inr (- 1)),
     ConsumeFieldValue = (\<lambda>num typ b. case get_varint b of
        Some (l, k) \<Rightarrow> Inl (if typ = 2 then k + l else k) | None \<Rightarrow> Inr (- 1)),
     ParseError = (\<lambda>_. ErrNew ''parse error'')\<rparr>"

lemma sample_wire_laws: "wire_laws sample_wire"
  by (simp add: wire_laws_def sample_wire_def pb_tag_def get_varint_varint)

lemma sample_cid_text: "cid_text_law (sample_cid_lib P)"
  by (simp add: cid_text_law_def sample_cid_lib_def)

definition sample_leaf :: "prims \<Rightarrow> byte list \<Rightarrow> dag_node" where
  "sample_leaf P c = \<lparr>nd_Cid = sha256_cid P (leaf_bytes c), nd_Links = [], nd_RawData = leaf_bytes c,
     nd_ProtoData = Some c, nd_Size = Ok (of_nat (length (leaf_bytes c)))\<rparr>"

definition sample_dag_lib :: "prims \<Rightarrow> dag_lib" where
  "sample_dag_lib P = \<lparr>
     dag_Layout = (\<lambda>data n.
       let cs = chunks (nat n) data; leaves = map (sample_leaf P) cs;
           store = (\<lambda>c. case find (\<lambda>l. nd_Cid l = c) leaves of Some l \<Rightarrow> Ok l | None \<Rightarrow> Err (ErrNew ''not found''))
       in Ok (if length cs = 1 then sample_leaf P data
              else \<lparr>nd_Cid = sha256_cid P (concat (map nd_Cid leaves)),
                     nd_Links = map (\<lambda>l. \<lparr>ln_Size = of_nat (length (nd_RawData l)), ln_Cid = nd_Cid l\<rparr>) leaves,
                     nd_RawData = concat (map nd_Cid leaves), nd_ProtoData = Some data, nd_Size = Ok 0\<rparr>, store)),
     SetCidBuilder = Ok (),
     ProtoNode = (\<lambda>d ls. \<lparr>nd_Cid = sha256_cid P (pb_bytes 1 d), nd_Links = ls, nd_RawData = pb_bytes 1 d,
       nd_ProtoData = Some d, nd_Size = Ok 0\<rparr>),
     AddRawLink = (\<lambda>ls l. Ok ()),
     fs_GetBytes = (\<lambda>c bs. Ok (unixfs_file c)),
     unixfs_DataSize = (\<lambda>d. Ok (of_nat (length d)))\<rparr>"

lemma sample_dag_laws: "dag_laws (sample_dag_lib P) P"
proof -
  have "dag_layout_law (sample_dag_lib P) P n data" if "0 < n" for n data
  proof -
    let ?store = "\<lambda>c. case find (\<lambda>l. nd_Cid l = c) (map (sample_leaf P) (chunks n data)) of
      Some l \<Rightarrow> Ok l | None \<Rightarrow> Err (ErrNew ''not found'')"
    have "\<exists>node. ?store (sha256_cid P (leaf_bytes c)) = Ok node \<and> leaf_stored P (chunks n data) c node" if "c \<in> set (chunks n data)" for c
    proof -
      have "find (\<lambda>l. nd_Cid l = sha256_cid P (leaf_bytes c)) (map (sample_leaf P) (chunks n data)) \<noteq> None"
        using that by (auto simp: find_None_iff sample_leaf_def)
      then obtain l where l: "find (\<lambda>l. nd_Cid l = sha256_cid P (leaf_bytes c)) (map (sample_leaf P) (chunks n data)) = Some l"
        by auto
      then have "l \<in> sample_leaf P ` set (chunks n data)" "nd_Cid l = sha256_cid P (leaf_bytes c)"
        by (auto simp: find_Some_iff)
      with l show ?thesis by (auto simp: leaf_stored_def sample_leaf_def)
    qed
    then show ?thesis
      by (auto simp: dag_layout_law_def sample_dag_lib_def Let_def) (auto simp: sample_leaf_def)
  qed
  then show ?thesis by (auto simp: dag_laws_def) (auto simp: sample_dag_lib_def)
qed

section \<open>Properties\<close>

text \<open>C36: Cutting data into blocks (at most 1024, the fan-out of the builder) succeeds and loses nothing: the payloads
  that \<open>ExtractBlockData\<close> takes out of the blocks join to the data again, every block passes the
  verification against its CID, and the root records the size of the data, provided no two different pieces
  have leaves with the same SHA-256 digest, by which blocks are addressed. A leaf built by \<open>BuildLeafNode\<close> is the block of its data.\<close>

theorem dag_roundtrip:
  assumes "wire_laws w" and "cid_laws clib P" and "cid_text_law clib" and "dag_laws lib P"
    and "0 < n" and "data \<noteq> []" and "length (chunks n data) \<le> 1024" and "length data < 2 ^ 62"
    and "\<not> leaves_collide P (chunks n data)"
  shows "(\<exists>dag. BuildDAG lib clib data (int n) = Ok dag \<and>
      obind (omap (\<lambda>b. ExtractBlockData w clib (bu_CID b) (bu_Data b)) (cd_Blocks dag)) (\<lambda>cs. Ok (concat cs)) = Ok data \<and>
      (\<forall>b \<in> set (cd_Blocks dag). VerifyRaw clib (bu_CID b) (bu_Data b) = Ok ()) \<and>
      length (cd_Blocks dag) = length (chunks n data) \<and> cd_RawDataSize dag = of_nat (length data)) \<and>
    (\<exists>node. BuildLeafNode lib data = Ok node \<and>
      ExtractBlockData w clib (cid_String clib (nd_Cid node)) (nd_RawData node) = Ok data)"
proof -
  obtain dag where dag: "BuildDAG lib clib data (int n) = Ok dag" "cd_RawDataSize dag = of_nat (length data)"
    and bs: "list_all2 (block_for P clib) (chunks n data) (cd_Blocks dag)"
    using BuildDAG_blocks [OF assms(4-7,9)] by blast
  have "length c < 2 ^ 62" if "c \<in> set (chunks n data)" for c
  proof -
    have "length c \<le> length (concat (chunks n data))"
      using that by (induction "chunks n data") (auto simp: length_concat intro: member_le_sum_list)
    then show ?thesis using assms(5,8) by simp
  qed
  then have ex: "omap (\<lambda>b. ExtractBlockData w clib (bu_CID b) (bu_Data b)) (cd_Blocks dag) = Ok (chunks n data)"
    using extract_blocks [OF assms(1-3) bs] by blast
  have "VerifyRaw clib (bu_CID b) (bu_Data b) = Ok ()" if b: "b \<in> set (cd_Blocks dag)" for b
  proof -
    obtain i where "i < length (cd_Blocks dag)" "b = cd_Blocks dag ! i" using b by (auto simp: in_set_conv_nth)
    then have "block_for P clib (chunks n data ! i) b" using list_all2_nthD2 [OF bs] by simp
    then show ?thesis by (simp add: block_for_verifies(1) [OF assms(2,3)])
  qed
  moreover have "\<exists>node. BuildLeafNode lib data = Ok node \<and>
      ExtractBlockData w clib (cid_String clib (nd_Cid node)) (nd_RawData node) = Ok data"
    using assms(4) extract_block [OF assms(1-3,8)] by (auto simp: BuildLeafNode_def dag_laws_def leaf_bytes_def)
  ultimately show ?thesis using dag ex bs assms(5) by (auto dest: list_all2_lengthD)
qed

theorem dag_roundtrip_witness:
  "\<exists>dag. BuildDAG (sample_dag_lib sample_prims) (sample_cid_lib sample_prims) [1, 2, 3] 2 = Ok dag \<and>
     length (cd_Blocks dag) = 2 \<and>
     obind (omap (\<lambda>b. ExtractBlockData sample_wire (sample_cid_lib sample_prims) (bu_CID b) (bu_Data b)) (cd_Blocks dag))
       (\<lambda>cs. Ok (concat cs)) = Ok [1, 2, 3]"
proof -
  have c: "chunks 2 [1, 2, 3 :: byte] = [[1, 2], [3]]" by (simp add: chunks.simps)
  have "leaf_bytes [1, 2] = [10, 8, 8, 2, 18, 2, 1, 2, 24, 2]" "leaf_bytes [3] = [10, 7, 8, 2, 18, 1, 3, 24, 1]" by code_simp+
  then have "sha256 sample_prims (leaf_bytes [1, 2]) \<noteq> sha256 sample_prims (leaf_bytes [3])"
    by (simp add: sample_prims_def be_decode_def)
  then have "sha256_sum sample_prims (leaf_bytes [1, 2]) \<noteq> sha256_sum sample_prims (leaf_bytes [3])"
    by (simp add: sha256_sum_eq_iff)
  then have "\<not> leaves_collide sample_prims (chunks 2 [1, 2, 3])" by (auto simp: leaves_collide_def c)
  with c show ?thesis
    using dag_roundtrip [OF sample_wire_laws sample_cid_laws sample_cid_text sample_dag_laws, of 2 "[1, 2, 3]" sample_prims]
    by auto
qed

end
