(* ===== verification/UploadState.thy ===== *)
theory UploadState
  imports Dag "HOL-Library.AList"
begin

text \<open>
  \<open>sdk/model.go\<close>: the values the SDK hands out, and the state of an upload that makes it resumable.

  Times are Unix seconds. The map of pre-created chunks is an association list with distinct
  keys; its order stands for the iteration order of Go's map. Chunk indices and counts are integers,
  sizes keep their 64 bits. The mutex only makes the map operations atomic; each is one function.
\<close>

section \<open>Values\<close>

record IPCBucketCreateResult =
  bcr_ID :: string
  bcr_Name :: string
  bcr_CreatedAt :: int

record IPCBucket =
  bk_ID :: string
  bk_Name :: string
  bk_CreatedAt :: int

record Chunk =
  ch_CID :: string
  ch_EncodedSize :: "64 word"
  ch_Size :: "64 word"
  ch_Index :: int

record FileBlockDownload =
  bd_CID :: string
  bd_Permit :: string
  bd_NodeAddress :: string
  bd_NodeID :: string

record FileChunkDownload =
  cdl_CID :: string
  cdl_Index :: int
  cdl_EncodedSize :: "64 word"
  cdl_Size :: "64 word"
  cdl_Blocks :: "FileBlockDownload list"

text \<open>The three atomic counters of an upload or a download.\<close>

record dataCounters =
  chunksCounter :: int
  blocksCounter :: int
  bytesCounter :: int

definition newDataCounters :: dataCounters where
  "newDataCounters = \<lparr>chunksCounter = 0, blocksCounter = 0, bytesCounter = 0\<rparr>"

definition Stats :: "dataCounters \<Rightarrow> int \<times> int \<times> int" where
  "Stats dc = (chunksCounter dc, blocksCounter dc, bytesCounter dc)"

record IPCFileDownload =
  fd_counters :: dataCounters
  fd_BucketName :: string
  fd_Name :: string
  fd_Chunks :: "Chunk list"

record IPCFileListItem =
  fl_RootCID :: string
  fl_Name :: string
  fl_EncodedSize :: "64 word"
  fl_ActualSize :: "64 word"
  fl_CreatedAt :: int

record IPCFileMeta =
  fm_RootCID :: string
  fm_Name :: string
  fm_BucketName :: string
  fm_EncodedSize :: "64 word"
  fm_ActualSize :: "64 word"
  fm_IsPublic :: bool
  fm_CreatedAt :: int

record IPCFileMetaV2 =
  fm2_RootCID :: string
  fm2_BucketName :: string
  fm2_Name :: string
  fm2_EncodedSize :: "64 word"
  fm2_Size :: "64 word"
  fm2_CreatedAt :: int
  fm2_CommittedAt :: int

record IPCFileChunkUploadV2 =
  cu_Index :: int
  cu_ChunkCID :: cid
  cu_ActualSize :: "64 word"
  cu_RawDataSize :: "64 word"
  cu_EncodedSize :: "64 word"
  cu_Blocks :: "FileBlockUpload list"
  cu_BucketID :: "byte list"
  cu_FileName :: string

record PDPBlockData =
  pdp_URL :: string
  pdp_Offset :: "64 word"
  pdp_Size :: "64 word"
  pdp_DataSetID :: "64 word"

record ArchivalBlock =
  ab_CID :: string
  ab_Size :: "64 word"
  ab_PDPData :: "PDPBlockData option"

record ArchivalChunk =
  ac_Chunk :: Chunk
  ac_Blocks :: "ArchivalBlock list"

record ArchivalMetadata =
  am_BucketName :: string
  am_Name :: string
  am_Chunks :: "ArchivalChunk list"

definition ErrMissingArchivalBlock :: "string \<Rightarrow> go_error" where
  "ErrMissingArchivalBlock blockCID =
     ErrNew (''missing archival block metadata for block CID '' @ blockCID)"

section \<open>The state of an upload\<close>

record chunkWithTx =
  cwt_chunk :: IPCFileChunkUploadV2
  cwt_tx :: "byte list"

record uploadState =
  us_dagRoot :: DAGRoot
  us_preCreatedChunks :: "(int \<times> chunkWithTx) list"
  us_isCommitted :: bool
  us_chunkCount :: int
  us_actualFileSize :: "64 word"
  us_encodedFileSize :: "64 word"

record IPCFileUpload =
  fu_counters :: dataCounters
  fu_BucketName :: string
  fu_Name :: string
  fu_state :: uploadState

definition NewIPCFileUpload :: "dag_lib \<Rightarrow> string \<Rightarrow> string \<Rightarrow> IPCFileUpload outcome" where
  "NewIPCFileUpload lib bucketName name =
     obind (NewDAGRoot lib) (\<lambda>dagRoot.
       Ok \<lparr>fu_counters = newDataCounters, fu_BucketName = bucketName, fu_Name = name,
           fu_state = \<lparr>us_dagRoot = dagRoot, us_preCreatedChunks = [], us_isCommitted = False,
             us_chunkCount = 0, us_actualFileSize = 0, us_encodedFileSize = 0\<rparr>\<rparr>)"

definition preCreateChunk :: "dag_lib \<Rightarrow> IPCFileChunkUploadV2 \<Rightarrow> byte list \<Rightarrow> (uploadState, unit) act" where
  "preCreateChunk lib chunk tx us =
     (let us = us\<lparr>us_preCreatedChunks := AList.update (cu_Index chunk) \<lparr>cwt_chunk = chunk, cwt_tx = tx\<rparr>
                   (us_preCreatedChunks us),
                 us_chunkCount := us_chunkCount us + 1,
                 us_actualFileSize := us_actualFileSize us + cu_ActualSize chunk,
                 us_encodedFileSize := us_encodedFileSize us + cu_EncodedSize chunk\<rparr>
      in case AddLink lib (cu_ChunkCID chunk) (cu_RawDataSize chunk) (cu_EncodedSize chunk) (us_dagRoot us) of
           (r, root) \<Rightarrow> (r, us\<lparr>us_dagRoot := root\<rparr>))"

definition chunkUploaded :: "IPCFileChunkUploadV2 \<Rightarrow> uploadState \<Rightarrow> uploadState" where
  "chunkUploaded chunk us =
     us\<lparr>us_preCreatedChunks := AList.delete (cu_Index chunk) (us_preCreatedChunks us)\<rparr>"

definition listPreCreatedChunks :: "uploadState \<Rightarrow> chunkWithTx list" where
  "listPreCreatedChunks us =
     (let keys = sort (map fst (us_preCreatedChunks us))
      in List.map_filter (map_of (us_preCreatedChunks us)) keys)"

section \<open>What the state records\<close>

text \<open>
  The specification: a history of created and uploaded chunks, and the chunks it leaves pending.
\<close>

datatype chunk_event = Created IPCFileChunkUploadV2 "byte list" | Uploaded IPCFileChunkUploadV2

fun apply_event :: "dag_lib \<Rightarrow> chunk_event \<Rightarrow> uploadState \<Rightarrow> uploadState" where
  "apply_event lib (Created c tx) us = snd (preCreateChunk lib c tx us)"
| "apply_event lib (Uploaded c) us = chunkUploaded c us"

fun pending_step :: "chunk_event \<Rightarrow> (int \<rightharpoonup> chunkWithTx) \<Rightarrow> (int \<rightharpoonup> chunkWithTx)" where
  "pending_step (Created c tx) m = m(cu_Index c \<mapsto> \<lparr>cwt_chunk = c, cwt_tx = tx\<rparr>)"
| "pending_step (Uploaded c) m = m(cu_Index c := None)"

fun created_chunk :: "chunk_event \<Rightarrow> IPCFileChunkUploadV2 option" where
  "created_chunk (Created c tx) = Some c"
| "created_chunk (Uploaded c) = None"

definition created :: "chunk_event list \<Rightarrow> IPCFileChunkUploadV2 list" where
  "created es = List.map_filter created_chunk es"

definition pending :: "chunk_event list \<Rightarrow> int \<rightharpoonup> chunkWithTx" where
  "pending es = fold pending_step es Map.empty"

definition chunk_link :: "IPCFileChunkUploadV2 \<Rightarrow> dag_link" where
  "chunk_link c = \<lparr>ln_Size = cu_EncodedSize c, ln_Cid = cu_ChunkCID c\<rparr>"

definition records_history :: "chunk_event list \<Rightarrow> uploadState \<Rightarrow> bool" where
  "records_history es us \<longleftrightarrow>
     map_of (us_preCreatedChunks us) = pending es \<and> distinct (map fst (us_preCreatedChunks us)) \<and>
     us_chunkCount us = int (length (created es)) \<and>
     us_actualFileSize us = sum_list (map cu_ActualSize (created es)) \<and>
     us_encodedFileSize us = sum_list (map cu_EncodedSize (created es)) \<and>
     root_links (us_dagRoot us) = map chunk_link (created es) \<and>
     root_blockSizes (us_dagRoot us) = map cu_RawDataSize (created es)"

lemma created_simps [simp]:
  "created [] = []" "created (es @ [Created c tx]) = created es @ [c]" "created (es @ [Uploaded c]) = created es"
  by (simp_all add: created_def map_filter_def)

lemma pending_snoc: "pending (es @ [e]) = pending_step e (pending es)"
  by (simp add: pending_def)

lemma records_history_step:
  assumes "\<forall>ls l. AddRawLink lib ls l = Ok ()" and "records_history es us"
  shows "records_history (es @ [e]) (apply_event lib e us)"
  using assms
  by (cases e)
    (auto simp: records_history_def preCreateChunk_def chunkUploaded_def AddLink_def Let_def pending_snoc
      chunk_link_def update_conv' AList.delete_conv' distinct_update distinct_delete)

lemma records_history_run:
  assumes "\<forall>ls l. AddRawLink lib ls l = Ok ()" and "records_history es us"
  shows "records_history (es @ es') (fold (apply_event lib) es' us)"
  using assms(2)
proof (induction es' arbitrary: es us)
  case (Cons e es')
  from Cons.IH [OF records_history_step [OF assms(1) Cons.prems]] show ?case by simp
qed simp

lemma pending_index: "pending es i = Some ct \<Longrightarrow> cu_Index (cwt_chunk ct) = i"
proof (induction es rule: rev_induct)
  case (snoc e es)
  then show ?case by (cases e) (auto simp: pending_snoc split: if_splits)
qed (simp add: pending_def)

lemma map_filter_total:
  "\<forall>i \<in> set ks. f i \<noteq> None \<Longrightarrow> List.map_filter f ks = map (\<lambda>i. the (f i)) ks"
  by (induction ks) (auto simp: map_filter_simps)

lemma ran_image: "ran f = (\<lambda>i. the (f i)) ` dom f"
  by (force simp: ran_def dom_def image_iff)

lemma listPreCreatedChunks_sorted:
  assumes "\<And>i ct. map_of m i = Some ct \<Longrightarrow> cu_Index (cwt_chunk ct) = i"
  shows "map (cu_Index \<circ> cwt_chunk) (List.map_filter (map_of m) (sort (map fst m))) = sort (map fst m)"
    and "set (List.map_filter (map_of m) (sort (map fst m))) = ran (map_of m)"
proof -
  have some: "\<forall>i \<in> set (sort (map fst m)). map_of m i \<noteq> None" by (simp add: map_of_eq_None_iff)
  then have ix: "\<forall>i \<in> set (sort (map fst m)). cu_Index (cwt_chunk (the (map_of m i))) = i"
    using assms by (metis option.collapse)
  show "map (cu_Index \<circ> cwt_chunk) (List.map_filter (map_of m) (sort (map fst m))) = sort (map fst m)"
    unfolding map_filter_total [OF some] map_map using ix by (intro map_idI) (simp del: set_sort)
  show "set (List.map_filter (map_of m) (sort (map fst m))) = ran (map_of m)"
    unfolding map_filter_total [OF some] ran_image by (simp add: dom_map_of_conv_image_fst)
qed


definition sample_chunk :: "int \<Rightarrow> IPCFileChunkUploadV2" where
  "sample_chunk i = \<lparr>cu_Index = i, cu_ChunkCID = [], cu_ActualSize = 5, cu_RawDataSize = 6, cu_EncodedSize = 7,
     cu_Blocks = [], cu_BucketID = [], cu_FileName = ''f''\<rparr>"


end
