(* ===== verification/SdkIpc.thy ===== *)
theory SdkIpc
  imports UploadState IpcErrors
begin

text \<open>
  \<open>sdk/sdk_ipc.go\<close>, the calls that need no chunk data: buckets, files, access, archival metadata, and
  the encryption of names.

  The node's gRPC API, the storage and access contracts, the connection pool and the clocks are the
  record \<open>api\<close>; each call is an \<open>act\<close> on the state of the world, which also carries the context
  of the call. Times are Unix seconds.
\<close>

section \<open>The interfaces of node and chain\<close>

record bucket_view =
  bv_Id :: string
  bv_Name :: string
  bv_CreatedAt :: int

record file_view =
  fv_BucketName :: string
  fv_FileName :: string
  fv_RootCid :: string
  fv_EncodedSize :: "64 word"
  fv_ActualSize :: "64 word"
  fv_IsPublic :: bool
  fv_CreatedAt :: int

record st_bucket =
  stb_Id :: "byte list"
  stb_Name :: string
  stb_CreatedAt :: int

record st_file =
  stf_Id :: "byte list"
  stf_CreatedAt :: int

text \<open>Messages of the chunk and block calls.\<close>

record pb_chunk =
  pc_Cid :: string
  pc_Index :: int
  pc_Size :: "64 word"
  pc_Blocks :: "(string \<times> 64 word) list"

record block_upload =
  bup_Cid :: string
  bup_NodeAddress :: string
  bup_NodeId :: string
  bup_Permit :: string

record block_download =
  bdl_Cid :: string
  bdl_Size :: "64 word"
  bdl_NodeId :: string
  bdl_NodeAddress :: string
  bdl_Permit :: string

record pb_block_data =
  pbd_Data :: "byte list"
  pbd_Cid :: string
  pbd_Index :: int
  pbd_Chunk :: "pb_chunk option"
  pbd_BucketId :: "byte list"
  pbd_FileName :: string
  pbd_Nonce :: "byte list"
  pbd_NodeId :: "byte list"
  pbd_Signature :: string
  pbd_Deadline :: int

record block_request =
  br_ChunkCid :: string
  br_ChunkIndex :: int
  br_BlockCid :: string
  br_BlockIndex :: int
  br_BucketName :: string
  br_FileName :: string
  br_Address :: string

record tx_opts =
  GasLimit :: "64 word"
  GasTipCap :: int
  GasFeeCap :: int

text \<open>
  \<open>st_error_data\<close> is the payload of an RPC error, \<open>status_NotFound\<close> whether a gRPC error has
  code NotFound. A stream is the list of its messages and the error it ends with.
\<close>

record ('s, 'c) api =
  st_From :: string
  st_error_data :: "go_error \<Rightarrow> error_payload option"
  st_retry_env :: "'s \<Rightarrow> retry_env"
  st_CreateBucket :: "string \<Rightarrow> ('s, byte list) act"
  st_GetBucketByName :: "string \<Rightarrow> ('s, st_bucket) act"
  st_GetBucketIndexByName :: "string \<Rightarrow> ('s, int \<times> bool) act"
  st_DeleteBucket :: "byte list \<Rightarrow> string \<Rightarrow> int \<Rightarrow> ('s, byte list) act"
  st_GetFileByName :: "byte list \<Rightarrow> string \<Rightarrow> ('s, st_file) act"
  st_GetFileIndexById :: "string \<Rightarrow> byte list \<Rightarrow> ('s, int \<times> bool) act"
  st_DeleteFile :: "byte list \<Rightarrow> byte list \<Rightarrow> string \<Rightarrow> int \<Rightarrow> ('s, byte list) act"
  st_CreateFile :: "byte list \<Rightarrow> string \<Rightarrow> ('s, byte list) act"
  st_AddFileChunks :: "tx_opts \<Rightarrow> byte list list \<Rightarrow> byte list \<Rightarrow> string \<Rightarrow> 64 word list \<Rightarrow> byte list list list \<Rightarrow>
    64 word list list \<Rightarrow> int \<Rightarrow> ('s, byte list) act"
  st_IsFileFilled :: "byte list \<Rightarrow> ('s, bool) act"
  st_CommitFile :: "byte list \<Rightarrow> string \<Rightarrow> 64 word \<Rightarrow> 64 word \<Rightarrow> byte list \<Rightarrow> ('s, byte list) act"
  am_ChangePublicAccess :: "byte list \<Rightarrow> bool \<Rightarrow> ('s, byte list) act"
  st_WaitForTx :: "byte list \<Rightarrow> ('s, unit) act"
  ipc_LatestBlock :: "('s, BlockInfo) act"
  rpc_BucketView :: "string \<Rightarrow> string \<Rightarrow> ('s, bucket_view) act"
  rpc_BucketList :: "string \<Rightarrow> 64 word \<Rightarrow> 64 word \<Rightarrow> ('s, (string \<times> int) list) act"
  rpc_FileView :: "string \<Rightarrow> string \<Rightarrow> string \<Rightarrow> ('s, file_view) act"
  rpc_FileList :: "string \<Rightarrow> string \<Rightarrow> 64 word \<Rightarrow> 64 word \<Rightarrow> ('s, IPCFileListItem list) act"
  rpc_FileDownloadCreate :: "string \<Rightarrow> string \<Rightarrow> string \<Rightarrow> ('s, string \<times> (string \<times> 64 word \<times> 64 word) list) act"
  rpc_FileDownloadRangeCreate :: "string \<Rightarrow> string \<Rightarrow> string \<Rightarrow> int \<Rightarrow> int \<Rightarrow>
    ('s, string \<times> (string \<times> 64 word \<times> 64 word) list) act"
  rpc_FileDownloadChunkCreate :: "string \<Rightarrow> string \<Rightarrow> string \<Rightarrow> int \<Rightarrow> string \<Rightarrow> ('s, block_download list) act"
  rpc_FileUploadChunkCreate :: "pb_chunk \<Rightarrow> byte list \<Rightarrow> string \<Rightarrow> ('s, block_upload list) act"
  pool_IPCClient :: "string \<Rightarrow> ('s, 'c) act"
  pool_ArchivalClient :: "string \<Rightarrow> ('s, 'c) act"
  cl_FileResolveBlock :: "'c \<Rightarrow> string \<Rightarrow> ('s, PDPBlockData) act"
  status_NotFound :: "go_error \<Rightarrow> bool"
  cl_FileDownloadBlock :: "'c \<Rightarrow> block_request \<Rightarrow> ('s, byte list list \<times> go_error) act"
  cl_FileUploadBlock :: "'c \<Rightarrow> ('s, unit) act"
  snd_Send :: "'c \<Rightarrow> pb_block_data \<Rightarrow> ('s, unit) act"
  snd_CloseAndRecv :: "'c \<Rightarrow> ('s, unit) act"
  http_newRequest :: "string \<Rightarrow> unit outcome"
  http_do :: "string \<Rightarrow> string \<Rightarrow> ('s, http_response) act"
  time_Now :: "'s \<Rightarrow> int"
  rand_Reader :: "'s \<Rightarrow> rand_reader \<times> 's"
  ctx_err :: "'s \<Rightarrow> go_error option"
  ctx_cancel :: "'s \<Rightarrow> 's"

text \<open>\<open>errSDK.Wrap(ipc.ErrorHashToError(err))\<close>\<close>

definition chain_err :: "('s, 'c) api \<Rightarrow> go_error \<Rightarrow> go_error" where
  "chain_err A e = (case ErrorHashToError (st_error_data A) (Some e) of Some e' \<Rightarrow> errSDK e' | None \<Rightarrow> errSDK e)"

abbreviation sdk_wrap :: "('s, 'a) act \<Rightarrow> ('s, 'a) act" where
  "sdk_wrap \<equiv> amap_err errSDK"

abbreviation chain_wrap :: "('s, 'c) api \<Rightarrow> ('s, 'a) act \<Rightarrow> ('s, 'a) act" where
  "chain_wrap A \<equiv> amap_err (chain_err A)"

definition sdk_fail :: "string \<Rightarrow> ('s, 'a) act" where
  "sdk_fail msg = afail (errSDK (ErrNew msg))"

text \<open>Reads are retried after every error, transactions after retryable ones.\<close>

definition retry_read :: "('s, 'c) api \<Rightarrow> ('cl, 'conn, 'http) IPC \<Rightarrow> ('s, 'a) act \<Rightarrow> ('s, 'a) act" where
  "retry_read A sdk m = retry_act (ipc_withRetry sdk) (st_retry_env A) (\<lambda>_. True) m"

definition retry_tx :: "('s, 'c) api \<Rightarrow> ('cl, 'conn, 'http) IPC \<Rightarrow> ('s, 'a) act \<Rightarrow> ('s, 'a) act" where
  "retry_tx A sdk m = retry_act (ipc_withRetry sdk) (st_retry_env A) (\<lambda>e. isRetryableTxError (Some e)) m"

section \<open>Names\<close>

definition maybeEncryptMetadata :: "prims \<Rightarrow> ('cl, 'conn, 'http) IPC \<Rightarrow> string \<Rightarrow> string \<Rightarrow> string outcome" where
  "maybeEncryptMetadata P sdk val derivationPath =
     (if ipc_encryptionKey sdk \<noteq> [] \<and> ipc_useMetadataEncryption sdk
      then obind (EncryptD P (ipc_encryptionKey sdk) (bytes_of val) derivationPath) (\<lambda>encrypted. Ok (hex_encode encrypted))
      else Ok val)"

definition maybeDecryptMetadata :: "prims \<Rightarrow> ('cl, 'conn, 'http) IPC \<Rightarrow> string \<Rightarrow> string \<Rightarrow> string outcome" where
  "maybeDecryptMetadata P sdk val derivationPath =
     (if ipc_encryptionKey sdk \<noteq> [] \<and> ipc_useMetadataEncryption sdk
      then obind (map_err errSDK (hex_decode val)) (\<lambda>encrypted.
           obind (map_err errSDK (Decrypt P (ipc_encryptionKey sdk) encrypted derivationPath)) (\<lambda>decrypted.
           Ok (string_of decrypted)))
      else Ok val)"

interpretation metadata: codec "\<lambda>v. maybeEncryptMetadata P sdk v path" "\<lambda>v. maybeDecryptMetadata P sdk v path"
  "\<lambda>_. True" for P sdk path
proof
  show "\<exists>y. maybeEncryptMetadata P sdk x path = Ok y" for x
    using encd.enc_total [of P "ipc_encryptionKey sdk" "bytes_of x" path] by (auto simp: maybeEncryptMetadata_def)
next
  fix x y
  assume "maybeEncryptMetadata P sdk x path = Ok y"
  then show "maybeDecryptMetadata P sdk y path = Ok x"
    using encd.dec_enc [of P "ipc_encryptionKey sdk" "bytes_of x" path]
    by (auto simp: maybeEncryptMetadata_def maybeDecryptMetadata_def obind_Ok_iff split: if_splits)
qed

section \<open>Buckets\<close>

record sdk_BlockInfo =
  sbi_Number :: "64 word"
  sbi_Time :: "64 word"
  sbi_Hash :: string

text \<open>\<open>Hash.Hex()\<close> is the hexadecimal text with a prefix.\<close>

definition LatestBlockNumber_sdk :: "('s, 'c) api \<Rightarrow> ('s, sdk_BlockInfo) act" where
  "LatestBlockNumber_sdk A =
     abind (sdk_wrap (ipc_LatestBlock A)) (\<lambda>info.
       aret \<lparr>sbi_Number = bi_Number info, sbi_Time = bi_Time info, sbi_Hash = ''0x'' @ hex_encode (bi_Hash info)\<rparr>)"

definition CreateBucket ::
  "prims \<Rightarrow> ('s, 'c) api \<Rightarrow> ('cl, 'conn, 'http) IPC \<Rightarrow> string \<Rightarrow> ('s, IPCBucketCreateResult) act" where
  "CreateBucket P A sdk name =
     (if length name < minBucketNameLength then sdk_fail ''invalid bucket name''
      else
        abind (sdk_wrap (alift (maybeEncryptMetadata P sdk name ''bucket''))) (\<lambda>nameEnc.
        abind (chain_wrap A (retry_tx A sdk (st_CreateBucket A nameEnc))) (\<lambda>tx.
        abind (sdk_wrap (st_WaitForTx A tx)) (\<lambda>_.
        abind (chain_wrap A (st_GetBucketByName A nameEnc)) (\<lambda>bucket.
        abind (sdk_wrap (alift (maybeDecryptMetadata P sdk (stb_Name bucket) ''bucket''))) (\<lambda>bName.
        aret \<lparr>bcr_ID = hex_encode (stb_Id bucket), bcr_Name = bName, bcr_CreatedAt = stb_CreatedAt bucket\<rparr>))))))"

definition ViewBucket ::
  "prims \<Rightarrow> ('s, 'c) api \<Rightarrow> ('cl, 'conn, 'http) IPC \<Rightarrow> string \<Rightarrow> ('s, IPCBucket) act" where
  "ViewBucket P A sdk bucketName =
     (if bucketName = [] then sdk_fail ''empty bucket name''
      else
        abind (sdk_wrap (alift (maybeEncryptMetadata P sdk bucketName ''bucket''))) (\<lambda>bucketNameEnc.
        abind (sdk_wrap (rpc_BucketView A bucketNameEnc (st_From A))) (\<lambda>res.
        abind (sdk_wrap (alift (maybeDecryptMetadata P sdk (bv_Name res) ''bucket''))) (\<lambda>bName.
        aret \<lparr>bk_ID = bv_Id res, bk_Name = bName, bk_CreatedAt = bv_CreatedAt res\<rparr>))))"

text \<open>A name that does not decrypt is listed as it is.\<close>

definition ListBuckets ::
  "prims \<Rightarrow> ('s, 'c) api \<Rightarrow> ('cl, 'conn, 'http) IPC \<Rightarrow> 64 word \<Rightarrow> 64 word \<Rightarrow> ('s, IPCBucket list) act" where
  "ListBuckets P A sdk offset limit =
     abind (sdk_wrap (rpc_BucketList A (st_From A) offset limit)) (\<lambda>buckets.
     alift (omap (\<lambda>(name, createdAt).
       obind (case maybeDecryptMetadata P sdk name ''bucket'' of Err _ \<Rightarrow> Ok name | r \<Rightarrow> r) (\<lambda>bName.
         Ok \<lparr>bk_ID = [], bk_Name = bName, bk_CreatedAt = createdAt\<rparr>)) buckets))"

text \<open>\<open>copy(dst[:], src)\<close> into an array of 32 bytes.\<close>

definition to_bytes32 :: "byte list \<Rightarrow> byte list" where
  "to_bytes32 src = take 32 (src @ replicate 32 0)"

definition DeleteBucket :: "prims \<Rightarrow> ('s, 'c) api \<Rightarrow> ('cl, 'conn, 'http) IPC \<Rightarrow> string \<Rightarrow> ('s, unit) act" where
  "DeleteBucket P A sdk name =
     abind (sdk_wrap (alift (maybeEncryptMetadata P sdk name ''bucket''))) (\<lambda>nameEnc.
     abind (chain_wrap A (rpc_BucketView A nameEnc (st_From A))) (\<lambda>bucket.
     abind (sdk_wrap (alift (hex_decode (bv_Id bucket)))) (\<lambda>id.
     abind (chain_wrap A (st_GetBucketIndexByName A (bv_Name bucket))) (\<lambda>(index, exists).
     if \<not> exists then sdk_fail (''bucket does not exist: '' @ nameEnc)
     else
       abind (chain_wrap A (st_DeleteBucket A (to_bytes32 id) (bv_Name bucket) index)) (\<lambda>tx.
       sdk_wrap (st_WaitForTx A tx))))))"

section \<open>Files\<close>

definition FileInfo ::
  "prims \<Rightarrow> ('s, 'c) api \<Rightarrow> ('cl, 'conn, 'http) IPC \<Rightarrow> string \<Rightarrow> string \<Rightarrow> ('s, IPCFileMeta) act" where
  "FileInfo P A sdk bucketName fileName =
     (if bucketName = [] then sdk_fail ''empty bucket name''
      else
        abind (sdk_wrap (alift (maybeEncryptMetadata P sdk bucketName ''bucket''))) (\<lambda>bucketNameEnc.
        abind (sdk_wrap (alift (maybeEncryptMetadata P sdk fileName bucketName))) (\<lambda>fileNameEnc.
        abind (sdk_wrap (rpc_FileView A fileNameEnc bucketNameEnc (st_From A))) (\<lambda>res.
        abind (sdk_wrap (alift (maybeDecryptMetadata P sdk (fv_BucketName res) ''bucket''))) (\<lambda>bName.
        abind (sdk_wrap (alift (maybeDecryptMetadata P sdk (fv_FileName res) bName))) (\<lambda>fName.
        aret \<lparr>fm_RootCID = fv_RootCid res, fm_Name = fName, fm_BucketName = bName,
              fm_EncodedSize = fv_EncodedSize res, fm_ActualSize = fv_ActualSize res,
              fm_IsPublic = fv_IsPublic res, fm_CreatedAt = fv_CreatedAt res\<rparr>))))))"

definition ListFiles ::
  "prims \<Rightarrow> ('s, 'c) api \<Rightarrow> ('cl, 'conn, 'http) IPC \<Rightarrow> string \<Rightarrow> 64 word \<Rightarrow> 64 word \<Rightarrow> ('s, IPCFileListItem list) act" where
  "ListFiles P A sdk bucketName offset limit =
     (if bucketName = [] then sdk_fail ''empty bucket name''
      else
        abind (sdk_wrap (alift (maybeEncryptMetadata P sdk bucketName ''bucket''))) (\<lambda>bucketNameEnc.
        abind (sdk_wrap (rpc_FileList A bucketNameEnc (st_From A) offset limit)) (\<lambda>resp.
        alift (omap (\<lambda>fileMeta.
          obind (map_err (\<lambda>e. errSDK (ErrWrap ''failed to decrypt metadata: '' e []))
                   (maybeDecryptMetadata P sdk (fl_Name fileMeta) bucketName)) (\<lambda>fName.
            Ok (fileMeta\<lparr>fl_Name := fName\<rparr>))) resp))))"

text \<open>
  \<open>strings.TrimSpace(s) == ""\<close>: only white space, in UTF-8.
\<close>

fun blank_bytes :: "byte list \<Rightarrow> bool" where
  "blank_bytes [] = True"
| "blank_bytes (b # bs) =
     (if b \<in> {9, 10, 11, 12, 13, 32} then blank_bytes bs
      else case bs of
          c # bs' \<Rightarrow>
            if b = 194 \<and> c \<in> {133, 160} then blank_bytes bs'
            else (case bs' of
                d # bs'' \<Rightarrow>
                  if (b = 225 \<and> c = 154 \<and> d = 128) \<or> (b = 226 \<and> c = 128 \<and> (128 \<le> d \<and> d \<le> 138 \<or> d \<in> {168, 169, 175})) \<or>
                     (b = 226 \<and> c = 129 \<and> d = 159) \<or> (b = 227 \<and> c = 128 \<and> d = 128)
                  then blank_bytes bs'' else False
              | [] \<Rightarrow> False)
        | [] \<Rightarrow> False)"

definition blank :: "string \<Rightarrow> bool" where
  "blank s = blank_bytes (bytes_of s)"

definition FileDelete ::
  "prims \<Rightarrow> ('s, 'c) api \<Rightarrow> ('cl, 'conn, 'http) IPC \<Rightarrow> string \<Rightarrow> string \<Rightarrow> ('s, unit) act" where
  "FileDelete P A sdk bucketName fileName =
     (if blank bucketName \<or> blank fileName
      then sdk_fail (''empty bucket or file name. Bucket: '' @ [CHR 0x27] @ bucketName @ [CHR 0x27] @ '', File: '' @
             [CHR 0x27] @ fileName @ [CHR 0x27])
      else
        abind (sdk_wrap (alift (maybeEncryptMetadata P sdk bucketName ''bucket''))) (\<lambda>bucketNameEnc.
        abind (sdk_wrap (alift (maybeEncryptMetadata P sdk fileName bucketName))) (\<lambda>fileNameEnc.
        abind (chain_wrap A (st_GetBucketByName A bucketNameEnc)) (\<lambda>bucket.
        abind (chain_wrap A (st_GetFileByName A (stb_Id bucket) fileNameEnc)) (\<lambda>file.
        abind (chain_wrap A (st_GetFileIndexById A (stb_Name bucket) (stf_Id file))) (\<lambda>(index, exists).
        if \<not> exists then sdk_fail (''file index not exists: '' @ fileNameEnc)
        else
          abind (chain_wrap A (st_DeleteFile A (stf_Id file) (stb_Id bucket) fileNameEnc index)) (\<lambda>tx.
          sdk_wrap (st_WaitForTx A tx))))))))"

text \<open>
  \<open>return fileUpload, errSDK.Wrap(WaitForTx(...))\<close>: the state of the upload is only used when
  the error is nil.
\<close>

definition CreateFileUpload ::
  "prims \<Rightarrow> dag_lib \<Rightarrow> ('s, 'c) api \<Rightarrow> ('cl, 'conn, 'http) IPC \<Rightarrow> string \<Rightarrow> string \<Rightarrow> ('s, IPCFileUpload) act" where
  "CreateFileUpload P lib A sdk bucketName fileName =
     (if bucketName = [] then sdk_fail ''empty bucket name''
      else
        abind (sdk_wrap (alift (maybeEncryptMetadata P sdk fileName bucketName))) (\<lambda>fileNameEnc.
        abind (sdk_wrap (alift (maybeEncryptMetadata P sdk bucketName ''bucket''))) (\<lambda>bucketNameEnc.
        abind (sdk_wrap (alift (NewIPCFileUpload lib bucketNameEnc fileNameEnc))) (\<lambda>fileUpload.
        abind (chain_wrap A (retry_read A sdk (st_GetBucketByName A bucketNameEnc))) (\<lambda>bucket.
        abind (chain_wrap A (retry_tx A sdk (st_CreateFile A (stb_Id bucket) fileNameEnc))) (\<lambda>tx.
        abind (sdk_wrap (st_WaitForTx A tx)) (\<lambda>_.
        aret fileUpload)))))))"

definition download_chunks :: "int \<Rightarrow> (string \<times> 64 word \<times> 64 word) list \<Rightarrow> Chunk list" where
  "download_chunks start res =
     map (\<lambda>(i, c, encodedSize, size). \<lparr>ch_CID = c, ch_EncodedSize = encodedSize, ch_Size = size, ch_Index = int i + start\<rparr>)
       (enumerate 0 res)"

definition CreateFileDownload ::
  "prims \<Rightarrow> ('s, 'c) api \<Rightarrow> ('cl, 'conn, 'http) IPC \<Rightarrow> string \<Rightarrow> string \<Rightarrow> ('s, IPCFileDownload) act" where
  "CreateFileDownload P A sdk bucketName fileName =
     (if bucketName = [] then sdk_fail ''empty bucket name''
      else if fileName = [] then sdk_fail ''empty file name''
      else
        abind (sdk_wrap (alift (maybeEncryptMetadata P sdk bucketName ''bucket''))) (\<lambda>bucketNameEnc.
        abind (sdk_wrap (alift (maybeEncryptMetadata P sdk fileName bucketName))) (\<lambda>fileNameEnc.
        abind (sdk_wrap (rpc_FileDownloadCreate A bucketNameEnc fileNameEnc (st_From A))) (\<lambda>(resBucket, resChunks).
        aret \<lparr>fd_counters = newDataCounters, fd_BucketName = resBucket, fd_Name = fileNameEnc,
              fd_Chunks = download_chunks 0 resChunks\<rparr>))))"

definition CreateRangeFileDownload ::
  "prims \<Rightarrow> ('s, 'c) api \<Rightarrow> ('cl, 'conn, 'http) IPC \<Rightarrow> string \<Rightarrow> string \<Rightarrow> int \<Rightarrow> int \<Rightarrow> ('s, IPCFileDownload) act" where
  "CreateRangeFileDownload P A sdk bucketName fileName start stop =
     (if bucketName = [] then sdk_fail ''empty bucket name''
      else if fileName = [] then sdk_fail ''empty file name''
      else
        abind (sdk_wrap (alift (maybeEncryptMetadata P sdk bucketName ''bucket''))) (\<lambda>bucketNameEnc.
        abind (sdk_wrap (alift (maybeEncryptMetadata P sdk fileName bucketName))) (\<lambda>fileNameEnc.
        abind (sdk_wrap (rpc_FileDownloadRangeCreate A bucketNameEnc fileNameEnc (st_From A) start stop)) (\<lambda>(resBucket, resChunks).
        aret \<lparr>fd_counters = newDataCounters, fd_BucketName = resBucket, fd_Name = fileNameEnc,
              fd_Chunks = download_chunks start resChunks\<rparr>))))"

text \<open>The error of the access manager's transaction is not translated.\<close>

definition FileSetPublicAccess ::
  "prims \<Rightarrow> ('s, 'c) api \<Rightarrow> ('cl, 'conn, 'http) IPC \<Rightarrow> string \<Rightarrow> string \<Rightarrow> bool \<Rightarrow> ('s, unit) act" where
  "FileSetPublicAccess P A sdk bucketName fileName isPublic =
     abind (sdk_wrap (alift (maybeEncryptMetadata P sdk bucketName ''bucket''))) (\<lambda>bucketNameEnc.
     abind (sdk_wrap (alift (maybeEncryptMetadata P sdk fileName bucketName))) (\<lambda>fileNameEnc.
     abind (chain_wrap A (st_GetBucketByName A bucketNameEnc)) (\<lambda>bucket.
     abind (chain_wrap A (st_GetFileByName A (stb_Id bucket) fileNameEnc)) (\<lambda>file.
     abind (sdk_wrap (am_ChangePublicAccess A (stf_Id file) isPublic)) (\<lambda>tx.
     sdk_wrap (st_WaitForTx A tx))))))"

definition createChunkDownload ::
  "('s, 'c) api \<Rightarrow> string \<Rightarrow> string \<Rightarrow> Chunk \<Rightarrow> ('s, FileChunkDownload) act" where
  "createChunkDownload A bucketName fileName chunk =
     abind (sdk_wrap (rpc_FileDownloadChunkCreate A bucketName fileName (ch_CID chunk) (ch_Index chunk) (st_From A))) (\<lambda>res.
       aret \<lparr>cdl_CID = ch_CID chunk, cdl_Index = ch_Index chunk, cdl_EncodedSize = ch_EncodedSize chunk,
             cdl_Size = ch_Size chunk,
             cdl_Blocks = map (\<lambda>b. \<lparr>bd_CID = bdl_Cid b, bd_Permit = bdl_Permit b,
               bd_NodeAddress = bdl_NodeAddress b, bd_NodeID = bdl_NodeId b\<rparr>) res\<rparr>)"

section \<open>What the contract promises\<close>

text \<open>
  The registry of buckets as the contract keeps it, by name. A transaction that fails to be sent
  may still have been executed (the connection may break after it was accepted); one that is
  accepted found no bucket of that name.
\<close>

definition registers :: "('s \<Rightarrow> string \<rightharpoonup> st_bucket) \<Rightarrow> string \<Rightarrow> 's \<Rightarrow> 's \<Rightarrow> bool" where
  "registers reg n s s' \<longleftrightarrow> reg s n = None \<and> (\<exists>b. stb_Name b = n \<and> reg s' = (reg s)(n \<mapsto> b))"

definition bucket_laws :: "('s, 'c) api \<Rightarrow> ('s \<Rightarrow> string \<rightharpoonup> st_bucket) \<Rightarrow> bool" where
  "bucket_laws A reg \<longleftrightarrow>
     (\<forall>n s r s'. st_CreateBucket A n s = (r, s') \<longrightarrow>
        (\<exists>tx. r = Ok tx) \<and> registers reg n s s' \<or> (\<nexists>tx. r = Ok tx) \<and> (reg s' = reg s \<or> registers reg n s s')) \<and>
     (\<forall>n s r s'. st_GetBucketByName A n s = (r, s') \<longrightarrow> reg s' = reg s \<and> (\<forall>b. r = Ok b \<longrightarrow> reg s n = Some b)) \<and>
     (\<forall>tx s r s'. st_WaitForTx A tx s = (r, s') \<longrightarrow> reg s' = reg s)"

lemma bucket_laws_wait: "bucket_laws A reg \<Longrightarrow> st_WaitForTx A tx s = (r, s') \<Longrightarrow> reg s' = reg s"
  by (simp add: bucket_laws_def)

lemma bucket_laws_get:
  "bucket_laws A reg \<Longrightarrow> st_GetBucketByName A n s = (r, s') \<Longrightarrow>
   reg s' = reg s \<and> (\<forall>b. r = Ok b \<longrightarrow> reg s n = Some b)"
  unfolding bucket_laws_def by (elim conjE) metis

section \<open>Properties\<close>

text \<open>Names sent to the node and the contract are recovered: decrypting an encrypted bucket or file name gives the
  name, and two names are sent as the same text exactly when they are equal, so lookups by encrypted name
  work. Without metadata encryption names are sent as they are; with it, as the hexadecimal text of nonce,
  ciphertext and tag.\<close>

theorem metadata_roundtrip:
  "obind (maybeEncryptMetadata P sdk v path) (\<lambda>e. maybeDecryptMetadata P sdk e path) = Ok v \<and>
   (maybeEncryptMetadata P sdk v path = maybeEncryptMetadata P sdk v' path \<longleftrightarrow> v = v') \<and>
   (\<exists>e. maybeEncryptMetadata P sdk v path = Ok e \<and>
      length e = (if ipc_encryptionKey sdk \<noteq> [] \<and> ipc_useMetadataEncryption sdk then 2 * (length v + 28) else length v))"
proof (intro conjI)
  show "obind (maybeEncryptMetadata P sdk v path) (\<lambda>e. maybeDecryptMetadata P sdk e path) = Ok v"
    using metadata.roundtrip by blast
  show "maybeEncryptMetadata P sdk v path = maybeEncryptMetadata P sdk v' path \<longleftrightarrow> v = v'"
    using metadata.enc_inj [OF TrueI TrueI] by metis
  show "\<exists>e. maybeEncryptMetadata P sdk v path = Ok e \<and>
      length e = (if ipc_encryptionKey sdk \<noteq> [] \<and> ipc_useMetadataEncryption sdk then 2 * (length v + 28) else length v)"
    by (simp add: maybeEncryptMetadata_def EncryptD_eq len_simps)
qed

text \<open>\<open>CreateBucket\<close> refuses short names without touching the world; when it succeeds, under whatever errors and retries,
  exactly one bucket was registered, under the encrypted name, and the result carries the plain name
  and the identifier of that bucket.\<close>

theorem bucket_created:
  assumes "bucket_laws A reg" and "CreateBucket P A sdk name s = (r, s')"
  shows "(length name < 3 \<longrightarrow> (\<exists>e. r = Err e) \<and> s' = s) \<and>
    (\<forall>res. r = Ok res \<longrightarrow>
      (\<exists>enc b. maybeEncryptMetadata P sdk name ''bucket'' = Ok enc \<and> reg s enc = None \<and>
        reg s' = (reg s)(enc \<mapsto> b) \<and> bcr_Name res = name \<and> bcr_ID res = hex_encode (stb_Id b)))"
proof -
  have "(\<exists>e. r = Err e) \<and> s' = s" if "length name < 3"
    using that assms(2) by (auto simp: CreateBucket_def minBucketNameLength_def sdk_fail_def)
  moreover have "\<exists>enc b. maybeEncryptMetadata P sdk name ''bucket'' = Ok enc \<and> reg s enc = None \<and>
        reg s' = (reg s)(enc \<mapsto> b) \<and> bcr_Name res = name \<and> bcr_ID res = hex_encode (stb_Id b)"
    if r: "r = Ok res" for res
  proof -
  obtain enc tx s1 u s2 b bName where
    enc: "maybeEncryptMetadata P sdk name ''bucket'' = Ok enc" and
    create: "retry_tx A sdk (st_CreateBucket A enc) s = (Ok tx, s1)" and
    wait: "st_WaitForTx A tx s1 = (Ok u, s2)" and get: "st_GetBucketByName A enc s2 = (Ok b, s')" and
    dec: "maybeDecryptMetadata P sdk (stb_Name b) ''bucket'' = Ok bName" and
    res: "res = \<lparr>bcr_ID = hex_encode (stb_Id b), bcr_Name = bName, bcr_CreatedAt = stb_CreatedAt b\<rparr>"
    using assms(2) unfolding r
    by (auto simp: CreateBucket_def sdk_fail_def abind_Ok_iff split: if_splits)
  let ?I = "\<lambda>t. reg t = reg s \<or> registers reg enc s t"
  have laws: "st_CreateBucket A enc t = (q, t') \<Longrightarrow>
      (\<exists>tx. q = Ok tx) \<and> registers reg enc t t' \<or> (\<nexists>tx. q = Ok tx) \<and> (reg t' = reg t \<or> registers reg enc t t')"
    for t q t' using assms(1) by (simp add: bucket_laws_def)
  have keep: "?I t'" if "?I t" "st_CreateBucket A enc t = (q, t')" for t q t'
    using laws [OF that(2)] that(1) by (auto simp: registers_def)
  have "\<exists>s0. ?I s0 \<and> st_CreateBucket A enc s0 = (Ok tx, s1)"
    by (rule retry_act_Ok [where I = ?I, OF keep _ create [unfolded retry_tx_def]]) simp_all
  then obtain s0 where s0: "?I s0" "st_CreateBucket A enc s0 = (Ok tx, s1)" by blast
  then have "registers reg enc s s1" using laws [OF s0(2)] by (auto simp: registers_def)
  then obtain b' where b': "reg s enc = None" "stb_Name b' = enc" "reg s1 = (reg s)(enc \<mapsto> b')"
    unfolding registers_def by blast
  have after: "reg s2 = reg s1" "reg s' = reg s2" "reg s2 enc = Some b"
    using bucket_laws_wait [OF assms(1) wait] bucket_laws_get [OF assms(1) get] by simp_all
  have "b' = b" using b'(3) after(1,3) by (metis fun_upd_same option.inject)
  moreover have "bName = name" using dec metadata.dec_enc [OF TrueI enc] b'(2) \<open>b' = b\<close> by simp
  moreover have "reg s' = (reg s)(enc \<mapsto> b')" by (simp only: after(2,1) b'(3))
  ultimately show ?thesis using enc res b'(1) by auto
  qed
  ultimately show ?thesis by blast
qed

text \<open>A world in which every call fails, from which the examples build theirs.\<close>

definition failing_api :: "('s, 'c) api" where
  "failing_api = \<lparr>
     st_From = ''0x01'', st_error_data = (\<lambda>_. None),
     st_retry_env = (\<lambda>_. \<lparr>random = (\<lambda>_. 0), ctx_done = (\<lambda>_. None)\<rparr>),
     st_CreateBucket = (\<lambda>_. afail NotFound), st_GetBucketByName = (\<lambda>_. afail NotFound),
     st_GetBucketIndexByName = (\<lambda>_. afail NotFound), st_DeleteBucket = (\<lambda>_ _ _. afail NotFound),
     st_GetFileByName = (\<lambda>_ _. afail NotFound), st_GetFileIndexById = (\<lambda>_ _. afail NotFound),
     st_DeleteFile = (\<lambda>_ _ _ _. afail NotFound), st_CreateFile = (\<lambda>_ _. afail NotFound),
     st_AddFileChunks = (\<lambda>_ _ _ _ _ _ _ _. afail NotFound), st_IsFileFilled = (\<lambda>_. afail NotFound),
     st_CommitFile = (\<lambda>_ _ _ _ _. afail NotFound), am_ChangePublicAccess = (\<lambda>_ _. afail NotFound),
     st_WaitForTx = (\<lambda>_. afail NotFound), ipc_LatestBlock = afail NotFound,
     rpc_BucketView = (\<lambda>_ _. afail NotFound), rpc_BucketList = (\<lambda>_ _ _. afail NotFound),
     rpc_FileView = (\<lambda>_ _ _. afail NotFound), rpc_FileList = (\<lambda>_ _ _ _. afail NotFound),
     rpc_FileDownloadCreate = (\<lambda>_ _ _. afail NotFound), rpc_FileDownloadRangeCreate = (\<lambda>_ _ _ _ _. afail NotFound),
     rpc_FileDownloadChunkCreate = (\<lambda>_ _ _ _ _. afail NotFound),
     rpc_FileUploadChunkCreate = (\<lambda>_ _ _. afail NotFound),
     pool_IPCClient = (\<lambda>_. afail NotFound), pool_ArchivalClient = (\<lambda>_. afail NotFound),
     cl_FileResolveBlock = (\<lambda>_ _. afail NotFound), status_NotFound = (\<lambda>_. False),
     cl_FileDownloadBlock = (\<lambda>_ _. afail NotFound), cl_FileUploadBlock = (\<lambda>_. afail NotFound),
     snd_Send = (\<lambda>_ _. afail NotFound), snd_CloseAndRecv = (\<lambda>_. afail NotFound),
     http_newRequest = (\<lambda>_. Ok ()), http_do = (\<lambda>_ _. afail NotFound), time_Now = (\<lambda>_. 0),
     rand_Reader = (\<lambda>s. (Ok (\<lambda>_. 0), s)), ctx_err = (\<lambda>_. None), ctx_cancel = (\<lambda>s. s)\<rparr>"

definition sample_ipc :: "byte list \<Rightarrow> ErasureCode option \<Rightarrow> (unit, unit, unit) IPC" where
  "sample_ipc key ec = \<lparr>ipc_ipc = (), ipc_httpClient = Some (), ipc_ec = ec, ipc_pool = newConnectionPool,
     ipc_privateKey = ''05'', ipc_chainID = 1, ipc_storageAddress = ''0xab'', ipc_maxConcurrency = 4,
     ipc_blockPartSize = 2, ipc_encryptionKey = key, ipc_maxBlocksInChunk = 2, ipc_useMetadataEncryption = True,
     ipc_chunkBuffer = 0, ipc_chunkBatchSize = 1, ipc_withRetry = \<lparr>MaxAttempts = 0, BaseDelay = 100000000\<rparr>\<rparr>"

lemma sample_ipc_sel [simp]:
  "ipc_encryptionKey (sample_ipc key ec) = key" "ipc_ec (sample_ipc key ec) = ec" "ipc_blockPartSize (sample_ipc key ec) = 2"
  by (simp_all add: sample_ipc_def)

text \<open>A chain that keeps a list of buckets.\<close>

definition bucket_api :: "(st_bucket list, unit) api" where
  "bucket_api = failing_api\<lparr>
     st_CreateBucket := (\<lambda>n s. if find (\<lambda>b. stb_Name b = n) s = None
       then (Ok [1], \<lparr>stb_Id = [of_nat (length s)], stb_Name = n, stb_CreatedAt = 7\<rparr> # s) else (Err ErrBucketAlreadyExists, s)),
     st_GetBucketByName := (\<lambda>n s. (case find (\<lambda>b. stb_Name b = n) s of Some b \<Rightarrow> Ok b | None \<Rightarrow> Err NotFound, s)),
     st_WaitForTx := (\<lambda>_ s. (Ok (), s))\<rparr>"

lemma bucket_api_laws: "bucket_laws bucket_api (\<lambda>s n. find (\<lambda>b. stb_Name b = n) s)"
  by (auto simp: bucket_laws_def bucket_api_def registers_def fun_eq_iff split: option.splits if_splits)

theorem bucket_created_witness:
  "\<exists>res. CreateBucket sample_prims bucket_api (sample_ipc [] None) ''abc'' [] =
     (Ok res, [\<lparr>stb_Id = [0], stb_Name = ''abc'', stb_CreatedAt = 7\<rparr>]) \<and> bcr_Name res = ''abc''"
proof -
  obtain r s' where c: "CreateBucket sample_prims bucket_api (sample_ipc [] None) ''abc'' [] = (r, s')"
    by (cases "CreateBucket sample_prims bucket_api (sample_ipc [] None) ''abc'' []")
  have "retry_tx bucket_api (sample_ipc [] None) (st_CreateBucket bucket_api ''abc'') [] =
      (Ok [1], [\<lparr>stb_Id = [0], stb_Name = ''abc'', stb_CreatedAt = 7\<rparr>])"
    unfolding retry_tx_def by (rule retry_act_first) (simp add: bucket_api_def)
  moreover have "st_WaitForTx bucket_api tx s = (Ok (), s)" for tx s by (simp add: bucket_api_def)
  moreover have "st_GetBucketByName bucket_api n [b] = (if stb_Name b = n then Ok b else Err NotFound, [b])" for n b
    by (simp add: bucket_api_def)
  ultimately have "CreateBucket sample_prims bucket_api (sample_ipc [] None) ''abc'' [] =
     (Ok \<lparr>bcr_ID = hex_encode [0], bcr_Name = ''abc'', bcr_CreatedAt = 7\<rparr>,
      [\<lparr>stb_Id = [0], stb_Name = ''abc'', stb_CreatedAt = 7\<rparr>])"
    by (simp add: CreateBucket_def minBucketNameLength_def maybeEncryptMetadata_def maybeDecryptMetadata_def
        abind_def amap_err_def)
  then show ?thesis using bucket_created [OF bucket_api_laws c] c by auto
qed

end
