(* ===== verification/Blocks.thy ===== *)
theory Blocks
  imports SdkIpc
begin

text \<open>
  \<open>sdk/sdk_ipc.go\<close>, the transfer of blocks: the chunk message, batched chunk transactions, streaming
  a block to its node in segments, uploading the blocks of a chunk, fetching blocks from nodes and
  from the archival provider.

  Goroutines of an \<open>errgroup\<close> run in the order of a schedule, a list of their indices; each runs
  atomically. The first error cancels the context and is returned. State is the pair of the counters
  and the world.
\<close>

section \<open>Groups of goroutines\<close>

type_synonym 's counted = "dataCounters \<times> 's"

definition world :: "('s, 'a) act \<Rightarrow> ('s counted, 'a) act" where
  "world m = (\<lambda>(d, s). case m s of (r, s') \<Rightarrow> (r, (d, s')))"

definition count_block :: "nat \<Rightarrow> ('s counted, unit) act" where
  "count_block n = (\<lambda>(d, s). (Ok (), (d\<lparr>blocksCounter := blocksCounter d + 1, bytesCounter := bytesCounter d + int n\<rparr>, s)))"

definition cancel_counted :: "('s, 'c) api \<Rightarrow> 's counted \<Rightarrow> 's counted" where
  "cancel_counted A = (\<lambda>(d, s). (d, ctx_cancel A s))"

fun group_collect :: "('t \<Rightarrow> 't) \<Rightarrow> (nat \<Rightarrow> ('t, 'a) act) \<Rightarrow> nat list \<Rightarrow> ('t, 'a list) act" where
  "group_collect cancel go [] = aret []"
| "group_collect cancel go (i # is) = (\<lambda>s.
     case go i s of
       (Ok x, s') \<Rightarrow>
         (case group_collect cancel go is s' of
            (Ok xs, s'') \<Rightarrow> (Ok (x # xs), s'')
          | (Err e, s'') \<Rightarrow> (Err e, s'')
          | (Panic, s'') \<Rightarrow> (Panic, s''))
     | (Err e, s') \<Rightarrow>
         (case group_collect cancel go is (cancel s') of
            (Panic, s'') \<Rightarrow> (Panic, s'')
          | (_, s'') \<Rightarrow> (Err e, s''))
     | (Panic, s') \<Rightarrow> (Panic, s'))"

lemma group_collect_Ok:
  "group_collect cancel go is s = (Ok xs, s') \<Longrightarrow>
   length xs = length is \<and> (\<forall>k < length is. \<exists>t t'. go (is ! k) t = (Ok (xs ! k), t'))"
proof (induction "is" arbitrary: s xs)
  case (Cons i "is")
  then obtain x s1 ys where x: "go i s = (Ok x, s1)" and ys: "group_collect cancel go is s1 = (Ok ys, s')"
    and xs: "xs = x # ys"
    by (auto split: prod.splits outcome.splits)
  show ?case using Cons.IH [OF ys] x xs by (auto simp: nth_Cons split: nat.splits)
qed simp

lemma group_collect_all_Ok:
  assumes "\<And>i s. i \<in> set is \<Longrightarrow> I s \<Longrightarrow> \<exists>s'. go i s = (Ok (f i), s') \<and> I s'" and "I s"
  shows "\<exists>s'. group_collect cancel go is s = (Ok (map f is), s') \<and> I s'"
  using assms
proof (induction "is" arbitrary: s)
  case (Cons i "is")
  obtain s1 where s1: "go i s = (Ok (f i), s1)" "I s1" using Cons.prems(1) [of i s] Cons.prems(2) by auto
  obtain s2 where "group_collect cancel go is s1 = (Ok (map f is), s2)" "I s2"
    using Cons.IH [OF _ s1(2)] Cons.prems(1) by auto
  with s1 show ?case by simp
qed simp

section \<open>The chunk message\<close>

text \<open>\<open>c.Bytes()[4:]\<close>, with the check of the slice expression.\<close>

definition slice_from :: "nat \<Rightarrow> 'a list \<Rightarrow> 'a list outcome" where
  "slice_from n xs = (if n \<le> length xs then Ok (drop n xs) else Panic)"

definition toIPCProtoChunk ::
  "cid_lib \<Rightarrow> string \<Rightarrow> int \<Rightarrow> 64 word \<Rightarrow> FileBlockUpload list \<Rightarrow>
   (byte list list \<times> 64 word list \<times> pb_chunk) outcome" where
  "toIPCProtoChunk clib chunkCid index sz blocks =
     obind (omap (\<lambda>block.
         obind (map_err errSDK (cid_Decode clib (bu_CID block))) (\<lambda>c.
         obind (slice_from 4 c) (\<lambda>tail. Ok (to_bytes32 tail)))) blocks) (\<lambda>cids.
     let sizes = map (\<lambda>block. of_nat (length (bu_Data block))) blocks
     in Ok (cids, sizes, \<lparr>pc_Cid = chunkCid, pc_Index = index, pc_Size = sz,
              pc_Blocks = zip (map bu_CID blocks) sizes\<rparr>))"

section \<open>Batched transactions\<close>

record ChunkData =
  cdt_ChunkUpload :: IPCFileChunkUploadV2
  cdt_CIDs :: "byte list list"
  cdt_Sizes :: "64 word list"

record BatchTransaction =
  bt_Chunks :: "IPCFileChunkUploadV2 list"
  bt_Tx :: "byte list"

definition createBatchedChunkTransaction ::
  "('s, 'c) api \<Rightarrow> ('cl, 'conn, 'http) IPC \<Rightarrow> ChunkData list \<Rightarrow> byte list \<Rightarrow> string \<Rightarrow> ('s, byte list) act" where
  "createBatchedChunkTransaction A sdk batch bucketID fileName =
     (case batch of
        [] \<Rightarrow> afail (ErrNew ''empty batch'')
      | first # _ \<Rightarrow>
          let perChunkGas = 270000;
              opts = \<lparr>GasLimit = of_nat (length batch) * perChunkGas, GasTipCap = 5000000000, GasFeeCap = 150000000000\<rparr>;
              startingChunkIndex = cu_Index (cdt_ChunkUpload first)
          in chain_wrap A (retry_tx A sdk (st_AddFileChunks A opts
               (map (\<lambda>d. cu_ChunkCID (cdt_ChunkUpload d)) batch) bucketID fileName
               (map (\<lambda>d. cu_EncodedSize (cdt_ChunkUpload d)) batch)
               (map cdt_CIDs batch) (map cdt_Sizes batch) startingChunkIndex)))"

section \<open>Streaming a block\<close>

text \<open>
  The loop over \<open>data\<close>: the message is updated in place, so chunk and CID stay cleared after the first
  part. The part size is positive in every configuration \<open>New\<close> accepts.
\<close>

function send_parts ::
  "('s \<Rightarrow> go_error option) \<Rightarrow> (pb_block_data \<Rightarrow> ('s, unit) act) \<Rightarrow> nat \<Rightarrow> byte list \<Rightarrow> nat \<Rightarrow> pb_block_data \<Rightarrow> ('s, unit) act" where
  "send_parts ctx send part data i block =
     (if length data \<le> i \<or> part = 0 then aret ()
      else (\<lambda>s.
        case ctx s of
          Some e \<Rightarrow> (Err e, s)
        | None \<Rightarrow>
            (let stop = min (i + part) (length data);
                 block = block\<lparr>pbd_Data := window i (stop - i) data\<rparr>
             in abind (send block)
                  (\<lambda>_. send_parts ctx send part data (i + part) (block\<lparr>pbd_Chunk := None, pbd_Cid := []\<rparr>)) s)))"
  by pat_completeness auto
termination
  by (relation "measure (\<lambda>(ctx, send, part, data, i, block). length data - i)") auto

declare send_parts.simps [simp del]

definition uploadIPCBlockSegments ::
  "('s, 'c) api \<Rightarrow> ('cl, 'conn, 'http) IPC \<Rightarrow> (pb_block_data \<Rightarrow> ('s, unit) act) \<Rightarrow> pb_block_data \<Rightarrow> ('s, unit) act" where
  "uploadIPCBlockSegments A sdk sender block =
     (if pbd_Data block = [] then aret ()
      else send_parts (ctx_err A) sender (nat (ipc_blockPartSize sdk)) (pbd_Data block) 0 block)"

section \<open>Uploading the blocks of a chunk\<close>

text \<open>Keys and peer identifiers.\<close>

record 'k key_lib =
  key_eth :: "'k eth_lib"
  ToECDSA :: "byte list \<Rightarrow> 'k outcome"
  peer_Decode :: "string \<Rightarrow> byte list outcome"
  peer_MarshalBinary :: "byte list \<Rightarrow> byte list outcome"

definition big_Bytes :: "int \<Rightarrow> byte list" where
  "big_Bytes n = dropWhile (\<lambda>b. b = 0) (be_encode 32 (nat n))"

definition with_rand :: "('s, 'c) api \<Rightarrow> (rand_reader \<Rightarrow> 'a outcome) \<Rightarrow> ('s, 'a) act" where
  "with_rand A f s = (case rand_Reader A s of (rnd, s') \<Rightarrow> (f rnd, s'))"

definition finish_block ::
  "('s, 'c) api \<Rightarrow> 'c \<Rightarrow> bool \<Rightarrow> FileBlockUpload \<Rightarrow> ('s counted, unit) act" where
  "finish_block A client isResuming block st =
     (case world (snd_CloseAndRecv A client) st of
        (Ok _, st') \<Rightarrow> count_block (length (bu_Data block)) st'
      | (Err closeErr, st') \<Rightarrow>
          (if contains (err_text closeErr) ''BlockAlreadyFilled'' \<and> isResuming then (Ok (), st') else (Err closeErr, st'))
      | (Panic, st') \<Rightarrow> (Panic, st'))"

definition upload_block ::
  "('s, 'c) api \<Rightarrow> cid_lib \<Rightarrow> 'k key_lib \<Rightarrow> ('cl, 'conn, 'http) IPC \<Rightarrow> IPCFileChunkUploadV2 \<Rightarrow> pb_chunk \<Rightarrow> 'k \<Rightarrow> cid \<Rightarrow>
   bool \<Rightarrow> nat \<Rightarrow> FileBlockUpload \<Rightarrow> ('s counted, unit) act" where
  "upload_block A clib K sdk chunk protoChunk privateKey chunkCid isResuming i block =
     abind (world (pool_IPCClient A (bu_NodeAddress block))) (\<lambda>client.
     abind (world (sdk_wrap (cl_FileUploadBlock A client))) (\<lambda>_.
     abind (world (sdk_wrap (with_rand A GenerateNonce))) (\<lambda>nonce.
     abind (\<lambda>(d, s). (Ok (time_Now A s + 86400), (d, s))) (\<lambda>deadline.
     abind (alift (map_err errSDK (cid_Decode clib (bu_CID block)))) (\<lambda>blockCid.
     abind (alift (slice_from 4 blockCid)) (\<lambda>tail.
     abind (alift (map_err errSDK (peer_Decode K (bu_NodeID block)))) (\<lambda>nodeID.
     abind (alift (map_err errSDK (peer_MarshalBinary K nodeID))) (\<lambda>id.
     abind (alift (slice_from 6 id)) (\<lambda>idTail.
     abind (alift (map_err errSDK (SignBlock (key_eth K) privateKey (ipc_storageAddress sdk) (ipc_chainID sdk)
       \<lparr>sd_ChunkCID = chunkCid, sd_BlockCID = to_bytes32 tail, sd_ChunkIndex = cu_Index chunk, sd_BlockIndex = int i,
        sd_NodeID = to_bytes32 idTail, sd_Nonce = nonce, sd_Deadline = deadline, sd_BucketID = cu_BucketID chunk\<rparr>))) (\<lambda>signature.
     \<lambda>st. case world (uploadIPCBlockSegments A sdk (snd_Send A client)
         \<lparr>pbd_Data = bu_Data block, pbd_Cid = bu_CID block, pbd_Index = int i, pbd_Chunk = Some protoChunk,
          pbd_BucketId = cu_BucketID chunk, pbd_FileName = cu_FileName chunk, pbd_Nonce = big_Bytes nonce,
          pbd_NodeId = id, pbd_Signature = hex_encode signature, pbd_Deadline = deadline\<rparr>) st of
       (Ok _, st') \<Rightarrow> finish_block A client isResuming block st'
     | (Err e, st') \<Rightarrow> if err_is e reader_EOF then finish_block A client isResuming block st' else (Err (errSDK e), st')
     | (Panic, st') \<Rightarrow> (Panic, st')))))))))))"

definition uploadChunk ::
  "('s, 'c) api \<Rightarrow> cid_lib \<Rightarrow> 'k key_lib \<Rightarrow> ('cl, 'conn, 'http) IPC \<Rightarrow> nat list \<Rightarrow> bool \<Rightarrow> IPCFileChunkUploadV2 \<Rightarrow>
   ('s counted, unit) act" where
  "uploadChunk A clib K sdk sched isResuming chunk =
     abind (alift (map_err errSDK (toIPCProtoChunk clib (cid_String clib (cu_ChunkCID chunk)) (cu_Index chunk)
       (cu_ActualSize chunk) (cu_Blocks chunk)))) (\<lambda>(_, _, protoChunk).
     abind (alift (map_err errSDK (hex_decode (ipc_privateKey sdk)))) (\<lambda>privateKeyBytes.
     abind (alift (map_err errSDK (ToECDSA K privateKeyBytes))) (\<lambda>privateKey.
     abind (alift (map_err errSDK (cid_Decode clib (pc_Cid protoChunk)))) (\<lambda>chunkCid.
     abind (sdk_wrap (group_collect (cancel_counted A)
       (\<lambda>i. upload_block A clib K sdk chunk protoChunk privateKey chunkCid isResuming i (cu_Blocks chunk ! i)) sched))
       (\<lambda>_. aret ())))))"

section \<open>Fetching blocks\<close>

definition fetchBlockData ::
  "('s, 'c) api \<Rightarrow> string \<Rightarrow> string \<Rightarrow> string \<Rightarrow> string \<Rightarrow> int \<Rightarrow> int \<Rightarrow> FileBlockDownload \<Rightarrow> ('s, byte list) act" where
  "fetchBlockData A chunkCID bucketName fileName address chunkIndex blockIndex block =
     (if bd_NodeAddress block = [] then afail errMissingBlockMetadata
      else
        abind (pool_IPCClient A (bd_NodeAddress block)) (\<lambda>client.
        abind (cl_FileDownloadBlock A client
          \<lparr>br_ChunkCid = chunkCID, br_ChunkIndex = chunkIndex, br_BlockCid = bd_CID block, br_BlockIndex = blockIndex,
           br_BucketName = bucketName, br_FileName = fileName, br_Address = address\<rparr>) (\<lambda>(messages, err).
        if err_is err reader_EOF then aret (concat messages) else afail err)))"

definition resolveBlock :: "('s, 'c) api \<Rightarrow> string \<Rightarrow> string \<Rightarrow> ('s, PDPBlockData) act" where
  "resolveBlock A nodeAddress blockCID =
     abind (pool_ArchivalClient A nodeAddress) (\<lambda>client.
       amap_err (\<lambda>e. if status_NotFound A e then ErrMissingArchivalBlock blockCID else e)
         (cl_FileResolveBlock A client blockCID))"

definition DeadlineExceeded :: go_error where
  "DeadlineExceeded = ErrNew ''context deadline exceeded''"

definition rangeDownload ::
  "('s, 'c) api \<Rightarrow> ('cl, 'conn, 'http) IPC \<Rightarrow> string \<Rightarrow> 64 word \<Rightarrow> 64 word \<Rightarrow> ('s, byte list) act" where
  "rangeDownload A sdk url offset len =
     retry_act (ipc_withRetry sdk) (st_retry_env A)
       (\<lambda>e. err_is e ErrTransient \<or> err_is e DeadlineExceeded)
       (RangeDownload (http_newRequest A) (http_do A) url offset len)"

section \<open>Archival metadata\<close>

text \<open>
  The blocks of a chunk are resolved concurrently; a block the provider does not know has no PDP
  data. The results are put at their positions.
\<close>

definition archival_block :: "('s, 'c) api \<Rightarrow> block_download list \<Rightarrow> nat \<Rightarrow> ('s, nat \<times> ArchivalBlock) act" where
  "archival_block A blocks i s =
     (let block = blocks ! i;
          rb = (\<lambda>pdp. (i, \<lparr>ab_CID = bdl_Cid block, ab_Size = bdl_Size block, ab_PDPData = pdp\<rparr>))
      in case resolveBlock A (bdl_NodeAddress block) (bdl_Cid block) s of
           (Ok pdp, s') \<Rightarrow> (Ok (rb (Some pdp)), s')
         | (Err e, s') \<Rightarrow>
             (if err_is e (ErrMissingArchivalBlock (bdl_Cid block)) then (Ok (rb None), s') else (Err e, s'))
         | (Panic, s') \<Rightarrow> (Panic, s'))"

definition place :: "'a \<Rightarrow> nat \<Rightarrow> (nat \<times> 'a) list \<Rightarrow> 'a list" where
  "place d n rs = fold (\<lambda>(i, x) xs. xs[i := x]) rs (replicate n d)"

definition zero_archival :: ArchivalBlock where
  "zero_archival = \<lparr>ab_CID = [], ab_Size = 0, ab_PDPData = None\<rparr>"

fun archival_chunks ::
  "('s, 'c) api \<Rightarrow> (nat \<Rightarrow> nat list) \<Rightarrow> string \<Rightarrow> string \<Rightarrow> nat \<Rightarrow> (string \<times> 64 word \<times> 64 word) list \<Rightarrow> ('s, ArchivalChunk list) act" where
  "archival_chunks A sched bucketNameEnc fileNameEnc i [] = aret []"
| "archival_chunks A sched bucketNameEnc fileNameEnc i ((c, encodedSize, sz) # rest) =
     abind (sdk_wrap (rpc_FileDownloadChunkCreate A bucketNameEnc fileNameEnc c (int i) (st_From A))) (\<lambda>blocks.
     abind (sdk_wrap (group_collect (ctx_cancel A) (archival_block A blocks) (sched i))) (\<lambda>resolved.
     abind (archival_chunks A sched bucketNameEnc fileNameEnc (Suc i) rest) (\<lambda>chunks.
     aret (\<lparr>ac_Chunk = \<lparr>ch_CID = c, ch_EncodedSize = encodedSize, ch_Size = sz, ch_Index = int i\<rparr>,
            ac_Blocks = place zero_archival (length blocks) resolved\<rparr> # chunks))))"

definition ArchivalMetadata_of ::
  "prims \<Rightarrow> ('s, 'c) api \<Rightarrow> ('cl, 'conn, 'http) IPC \<Rightarrow> (nat \<Rightarrow> nat list) \<Rightarrow> string \<Rightarrow> string \<Rightarrow> ('s, ArchivalMetadata) act" where
  "ArchivalMetadata_of P A sdk sched bucketName fileName =
     abind (sdk_wrap (alift (maybeEncryptMetadata P sdk fileName bucketName))) (\<lambda>fileNameEnc.
     abind (sdk_wrap (alift (maybeEncryptMetadata P sdk bucketName ''bucket''))) (\<lambda>bucketNameEnc.
     abind (sdk_wrap (rpc_FileDownloadCreate A bucketNameEnc fileNameEnc (st_From A))) (\<lambda>(_, resChunks).
     abind (archival_chunks A sched bucketNameEnc fileNameEnc 0 resChunks) (\<lambda>chunks.
     aret \<lparr>am_BucketName = bucketNameEnc, am_Name = fileNameEnc, am_Chunks = chunks\<rparr>))))"

section \<open>Buffers\<close>

definition calculateBufferSizeAndCapacity :: "('cl, 'conn, 'http) IPC \<Rightarrow> byte list \<Rightarrow> int \<times> int" where
  "calculateBufferSizeAndCapacity sdk fileEncKey =
     (let encryptionOverhead = (if fileEncKey \<noteq> [] then int Overhead else 0);
          dataSize = (case ipc_ec sdk of
             None \<Rightarrow> ipc_maxBlocksInChunk sdk * sint BlockSize
           | Some ec \<Rightarrow> DataBlocks ec * sint BlockSize);
          erasureCodingOverhead = (case ipc_ec sdk of None \<Rightarrow> 0 | Some _ \<Rightarrow> int WrapOverhead);
          bufferSize = dataSize - encryptionOverhead
      in (bufferSize, bufferSize + encryptionOverhead + erasureCodingOverhead))"

section \<open>Properties\<close>

lemma window_to_end: "length xs - i \<le> n \<Longrightarrow> window i n xs = drop i xs"
  by (simp add: window_def)

text \<open>The messages a block becomes, as a function of its parts.\<close>

definition part_message :: "pb_block_data \<Rightarrow> nat \<Rightarrow> byte list \<Rightarrow> pb_block_data" where
  "part_message block k part = block\<lparr>pbd_Data := part,
     pbd_Chunk := if k = 0 then pbd_Chunk block else None, pbd_Cid := if k = 0 then pbd_Cid block else []\<rparr>"

lemma send_parts_records:
  assumes "0 < n" and "pbd_Chunk block = None" and "pbd_Cid block = []"
  shows "send_parts (\<lambda>_. None) (\<lambda>m s. (Ok (), s @ [m])) n data i block ms =
    (Ok (), ms @ map (\<lambda>p. block\<lparr>pbd_Data := p\<rparr>) (chunks n (drop i data)))"
  using assms
proof (induction "length data - i" arbitrary: i ms block rule: less_induct)
  case less
  show ?case
  proof (cases "length data \<le> i")
    case True
    then show ?thesis by (simp add: send_parts.simps)
  next
    case False
    let ?block = "block\<lparr>pbd_Data := take n (drop i data)\<rparr>"
    have w: "window i (min (i + n) (length data) - i) data = take n (drop i data)"
      using False by (cases "i + n \<le> length data") (auto simp: window_def min_def)
    have clear: "?block\<lparr>pbd_Chunk := None, pbd_Cid := []\<rparr> = ?block" using less.prems by simp
    have drop: "drop n (drop i data) = drop (i + n) data" by (simp add: add.commute)
    have "send_parts (\<lambda>_. None) (\<lambda>m s. (Ok (), s @ [m])) n data i block ms =
      send_parts (\<lambda>_. None) (\<lambda>m s. (Ok (), s @ [m])) n data (i + n) ?block (ms @ [?block])"
      using False less.prems(1) by (subst send_parts.simps) (simp add: w clear abind_def Let_def)
    also have "\<dots> = (Ok (), (ms @ [?block]) @ map (\<lambda>p. ?block\<lparr>pbd_Data := p\<rparr>) (chunks n (drop (i + n) data)))"
      by (rule less.hyps) (use less.prems False in auto)
    finally show ?thesis
      using False less.prems(1) by (subst chunks.simps) (simp add: add.commute [of n i])
  qed
qed

lemma part_message_later:
  "map (\<lambda>(k, part). part_message block k part) (enumerate (Suc j) ps) =
   map (\<lambda>p. block\<lparr>pbd_Data := p, pbd_Chunk := None, pbd_Cid := []\<rparr>) ps"
  by (induction ps arbitrary: j) (simp_all add: part_message_def)

text \<open>A block is streamed completely and in order: the messages sent carry its consecutive parts of \<open>blockPartSize\<close>
  bytes (the last may be shorter), the first message and only that one carries the chunk and the CID, and all other
  fields are the same in every message. An empty block sends nothing.\<close>

theorem block_segments:
  assumes "0 < ipc_blockPartSize sdk" and "ctx_err A = (\<lambda>_. None)"
  shows "uploadIPCBlockSegments A sdk (\<lambda>m s. (Ok (), s @ [m])) block ms =
    (Ok (), ms @ map (\<lambda>(k, part). part_message block k part)
                   (enumerate 0 (chunks (nat (ipc_blockPartSize sdk)) (pbd_Data block))))"
proof (cases "pbd_Data block = []")
  case False
  let ?n = "nat (ipc_blockPartSize sdk)" and ?data = "pbd_Data block"
  let ?b1 = "block\<lparr>pbd_Data := take ?n ?data\<rparr>" and ?b2 = "block\<lparr>pbd_Data := take ?n ?data, pbd_Chunk := None, pbd_Cid := []\<rparr>"
  have n: "0 < ?n" using assms(1) by simp
  have "send_parts (\<lambda>_. None) (\<lambda>m s. (Ok (), s @ [m])) ?n ?data 0 block ms =
      send_parts (\<lambda>_. None) (\<lambda>m s. (Ok (), s @ [m])) ?n ?data ?n ?b2 (ms @ [?b1])"
    using False n by (subst send_parts.simps) (auto simp: abind_def Let_def min_def)
  also have "\<dots> = (Ok (), (ms @ [?b1]) @ map (\<lambda>p. ?b2\<lparr>pbd_Data := p\<rparr>) (chunks ?n (drop ?n ?data)))"
    by (rule send_parts_records [OF n]) simp_all
  finally have sent: "send_parts (\<lambda>_. None) (\<lambda>m s. (Ok (), s @ [m])) ?n ?data 0 block ms =
      (Ok (), (ms @ [?b1]) @ map (\<lambda>p. ?b2\<lparr>pbd_Data := p\<rparr>) (chunks ?n (drop ?n ?data)))" .
  have "chunks ?n ?data = take ?n ?data # chunks ?n (drop ?n ?data)"
    using False n by (subst chunks.simps) simp
  then have "map (\<lambda>(k, part). part_message block k part) (enumerate 0 (chunks ?n ?data)) =
      ?b1 # map (\<lambda>p. ?b2\<lparr>pbd_Data := p\<rparr>) (chunks ?n (drop ?n ?data))"
    by (simp add: part_message_later) (simp add: part_message_def)
  with sent show ?thesis using False assms(2) by (simp add: uploadIPCBlockSegments_def)
qed (simp add: uploadIPCBlockSegments_def)

theorem block_segments_witness:
  "\<exists>m1 m2 m3. uploadIPCBlockSegments failing_api (sample_ipc [] None) (\<lambda>m s. (Ok (), s @ [m]))
      \<lparr>pbd_Data = [1, 2, 3, 4, 5], pbd_Cid = ''c'', pbd_Index = 0, pbd_Chunk = None, pbd_BucketId = [], pbd_FileName = ''f'',
       pbd_Nonce = [], pbd_NodeId = [], pbd_Signature = [], pbd_Deadline = 9\<rparr> [] = (Ok (), [m1, m2, m3]) \<and>
    pbd_Data m3 = [5] \<and> pbd_Cid m1 = ''c'' \<and> pbd_Cid m2 = []"
  by (subst block_segments)
    (simp_all add: failing_api_def chunks.simps enumerate_eq_zip upt_rec part_message_def numeral_2_eq_2)

text \<open>The input buffer is large enough: for every amount read up to the buffer size, encryption has room for nonce and tag, and
  wrapping for erasure coding then works inside the same backing cells, so a full chunk is processed without another
  allocation; the buffer size is positive.\<close>

theorem buffer_capacity_suffices:
  assumes "2 \<le> ipc_maxBlocksInChunk sdk" and "\<forall>ec. ipc_ec sdk = Some ec \<longrightarrow> 0 < DataBlocks ec"
    and "calculateBufferSizeAndCapacity sdk key = (bufSize, capacity)"
    and "valid_slice data" and "int (slen data) \<le> bufSize" and "int (scap data) = capacity"
  shows "0 < bufSize \<and> (key \<noteq> [] \<longrightarrow> (\<exists>s. Encrypt P (Ok f) key data info = Ok s \<and>
      valid_slice s \<and> scap (if ipc_ec sdk = None then s else wrapData s) = scap data)) \<and>
    (key = [] \<longrightarrow> scap (if ipc_ec sdk = None then data else wrapData data) = scap data)"
proof -
  have bs: "sint BlockSize = 1000000" by (simp add: BlockSize_def MB_def)
  have pos: "0 < bufSize"
    using assms(1-3) by (auto simp: calculateBufferSizeAndCapacity_def Let_def bs Overhead_def split: option.splits if_splits)
  have cap: "slen data + (if key = [] then 0 else Overhead) + (if ipc_ec sdk = None then 0 else WrapOverhead) \<le> scap data"
    using assms(3,5,6)
    by (auto simp: calculateBufferSizeAndCapacity_def Let_def split: option.splits if_splits)
  have wrap: "scap (wrapData s) = scap s" if "valid_slice s" "slen s + WrapOverhead \<le> scap s" for s
    using that by (simp add: wrapData_def Let_def scap_def len_simps wrap_consts valid_slice_def)
  show ?thesis
  proof (cases "key = []")
    case True
    then show ?thesis using pos cap wrap [OF assms(4)] by (cases "ipc_ec sdk") simp_all
  next
    case False
    obtain s where s: "Encrypt P (Ok f) key data info = Ok s" "valid_slice s" "scap s = scap data"
      "contents s = map f [0..<12] @ Seal (derived_aead P key info) (map f [0..<12]) (contents data)"
      using Encrypt_Ok [OF assms(4) _ refl, of P f key info] cap False by auto
    then have "slen s = slen data + Overhead"
      using length_contents [OF s(2)] length_contents [OF assms(4)] by (simp add: Overhead_def)
    then show ?thesis using pos cap wrap [OF s(2)] s False by (cases "ipc_ec sdk") auto
  qed
qed

theorem buffer_capacity_suffices_witness:
  "calculateBufferSizeAndCapacity (sample_ipc (replicate 32 1) None) (replicate 32 2) = (1999972, 2000000) \<and>
   (\<exists>s. Encrypt sample_prims (Ok (\<lambda>_. 0)) (replicate 32 2) \<lparr>sarr = replicate 2000000 0, slen = 3\<rparr> ''0'' = Ok s \<and> valid_slice s)"
proof -
  have c: "calculateBufferSizeAndCapacity (sample_ipc (replicate 32 1) None) (replicate 32 2) = (1999972, 2000000)"
    by (simp add: calculateBufferSizeAndCapacity_def Let_def BlockSize_def MB_def Overhead_def) (simp add: sample_ipc_def)
  have "ipc_maxBlocksInChunk (sample_ipc (replicate 32 1) None) = 2" by (simp add: sample_ipc_def)
  with buffer_capacity_suffices [OF _ _ c, of "\<lparr>sarr = replicate 2000000 0, slen = 3\<rparr>" sample_prims "\<lambda>_. 0" "''0''"] c
  show ?thesis by (simp add: valid_slice_def scap_def) blast
qed

end
