(* ===== verification/ChunkPaths.thy ===== *)
theory ChunkPaths
  imports Blocks
begin

text \<open>
  \<open>sdk/sdk_ipc.go\<close>: making the blocks of a chunk (\<open>createChunkUpload\<close>) and getting a chunk back from the
  nodes (\<open>downloadChunkBlocks\<close>) or from the archival provider (\<open>downloadChunkBlocks2\<close>).

  The chunk is a \<open>go_slice\<close>: encryption and wrapping work in its backing cells. Blocks are retrieved
  concurrently; a schedule gives the order in which their goroutines finish.
\<close>

section \<open>Making a chunk\<close>

text \<open>The node's answer is matched with the blocks by position and CID.\<close>

fun assign_nodes :: "nat \<Rightarrow> FileBlockUpload list \<Rightarrow> block_upload list \<Rightarrow> FileBlockUpload list outcome" where
  "assign_nodes i (b # bs) (u # us) =
     (if bu_CID b \<noteq> bup_Cid u
      then Err (errSDK (ErrNew (''block CID mismatch at position '' @ format_int (int i))))
      else obind (assign_nodes (Suc i) bs us) (\<lambda>rest.
        Ok (b\<lparr>bu_NodeAddress := bup_NodeAddress u, bu_NodeID := bup_NodeId u, bu_Permit := bup_Permit u\<rparr> # rest)))"
| "assign_nodes i bs [] = Ok bs"
| "assign_nodes i [] (u # us) = Panic"

definition unexpected_blocks :: "nat \<Rightarrow> nat \<Rightarrow> ('s, 'a) act" where
  "unexpected_blocks got expected =
     sdk_fail (''received unexpected amount of blocks '' @ format_int (int got) @ '', expected '' @ format_int (int expected))"

text \<open>The bytes that are cut into blocks, and the block size.\<close>

definition coded_chunk :: "ErasureCode option \<Rightarrow> go_slice \<Rightarrow> (byte list \<times> int) outcome" where
  "coded_chunk ec data =
     (case ec of
        None \<Rightarrow> Ok (contents data, sint (ToInt64 BlockSize))
      | Some e \<Rightarrow>
          obind (map_err errSDK (Encode e data)) (\<lambda>out.
            if DataBlocks e + ParityBlocks e = 0 then Panic
            else Ok (out, int (length out) sdiv (DataBlocks e + ParityBlocks e))))"

definition createChunkUpload ::
  "prims \<Rightarrow> dag_lib \<Rightarrow> cid_lib \<Rightarrow> ('s, 'c) api \<Rightarrow> ('cl, 'conn, 'http) IPC \<Rightarrow> int \<Rightarrow> byte list \<Rightarrow> go_slice \<Rightarrow> byte list \<Rightarrow>
   string \<Rightarrow> ('s, IPCFileChunkUploadV2) act" where
  "createChunkUpload P lib clib A sdk index fileEncryptionKey data bucketID fileName =
     (let actualSize = of_nat (slen data) in
      abind (if fileEncryptionKey \<noteq> []
             then sdk_wrap (with_rand A (\<lambda>rnd. Encrypt P rnd fileEncryptionKey data (format_int index)))
             else aret data) (\<lambda>data.
      abind (alift (coded_chunk (ipc_ec sdk) data)) (\<lambda>(bytes, blockSize).
      abind (alift (map_err errSDK (BuildDAG lib clib bytes blockSize))) (\<lambda>chunkDAG.
      abind (alift (toIPCProtoChunk clib (cid_String clib (cd_CID chunkDAG)) index actualSize (cd_Blocks chunkDAG))) (\<lambda>(_, _, protoChunk).
      abind (sdk_wrap (rpc_FileUploadChunkCreate A protoChunk bucketID fileName)) (\<lambda>res.
      if length res \<noteq> length (cd_Blocks chunkDAG) then unexpected_blocks (length res) (length (cd_Blocks chunkDAG))
      else
        abind (alift (assign_nodes 0 (cd_Blocks chunkDAG) res)) (\<lambda>blocks.
        aret \<lparr>cu_Index = index, cu_ChunkCID = cd_CID chunkDAG, cu_ActualSize = actualSize,
              cu_RawDataSize = cd_RawDataSize chunkDAG, cu_EncodedSize = cd_EncodedSize chunkDAG,
              cu_Blocks = blocks, cu_BucketID = bucketID, cu_FileName = fileName\<rparr>)))))))"

section \<open>Getting a chunk\<close>

definition retrieve_blocks ::
  "('s, 'c) api \<Rightarrow> (nat \<Rightarrow> ('s counted, byte list) act) \<Rightarrow> FileBlockDownload list \<Rightarrow> nat list \<Rightarrow>
   ('s counted, (nat \<times> string \<times> byte list) list) act" where
  "retrieve_blocks A fetch blocks sched =
     group_collect (cancel_counted A) (\<lambda>i.
       abind (fetch i) (\<lambda>blockData.
       abind (count_block (length blockData)) (\<lambda>_.
       aret (i, bd_CID (blocks ! i), blockData)))) sched"

text \<open>Payloads in the order of the channel, put at their positions.\<close>

definition extract_retrieved ::
  "wire_lib \<Rightarrow> cid_lib \<Rightarrow> nat \<Rightarrow> (nat \<times> string \<times> byte list) list \<Rightarrow> byte list list outcome" where
  "extract_retrieved w clib n retrieved =
     obind (omap (\<lambda>(pos, c, raw). obind (map_err errSDK (ExtractBlockData w clib c raw)) (\<lambda>data. Ok (pos, data))) retrieved)
       (\<lambda>rs. Ok (place [] n rs))"

definition assemble_chunk :: "prims \<Rightarrow> ErasureCode option \<Rightarrow> byte list \<Rightarrow> int \<Rightarrow> byte list list \<Rightarrow> byte list outcome" where
  "assemble_chunk P ec fileEncryptionKey index blocks =
     obind (case ec of Some e \<Rightarrow> map_err errSDK (ExtractData e blocks) | None \<Rightarrow> Ok (concat blocks)) (\<lambda>data.
     if fileEncryptionKey \<noteq> [] then map_err errSDK (Decrypt P fileEncryptionKey data (format_int index)) else Ok data)"

definition downloadChunkBlocks ::
  "prims \<Rightarrow> wire_lib \<Rightarrow> cid_lib \<Rightarrow> ('s, 'c) api \<Rightarrow> ('cl, 'conn, 'http) IPC \<Rightarrow> nat list \<Rightarrow> string \<Rightarrow> string \<Rightarrow> string \<Rightarrow>
   FileChunkDownload \<Rightarrow> byte list \<Rightarrow> (byte list \<Rightarrow> ('s, unit) act) \<Rightarrow> ('s counted, unit) act" where
  "downloadChunkBlocks P w clib A sdk sched bucketName fileName address chunkDownload fileEncryptionKey writer =
     (let blocks = cdl_Blocks chunkDownload in
      abind (sdk_wrap (retrieve_blocks A (\<lambda>i. world (fetchBlockData A (cdl_CID chunkDownload) bucketName fileName address
               (cdl_Index chunkDownload) (int i) (blocks ! i))) blocks sched)) (\<lambda>retrieved.
      abind (alift (extract_retrieved w clib (length blocks) retrieved)) (\<lambda>datas.
      abind (alift (assemble_chunk P (ipc_ec sdk) fileEncryptionKey (cdl_Index chunkDownload) datas)) (\<lambda>data.
      sdk_wrap (world (writer data))))))"

text \<open>From the archival provider every block is verified against its CID.\<close>

definition archival_fetch ::
  "cid_lib \<Rightarrow> ('s, 'c) api \<Rightarrow> ('cl, 'conn, 'http) IPC \<Rightarrow> FileBlockDownload \<Rightarrow> ('s, byte list) act" where
  "archival_fetch clib A sdk block =
     abind (resolveBlock A (bd_NodeAddress block) (bd_CID block)) (\<lambda>pdpBlock.
     abind (rangeDownload A sdk (pdp_URL pdpBlock) (pdp_Offset pdpBlock) (pdp_Size pdpBlock)) (\<lambda>blockData.
     abind (alift (map_err (\<lambda>e. ErrWrap ''block CID verification failed: '' e [])
              (VerifyRaw clib (bd_CID block) blockData))) (\<lambda>_. aret blockData)))"

definition downloadChunkBlocks2 ::
  "prims \<Rightarrow> wire_lib \<Rightarrow> cid_lib \<Rightarrow> ('s, 'c) api \<Rightarrow> ('cl, 'conn, 'http) IPC \<Rightarrow> nat list \<Rightarrow>
   FileChunkDownload \<Rightarrow> byte list \<Rightarrow> (byte list \<Rightarrow> ('s, unit) act) \<Rightarrow> ('s counted, unit) act" where
  "downloadChunkBlocks2 P w clib A sdk sched chunkDownload fileEncryptionKey writer =
     (let blocks = cdl_Blocks chunkDownload in
      abind (sdk_wrap (retrieve_blocks A (\<lambda>i. world (archival_fetch clib A sdk (blocks ! i))) blocks sched)) (\<lambda>retrieved.
      abind (alift (extract_retrieved w clib (length blocks) retrieved)) (\<lambda>datas.
      abind (alift (assemble_chunk P (ipc_ec sdk) fileEncryptionKey (cdl_Index chunkDownload) datas)) (\<lambda>data.
      sdk_wrap (world (writer data))))))"

section \<open>Placement does not depend on the order\<close>

definition complete_schedule :: "nat \<Rightarrow> nat list \<Rightarrow> bool" where
  "complete_schedule n sched \<longleftrightarrow> set sched = {..<n} \<and> distinct sched"

lemma length_fold_update [simp]: "length (fold (\<lambda>(i, x) xs. xs[i := x]) rs xs) = length xs"
  by (induction rs arbitrary: xs) (auto split: prod.splits)

lemma fold_update_nth:
  "j < length xs \<Longrightarrow> fold (\<lambda>(i, x) xs. xs[i := x]) (map (\<lambda>i. (i, f i)) sched) xs ! j =
     (if j \<in> set sched then f j else xs ! j)"
proof (induction sched arbitrary: xs)
  case (Cons i sched)
  then have "fold (\<lambda>(i, x) xs. xs[i := x]) (map (\<lambda>i. (i, f i)) sched) (xs[i := f i]) ! j =
      (if j \<in> set sched then f j else xs[i := f i] ! j)" by simp
  then show ?case using Cons.prems by (simp add: nth_list_update)
qed simp

lemma place_complete:
  assumes "complete_schedule n sched"
  shows "place d n (map (\<lambda>i. (i, f i)) sched) = map f [0..<n]"
proof (rule nth_equalityI)
  fix j
  assume "j < length (place d n (map (\<lambda>i. (i, f i)) sched))"
  then have "j < n" by (simp add: place_def)
  then show "place d n (map (\<lambda>i. (i, f i)) sched) ! j = map f [0..<n] ! j"
    using assms fold_update_nth [of j "replicate n d" f sched] by (simp add: place_def complete_schedule_def)
qed (simp add: place_def)

section \<open>What a chunk's blocks hold\<close>

lemma assign_nodes_same:
  "assign_nodes i bs us = Ok bs' \<Longrightarrow>
   list_all2 (\<lambda>b b'. bu_CID b' = bu_CID b \<and> bu_Data b' = bu_Data b) bs bs'"
proof (induction i bs us arbitrary: bs' rule: assign_nodes.induct)
  case (2 i bs)
  then show ?case by (auto simp: list_all2_refl)
qed (auto simp: obind_Ok_iff split: if_splits)

lemma blocks_after_assign:
  assumes "list_all2 (block_for P clib) cs bs" and "assign_nodes i bs us = Ok bs'"
  shows "list_all2 (block_for P clib) cs bs'"
  using list_all2_trans [OF _ assms(1) assign_nodes_same [OF assms(2)], of "block_for P clib"]
  by (auto simp: block_for_def)

text \<open>The pieces a chunk is cut into, after erasure coding, and that they decode to the coded data.\<close>

definition ec_laws :: "ErasureCode option \<Rightarrow> bool" where
  "ec_laws ec \<longleftrightarrow>
     (case ec of
        None \<Rightarrow> True
      | Some e \<Rightarrow> \<exists>d p par. rs_laws (ec_enc e) d p par \<and> DataBlocks e = int d \<and> ParityBlocks e = int p \<and> d + p \<le> 1024)"

lemma ceil_div_le: "0 < d \<Longrightarrow> (m + d - 1) div d \<le> m" for m d :: nat
proof (cases m)
  case (Suc n)
  assume d: "0 < d"
  have "(m + d - 1) div d = Suc (n div d)" using d Suc by (simp add: div_add_self2)
  then show ?thesis using Suc by (simp add: div_le_dividend)
qed simp

lemma coded_chunk_decodes:
  assumes "ec_laws ec" and "valid_slice data" and "0 < slen data" and "slen data < 2 ^ 50"
    and "ec = None \<longrightarrow> slen data \<le> 1024 * 1000000"
  shows "\<exists>bytes n. coded_chunk ec data = Ok (bytes, int n) \<and> 0 < n \<and> bytes \<noteq> [] \<and> length (chunks n bytes) \<le> 1024 \<and>
    (case ec of None \<Rightarrow> n = 1000000
      | Some e \<Rightarrow> n = (slen data + 12 + nat (DataBlocks e) - 1) div nat (DataBlocks e)) \<and> n \<le> slen data + 1000000 \<and>
    (case ec of Some e \<Rightarrow> map_err errSDK (ExtractData e (chunks n bytes)) | None \<Rightarrow> Ok (concat (chunks n bytes))) = Ok (contents data)"
proof (cases ec)
  case None
  have "sint (ToInt64 BlockSize) = int 1000000" by (simp add: ToInt64_def BlockSize_def MB_def)
  moreover have "length (contents data) = slen data" using assms(2) by (rule length_contents)
  moreover have "(slen data + 1000000 - 1) div 1000000 \<le> 1024"
    using assms(5) None by (simp add: div_le_mono [of _ "1024 * 1000000 + 999999", THEN order_trans])
  ultimately show ?thesis
    using None assms(3) by (intro exI [of _ "contents data"] exI [of _ 1000000]) (auto simp: coded_chunk_def len_simps)
next
  case (Some e)
  obtain d p par where laws: "rs_laws (ec_enc e) d p par" and dp: "DataBlocks e = int d" "ParityBlocks e = int p" "d + p \<le> 1024"
    using assms(1) Some by (auto simp: ec_laws_def)
  obtain S k where S: "Encode e data = Ok (concat S)" "shards_of k (d + p) S" "0 < k" "drop d S = par (take d S)"
    "unwrapData (concat (take d S)) = Ok (contents data)" "k = (slen data + 12 + d - 1) div d"
    using Encode_codeword [OF laws assms(2)] assms(4) by auto
  have d: "0 < d" using laws by (rule rs_lawsD(1))
  have len: "length (concat S) = (d + p) * k" using length_concat_shards [OF S(2)] .
  then have "int (length (concat S)) sdiv (int d + int p) = int k"
    using d by (simp add: go_arith flip: of_nat_add zdiv_int)
  then have c: "coded_chunk (Some e) data = Ok (concat S, int k)"
    using S(1) dp d by (simp add: coded_chunk_def)
  have "joined_data e (erase [] S) = Ok (concat (take d S))"
    by (rule joined_data_erased [OF laws dp(1) S(2,3,4)]) (simp add: lost_def)
  moreover have "erase [] S = S" by (simp add: erase_def case_prod_unfold)
  ultimately have "ExtractData e S = Ok (contents data)" using S(5) by (simp add: ExtractData_def)
  moreover have "concat S \<noteq> []" using len d S(3) by (metis add_gr_0 length_greater_0_conv mult_pos_pos)
  moreover have "length S = d + p" using S(2) by (simp add: shards_of_def)
  moreover have "k \<le> slen data + 12" using S(6) ceil_div_le [OF d, of "slen data + 12"] by simp
  ultimately show ?thesis
    using Some c S(3,6) dp chunks_shards [OF S(2,3)] by (intro exI [of _ "concat S"] exI [of _ k]) simp
qed

lemma Encrypt_result:
  assumes "valid_slice data" and "Encrypt P rnd key data info = Ok s"
  shows "valid_slice s \<and> slen s = slen data + 28 \<and> Decrypt P key (contents s) info = Ok (contents data)"
proof -
  have cap: "slen data + Overhead \<le> scap data"
    using assms(2) by (auto simp: Encrypt_def GCMCipher_eq split: if_splits)
  obtain f where f: "rnd = Ok f"
    using assms(2) cap by (cases rnd) (auto simp: Encrypt_def GCMCipher_eq read_full_def Let_def)
  obtain s' where s': "Encrypt P rnd key data info = Ok s'" "valid_slice s'"
    "contents s' = map f [0..<12] @ Seal (derived_aead P key info) (map f [0..<12]) (contents data)"
    using Encrypt_Ok [OF assms(1) cap f, of P key info] by blast
  then have "s' = s" using assms(2) by simp
  moreover have "slen s' = slen data + 28"
    using length_contents [OF s'(2)] length_contents [OF assms(1)] s'(3) by simp
  ultimately show ?thesis using s' Decrypt_sealed [of "map f [0..<12]" P key info "contents data"] by simp
qed

text \<open>
  The blocks of a chunk hold pieces that assemble to the chunk's data.
\<close>

definition chunk_pieces ::
  "prims \<Rightarrow> rand_reader \<Rightarrow> ErasureCode option \<Rightarrow> byte list \<Rightarrow> int \<Rightarrow> go_slice \<Rightarrow> byte list list outcome" where
  "chunk_pieces P rnd ec key index data =
     obind (if key \<noteq> [] then map_err errSDK (Encrypt P rnd key data (format_int index)) else Ok data) (\<lambda>d.
     obind (coded_chunk ec d) (\<lambda>(bytes, n). Ok (chunks (nat n) bytes)))"

definition chunk_blocks ::
  "prims \<Rightarrow> cid_lib \<Rightarrow> (byte list list \<Rightarrow> byte list outcome) \<Rightarrow> byte list \<Rightarrow> FileBlockUpload list \<Rightarrow> bool" where
  "chunk_blocks P clib assemble plain bs \<longleftrightarrow>
     (\<exists>cs. list_all2 (block_for P clib) cs bs \<and> (\<forall>c \<in> set cs. length c < 2 ^ 62) \<and> assemble cs = Ok plain)"

text \<open>The length of a chunk after encryption; a chunk has at most 1024 blocks of a million bytes.\<close>

definition sealed_length :: "byte list \<Rightarrow> nat \<Rightarrow> nat" where
  "sealed_length key n = (if key = [] then n else n + 28)"

lemma createChunkUpload_blocks:
  assumes "dag_laws lib P" and "ec_laws (ipc_ec sdk)"
    and "valid_slice data" and "0 < slen data" and "sealed_length key (slen data) \<le> 1024000000"
    and "createChunkUpload P lib clib A sdk index key data bucketID fileName s = (Ok cu, s')"
    and "chunk_pieces P (fst (rand_Reader A s)) (ipc_ec sdk) key index data = Ok pieces" and "\<not> leaves_collide P pieces"
  shows "chunk_blocks P clib (assemble_chunk P (ipc_ec sdk) key index) (contents data) (cu_Blocks cu) \<and> cu_Index cu = index \<and>
    cu_ActualSize cu = of_nat (slen data) \<and> cu_BucketID cu = bucketID \<and> cu_FileName cu = fileName"
proof -
  obtain d2 s1 bytes blockSize dag cids sizes protoChunk res s2 blocks where
    d2: "(if key \<noteq> [] then sdk_wrap (with_rand A (\<lambda>rnd. Encrypt P rnd key data (format_int index))) else aret data) s = (Ok d2, s1)"
    and coded: "coded_chunk (ipc_ec sdk) d2 = Ok (bytes, blockSize)"
    and dag: "BuildDAG lib clib bytes blockSize = Ok dag"
    and blocks: "assign_nodes 0 (cd_Blocks dag) res = Ok blocks"
    and cu: "cu = \<lparr>cu_Index = index, cu_ChunkCID = cd_CID dag, cu_ActualSize = of_nat (slen data),
              cu_RawDataSize = cd_RawDataSize dag, cu_EncodedSize = cd_EncodedSize dag,
              cu_Blocks = blocks, cu_BucketID = bucketID, cu_FileName = fileName\<rparr>"
    using assms(6)
    by (auto simp: createChunkUpload_def Let_def abind_Ok_iff unexpected_blocks_def sdk_fail_def
        split: if_splits prod.splits)
  have v2: "valid_slice d2 \<and> slen d2 = sealed_length key (slen data) \<and> 0 < slen d2 \<and>
    (if key \<noteq> [] then map_err errSDK (Decrypt P key (contents d2) (format_int index)) else Ok (contents d2)) = Ok (contents data)"
  proof (cases "key = []")
    case True
    then show ?thesis using d2 assms(3,4) by (simp add: sealed_length_def)
  next
    case False
    then obtain rnd where "Encrypt P rnd key data (format_int index) = Ok d2"
      using d2 by (auto simp: with_rand_def split: prod.splits)
    from Encrypt_result [OF assms(3) this] False show ?thesis by (simp add: sealed_length_def)
  qed
  have "(if key \<noteq> [] then map_err errSDK (Encrypt P (fst (rand_Reader A s)) key data (format_int index)) else Ok data) = Ok d2"
    using d2 by (auto simp: with_rand_def amap_err_def split: prod.splits if_splits)
  then have pieces: "pieces = chunks (nat blockSize) bytes"
    using assms(7) coded by (auto simp: chunk_pieces_def split: if_splits)
  obtain out n where o: "coded_chunk (ipc_ec sdk) d2 = Ok (out, int n)" "0 < n" "out \<noteq> []" "length (chunks n out) \<le> 1024"
      "n \<le> slen d2 + 1000000"
    and dec: "(case ipc_ec sdk of Some e \<Rightarrow> map_err errSDK (ExtractData e (chunks n out))
      | None \<Rightarrow> Ok (concat (chunks n out))) = Ok (contents d2)"
    using coded_chunk_decodes [OF assms(2), of d2] v2 assms(5) by fastforce
  have "\<not> leaves_collide P (chunks n out)" using pieces assms(8) coded o(1) by auto
  then obtain dag' where "BuildDAG lib clib out (int n) = Ok dag'"
      "list_all2 (block_for P clib) (chunks n out) (cd_Blocks dag')"
    using BuildDAG_blocks [OF assms(1) o(2,3,4)] by blast
  then have "list_all2 (block_for P clib) (chunks n out) (cd_Blocks dag)" using o(1) coded dag by simp
  then have "list_all2 (block_for P clib) (chunks n out) blocks" using blocks by (rule blocks_after_assign)
  moreover have "\<forall>c \<in> set (chunks n out). length c < 2 ^ 62"
    using chunks_member [of _ n out] o(5) v2 assms(5) by fastforce
  moreover have "assemble_chunk P (ipc_ec sdk) key index (chunks n out) = Ok (contents data)"
    using dec v2 by (simp add: assemble_chunk_def)
  ultimately show ?thesis unfolding chunk_blocks_def cu by auto
qed

section \<open>Getting the pieces back\<close>

lemma extract_block_for:
  assumes "wire_laws w" and "cid_laws clib P" and "cid_text_law clib"
    and "block_for P clib c b" and "length c < 2 ^ 62"
  shows "ExtractBlockData w clib (bu_CID b) (bu_Data b) = Ok c"
  using extract_blocks [OF assms(1-3), of "[c]" "[b]"] assms(4,5) by (simp add: obind_Ok_iff)

definition retrieved_blocks :: "FileBlockUpload list \<Rightarrow> nat list \<Rightarrow> (nat \<times> string \<times> byte list) list" where
  "retrieved_blocks bs sched = map (\<lambda>i. (i, bu_CID (bs ! i), bu_Data (bs ! i))) sched"

lemma extract_retrieved_pieces:
  assumes "wire_laws w" and "cid_laws clib P" and "cid_text_law clib"
    and cs: "list_all2 (block_for P clib) cs bs" "\<forall>c \<in> set cs. length c < 2 ^ 62"
    and sched: "complete_schedule (length bs) sched"
  shows "extract_retrieved w clib (length bs) (retrieved_blocks bs sched) = Ok cs"
proof -
  have len: "length cs = length bs" using cs(1) by (rule list_all2_lengthD)
  have "ExtractBlockData w clib (bu_CID (bs ! i)) (bu_Data (bs ! i)) = Ok (cs ! i)" if "i < length bs" for i
    using extract_block_for [OF assms(1-3), of "cs ! i" "bs ! i"] list_all2_nthD2 [OF cs(1) that] cs(2) len that by simp
  then have "omap (\<lambda>(pos, c, raw). obind (map_err errSDK (ExtractBlockData w clib c raw)) (\<lambda>data. Ok (pos, data)))
      (retrieved_blocks bs sched) = Ok (map (\<lambda>(pos, c, raw). (pos, cs ! pos)) (retrieved_blocks bs sched))"
    using sched by (intro omap_all_Ok) (auto simp: retrieved_blocks_def complete_schedule_def)
  moreover have "map (\<lambda>(pos, c, raw). (pos, cs ! pos)) (retrieved_blocks bs sched) = map (\<lambda>i. (i, cs ! i)) sched"
    by (simp add: retrieved_blocks_def)
  moreover have "map ((!) cs) [0..<length bs] = cs" using map_nth [of cs] len by simp
  ultimately show ?thesis
    using place_complete [OF sched, of "[]" "\<lambda>i. cs ! i"] by (simp add: extract_retrieved_def)
qed

lemma chunk_blocks_assemble:
  assumes "wire_laws w" and "cid_laws clib P" and "cid_text_law clib"
    and "chunk_blocks P clib assemble plain bs" and "complete_schedule (length bs) sched"
  shows "obind (extract_retrieved w clib (length bs) (retrieved_blocks bs sched)) assemble = Ok plain"
  using assms(4) extract_retrieved_pieces [OF assms(1-3) _ _ assms(5)] unfolding chunk_blocks_def by fastforce

text \<open>
  Blocks that are all served arrive in the order of the schedule; \<open>J\<close> is what is known of the world and stays true
  when a block is fetched.
\<close>

lemma retrieve_served:
  assumes "complete_schedule (length bs) sched" and "map bd_CID blocks = map bu_CID bs"
    and "\<And>i t. i < length bs \<Longrightarrow> J (snd t) \<Longrightarrow> \<exists>t'. fetch i t = (Ok (bu_Data (bs ! i)), t') \<and> J (snd t')" and "J (snd st)"
  shows "\<exists>st'. retrieve_blocks A fetch blocks sched st = (Ok (retrieved_blocks bs sched), st') \<and> J (snd st')"
proof -
  have "\<exists>st'. abind (fetch i) (\<lambda>blockData. abind (count_block (length blockData))
      (\<lambda>_. aret (i, bd_CID (blocks ! i), blockData))) t = (Ok (i, bu_CID (bs ! i), bu_Data (bs ! i)), st') \<and> J (snd st')"
    if i: "i \<in> set sched" and t: "J (snd t)" for i t
  proof -
    have i: "i < length bs" using i assms(1) by (simp add: complete_schedule_def)
    obtain d s where "fetch i t = (Ok (bu_Data (bs ! i)), d, s)" "J s" using assms(3) [OF i t] by auto
    moreover have "bd_CID (blocks ! i) = bu_CID (bs ! i)" using i assms(2) by (metis length_map nth_map)
    ultimately show ?thesis by (simp add: abind_def count_block_def)
  qed
  then have "\<exists>st'. retrieve_blocks A fetch blocks sched st =
      (Ok (map (\<lambda>i. (i, bu_CID (bs ! i), bu_Data (bs ! i))) sched), st') \<and> J (snd st')"
    unfolding retrieve_blocks_def using assms(4) by (intro group_collect_all_Ok [where I = "\<lambda>t. J (snd t)"]) auto
  then show ?thesis by (simp add: retrieved_blocks_def)
qed

lemma world_returns: "(\<And>s. J s \<Longrightarrow> \<exists>s'. m s = (Ok x, s') \<and> J s') \<Longrightarrow> J (snd t) \<Longrightarrow> \<exists>t'. world m t = (Ok x, t') \<and> J (snd t')"
  by (cases t) (fastforce simp: world_def)

text \<open>The three downloads of a chunk have one shape; a chunk whose blocks are served is written as it was uploaded.\<close>

definition get_chunk ::
  "wire_lib \<Rightarrow> cid_lib \<Rightarrow> ('s, 'c) api \<Rightarrow> (nat \<Rightarrow> ('s, byte list) act) \<Rightarrow> FileBlockDownload list \<Rightarrow> nat list \<Rightarrow>
   (byte list list \<Rightarrow> byte list outcome) \<Rightarrow> (byte list \<Rightarrow> ('s, unit) act) \<Rightarrow> ('s counted, unit) act" where
  "get_chunk w clib A fetch blocks sched assemble writer =
     abind (sdk_wrap (retrieve_blocks A (\<lambda>i. world (fetch i)) blocks sched)) (\<lambda>retrieved.
     abind (alift (extract_retrieved w clib (length blocks) retrieved)) (\<lambda>datas.
     abind (alift (assemble datas)) (\<lambda>data. sdk_wrap (world (writer data)))))"

lemma downloadChunkBlocks_eq:
  "downloadChunkBlocks P w clib A sdk sched bucketName fileName address dl key writer =
     get_chunk w clib A (\<lambda>i. fetchBlockData A (cdl_CID dl) bucketName fileName address (cdl_Index dl) (int i) (cdl_Blocks dl ! i))
       (cdl_Blocks dl) sched (assemble_chunk P (ipc_ec sdk) key (cdl_Index dl)) writer"
  "downloadChunkBlocks2 P w clib A sdk sched dl key writer =
     get_chunk w clib A (\<lambda>i. archival_fetch clib A sdk (cdl_Blocks dl ! i))
       (cdl_Blocks dl) sched (assemble_chunk P (ipc_ec sdk) key (cdl_Index dl)) writer"
  by (simp_all add: downloadChunkBlocks_def downloadChunkBlocks2_def get_chunk_def Let_def)

lemma get_chunk_served:
  assumes "wire_laws w" and "cid_laws clib P" and "cid_text_law clib" and "chunk_blocks P clib assemble plain bs"
    and "map bd_CID blocks = map bu_CID bs" and "complete_schedule (length bs) sched"
    and "\<And>i t. i < length bs \<Longrightarrow> J t \<Longrightarrow> \<exists>t'. fetch i t = (Ok (bu_Data (bs ! i)), t') \<and> J t'" and "J (snd st)"
  shows "\<exists>st'. get_chunk w clib A fetch blocks sched assemble writer st = sdk_wrap (world (writer plain)) st' \<and> J (snd st')"
proof -
  from chunk_blocks_assemble [OF assms(1-4,6)]
  obtain datas where datas: "extract_retrieved w clib (length bs) (retrieved_blocks bs sched) = Ok datas" "assemble datas = Ok plain"
    by (auto simp: obind_Ok_iff)
  have "\<exists>t'. world (fetch i) t = (Ok (bu_Data (bs ! i)), t') \<and> J (snd t')" if "i < length bs" "J (snd t)"
    for i and t :: "'a counted"
    by (rule world_returns [OF assms(7) [OF that(1)] that(2)])
  then obtain st' where "retrieve_blocks A (\<lambda>i. world (fetch i)) blocks sched st = (Ok (retrieved_blocks bs sched), st')"
    "J (snd st')"
    using retrieve_served [where J = J and st = st and fetch = "\<lambda>i. world (fetch i)", OF assms(6,5) _ assms(8)] by blast
  moreover have "length blocks = length bs" using assms(5) by (metis length_map)
  ultimately show ?thesis using datas by (intro exI [of _ st']) (simp add: get_chunk_def abind_def amap_err_def)
qed

text \<open>
  A group whose every fetch, when it succeeds, gives the data of the uploaded block.
\<close>

lemma retrieve_authentic:
  assumes "complete_schedule (length bs) sched" and "map bd_CID blocks = map bu_CID bs"
    and "\<And>i t x t'. i < length bs \<Longrightarrow> fetch i t = (Ok x, t') \<Longrightarrow> x = bu_Data (bs ! i)"
    and "retrieve_blocks A fetch blocks sched st = (Ok xs, st')"
  shows "xs = retrieved_blocks bs sched"
proof (rule nth_equalityI)
  note g = group_collect_Ok [OF assms(4) [unfolded retrieve_blocks_def]]
  show "length xs = length (retrieved_blocks bs sched)" using g by (simp add: retrieved_blocks_def)
  fix k
  assume "k < length xs"
  then have k: "k < length sched" using g by simp
  then have i: "sched ! k < length bs" using assms(1) nth_mem [OF k] by (simp add: complete_schedule_def)
  obtain t t' where "abind (fetch (sched ! k)) (\<lambda>blockData. abind (count_block (length blockData))
      (\<lambda>_. aret (sched ! k, bd_CID (blocks ! (sched ! k)), blockData))) t = (Ok (xs ! k), t')"
    using g k by blast
  then obtain x t1 where "fetch (sched ! k) t = (Ok x, t1)" "xs ! k = (sched ! k, bd_CID (blocks ! (sched ! k)), x)"
    by (auto simp: abind_Ok_iff)
  moreover have "bd_CID (blocks ! (sched ! k)) = bu_CID (bs ! (sched ! k))" using i assms(2) by (metis length_map nth_map)
  ultimately show "xs ! k = retrieved_blocks bs sched ! k"
    using assms(3) [OF i] k by (auto simp: retrieved_blocks_def)
qed

lemma world_OkD:
  assumes "world m t = (Ok x, t')"
  shows "\<exists>u u'. m u = (Ok x, u')"
  using assms by (cases t) (auto simp: world_def split: prod.splits)

lemma lifted_steps_Ok:
  assumes "abind m (\<lambda>x. abind (alift (f x)) (\<lambda>y. abind (alift (g y)) h)) s = (Ok r, s')"
  shows "\<exists>x s1 y z. m s = (Ok x, s1) \<and> f x = Ok y \<and> g y = Ok z \<and> h z s1 = (Ok r, s')"
  using assms by (auto simp: abind_Ok_iff)

lemma archival_fetch_verified:
  assumes "cid_laws clib P" and "cid_text_law clib" and "block_for P clib c b" and "bd_CID block = bu_CID b"
    and "archival_fetch clib A sdk block s = (Ok x, s')"
  shows "sha256_sum P x = sha256_sum P (bu_Data b)"
proof -
  have "VerifyRaw clib (bu_CID b) x = Ok ()"
    using assms(4,5) by (auto simp: archival_fetch_def abind_Ok_iff)
  then show ?thesis using block_for_verifies(1) [OF assms(1-3)] by simp
qed

text \<open>A different byte string with the digest of a block.\<close>

definition second_preimage :: "prims \<Rightarrow> byte list \<Rightarrow> byte list \<Rightarrow> bool" where
  "second_preimage P a b \<longleftrightarrow> a \<noteq> b \<and> sha256_sum P a = sha256_sum P b"

section \<open>A world for the examples\<close>

text \<open>One block holding \<open>[1, 2, 3]\<close>, served by a node and by an HTTP server; the state is what was written.\<close>

definition serving_api :: "(byte list, unit) api" where
  "serving_api = failing_api\<lparr>
     rpc_FileUploadChunkCreate := (\<lambda>ch _ _. aret (map (\<lambda>(c, _).
       \<lparr>bup_Cid = c, bup_NodeAddress = ''n'', bup_NodeId = ''i'', bup_Permit = []\<rparr>) (pc_Blocks ch))),
     pool_IPCClient := (\<lambda>_. aret ()), pool_ArchivalClient := (\<lambda>_. aret ()),
     cl_FileDownloadBlock := (\<lambda>_ _. aret ([leaf_bytes [1, 2, 3]], reader_EOF)),
     cl_FileResolveBlock := (\<lambda>_ _. aret \<lparr>pdp_URL = ''u'', pdp_Offset = 0, pdp_Size = 11, pdp_DataSetID = 0\<rparr>),
     http_do := (\<lambda>_ _. aret \<lparr>resp_StatusCode = 206, resp_Body = (leaf_bytes [1, 2, 3], None), resp_Close = None\<rparr>)\<rparr>"

abbreviation "sample_data \<equiv> \<lparr>sarr = [1, 2, 3], slen = 3\<rparr>"

lemma sample_leaves: "\<not> leaves_collide P [c]"
  by (simp add: leaves_collide_def)

lemma sample_pieces: "chunk_pieces P rnd None [] index sample_data = Ok [[1, 2, 3]]"
  by (simp add: chunk_pieces_def coded_chunk_def contents_def chunks.simps BlockSize_def MB_def ToInt64_def)

lemma sample_chunk_upload:
  assumes "contents data = [1, 2, 3]" and "slen data = 3" and "rpc_FileUploadChunkCreate A = rpc_FileUploadChunkCreate serving_api"
  shows "\<exists>cu b. createChunkUpload sample_prims (sample_dag_lib sample_prims) (sample_cid_lib sample_prims) A
      (sample_ipc [] None) 0 [] data [9] ''f'' s = (Ok cu, s) \<and>
    cu_Index cu = 0 \<and> cu_FileName cu = ''f'' \<and>
    cu_Blocks cu = [b] \<and> bu_NodeAddress b = ''n'' \<and> bu_NodeID b = ''i'' \<and> bu_Data b = leaf_bytes [1, 2, 3] \<and>
    bu_CID b = string_of (sha256_cid sample_prims (leaf_bytes [1, 2, 3]))"
proof -
  let ?clib = "sample_cid_lib sample_prims" and ?lib = "sample_dag_lib sample_prims"
  have ch: "chunks 1000000 [1, 2, 3] = [[1, 2, 3 :: byte]]" by (simp add: chunks.simps)
  then obtain dag b where dag: "BuildDAG ?lib ?clib [1, 2, 3] 1000000 = Ok dag" "cd_Blocks dag = [b]"
    and b: "block_for sample_prims ?clib [1, 2, 3] b"
    using BuildDAG_blocks [OF sample_dag_laws, of 1000000 "[1, 2, 3]" sample_prims ?clib] sample_leaves
    by (auto simp: list_all2_Cons1)
  have coded: "coded_chunk None data = Ok ([1, 2, 3], 1000000)"
    using assms(1) by (simp add: coded_chunk_def BlockSize_def MB_def ToInt64_def)
  have cid: "bu_CID b = string_of (sha256_cid sample_prims (leaf_bytes [1, 2, 3]))"
    using b by (simp add: block_for_def sample_cid_lib_def)
  then have "\<exists>x y z. toIPCProtoChunk ?clib (cid_String ?clib (cd_CID dag)) 0 3 [b] = Ok (x, y, z) \<and>
      map fst (pc_Blocks z) = [bu_CID b]"
    by (simp add: toIPCProtoChunk_def sample_cid_lib_def slice_from_def)
  then obtain x y z where z: "toIPCProtoChunk ?clib (cid_String ?clib (cd_CID dag)) 0 3 [b] = Ok (x, y, z)"
    "map fst (pc_Blocks z) = [bu_CID b]" by (elim exE conjE)
  then obtain u where "pc_Blocks z = [(bu_CID b, u)]" by (auto simp: map_eq_Cons_conv)
  then show ?thesis using coded dag z b cid assms(2,3)
    by (simp add: createChunkUpload_def Let_def abind_def serving_api_def block_for_def amap_err_def aret_def alift_def)
qed

section \<open>Properties\<close>

text \<open>C3: A chunk that was uploaded is downloaded unchanged: when the nodes serve the blocks they were given, in whatever order
  the requests finish, \<open>downloadChunkBlocks\<close> writes exactly the bytes given to \<open>createChunkUpload\<close>, with or
  without encryption and erasure coding, provided no two different pieces of the chunk have leaves with the same digest.\<close>

theorem chunk_roundtrip:
  assumes "wire_laws w" and "cid_laws clib P" and "cid_text_law clib" and "dag_laws lib P" and "ec_laws (ipc_ec sdk)"
    and "valid_slice data" and "0 < slen data" and "sealed_length key (slen data) \<le> 1024000000"
    and "createChunkUpload P lib clib A sdk index key data bucketID name s = (Ok cu, s')"
    and "chunk_pieces P (fst (rand_Reader A s)) (ipc_ec sdk) key index data = Ok pieces" and "\<not> leaves_collide P pieces"
    and "map bd_CID (cdl_Blocks dl) = map bu_CID (cu_Blocks cu)" and "cdl_Index dl = index"
    and "complete_schedule (length (cu_Blocks cu)) sched"
    and "\<forall>i < length (cu_Blocks cu). \<forall>t. \<exists>t'. fetchBlockData A (cdl_CID dl) bucketName fileName address
           (cdl_Index dl) (int i) (cdl_Blocks dl ! i) t = (Ok (bu_Data (cu_Blocks cu ! i)), t')"
  shows "\<exists>st'. downloadChunkBlocks P w clib A sdk sched bucketName fileName address dl key writer st =
    sdk_wrap (world (writer (contents data))) st'"
proof -
  have "chunk_blocks P clib (assemble_chunk P (ipc_ec sdk) key index) (contents data) (cu_Blocks cu)"
    using createChunkUpload_blocks [OF assms(4-11)] by blast
  from get_chunk_served [OF assms(1-3) this assms(12,14), where J = "\<lambda>_. True" and A = A and writer = writer and st = st]
  show ?thesis using assms(13,15) by (simp add: downloadChunkBlocks_eq)
qed

theorem chunk_roundtrip_witness:
  "\<exists>cu b d s. createChunkUpload sample_prims (sample_dag_lib sample_prims) (sample_cid_lib sample_prims) serving_api
      (sample_ipc [] None) 0 [] sample_data [9] ''f'' [] = (Ok cu, []) \<and> cu_Blocks cu = [b] \<and>
    downloadChunkBlocks sample_prims sample_wire (sample_cid_lib sample_prims) serving_api (sample_ipc [] None) [0]
      ''b'' ''f'' ''a'' \<lparr>cdl_CID = ''c'', cdl_Index = 0, cdl_EncodedSize = 0, cdl_Size = 3,
         cdl_Blocks = [\<lparr>bd_CID = bu_CID b, bd_Permit = [], bd_NodeAddress = ''n'', bd_NodeID = ''i''\<rparr>]\<rparr>
      [] (\<lambda>d s. (Ok (), s @ d)) (newDataCounters, []) = (Ok (), (d, s @ [1, 2, 3]))"
proof -
  obtain cu b where cu: "createChunkUpload sample_prims (sample_dag_lib sample_prims) (sample_cid_lib sample_prims) serving_api
      (sample_ipc [] None) 0 [] sample_data [9] ''f'' [] = (Ok cu, [])" "cu_Blocks cu = [b]"
      "bu_Data b = leaf_bytes [1, 2, 3]"
    using sample_chunk_upload [of sample_data serving_api "[]"] by (auto simp: contents_def)
  let ?d = "\<lparr>bd_CID = bu_CID b, bd_Permit = [], bd_NodeAddress = ''n'', bd_NodeID = ''i''\<rparr>"
  let ?dl = "\<lparr>cdl_CID = ''c'', cdl_Index = 0, cdl_EncodedSize = 0, cdl_Size = 3, cdl_Blocks = [?d]\<rparr>"
  have fetch: "fetchBlockData serving_api ''c'' ''b'' ''f'' ''a'' 0 0 ?d t = (Ok (leaf_bytes [1, 2, 3]), t)" for t
    by (simp add: fetchBlockData_def serving_api_def abind_def reader_EOF_def)
  have "\<exists>st'. downloadChunkBlocks sample_prims sample_wire (sample_cid_lib sample_prims) serving_api (sample_ipc [] None) [0]
      ''b'' ''f'' ''a'' ?dl [] (\<lambda>d s. (Ok (), s @ d)) (newDataCounters, []) =
      sdk_wrap (world ((\<lambda>d s. (Ok (), s @ d)) (contents sample_data))) st'"
    by (rule chunk_roundtrip [OF sample_wire_laws sample_cid_laws sample_cid_text sample_dag_laws _ _ _ _ cu(1) _ sample_leaves])
      (simp_all add: cu(2,3) fetch sample_pieces ec_laws_def sealed_length_def valid_slice_def scap_def complete_schedule_def lessThan_Suc)
  then obtain d s where "downloadChunkBlocks sample_prims sample_wire (sample_cid_lib sample_prims) serving_api (sample_ipc [] None) [0]
      ''b'' ''f'' ''a'' ?dl [] (\<lambda>d s. (Ok (), s @ d)) (newDataCounters, []) = (Ok (), (d, s @ [1, 2, 3]))"
    by (auto simp: world_def amap_err_def contents_def)
  with cu show ?thesis by blast
qed

text \<open>C4: What is downloaded from the archival provider is what was uploaded or nothing: whatever the provider and the HTTP
  servers answer, when \<open>downloadChunkBlocks2\<close> gets to writing, what it writes is exactly the uploaded
  chunk, since every block is verified against its CID, provided no answer is a second preimage of its block.\<close>

theorem archival_integrity:
  assumes "wire_laws w" and "cid_laws clib P" and "cid_text_law clib" and "dag_laws lib P" and "ec_laws (ipc_ec sdk)"
    and "valid_slice data" and "0 < slen data" and "sealed_length key (slen data) \<le> 1024000000"
    and "createChunkUpload P lib clib A sdk index key data bucketID name s = (Ok cu, s')"
    and "chunk_pieces P (fst (rand_Reader A s)) (ipc_ec sdk) key index data = Ok pieces" and "\<not> leaves_collide P pieces"
    and "map bd_CID (cdl_Blocks dl) = map bu_CID (cu_Blocks cu)" and "cdl_Index dl = index"
    and "complete_schedule (length (cu_Blocks cu)) sched"
    and "\<forall>i < length (cu_Blocks cu). \<forall>t x t'. archival_fetch clib A' sdk (cdl_Blocks dl ! i) t = (Ok x, t') \<longrightarrow>
           \<not> second_preimage P (bu_Data (cu_Blocks cu ! i)) x"
    and "downloadChunkBlocks2 P w clib A' sdk sched dl key writer st = (Ok (), st'')"
  shows "\<exists>st'. world (writer (contents data)) st' = (Ok (), st'')"
proof -
  let ?bs = "cu_Blocks cu"
  have cb: "chunk_blocks P clib (assemble_chunk P (ipc_ec sdk) key index) (contents data) ?bs"
    using createChunkUpload_blocks [OF assms(4-11)] by blast
  have len: "length (cdl_Blocks dl) = length ?bs" using assms(12) by (metis length_map)
  obtain xs st1 datas data' st2 where
    xs: "retrieve_blocks A' (\<lambda>i. world (archival_fetch clib A' sdk (cdl_Blocks dl ! i))) (cdl_Blocks dl) sched st = (Ok xs, st1)"
    and ex: "extract_retrieved w clib (length ?bs) xs = Ok datas"
    and as: "assemble_chunk P (ipc_ec sdk) key index datas = Ok data'"
    and wr: "world (writer data') st2 = (Ok (), st'')"
    using lifted_steps_Ok [OF assms(16) [unfolded downloadChunkBlocks2_def Let_def assms(13)]] len by auto
  have "x = bu_Data (?bs ! i)"
    if i: "i < length ?bs" and f: "world (archival_fetch clib A' sdk (cdl_Blocks dl ! i)) t = (Ok x, t')" for i t x t'
  proof -
    obtain cs where cs: "list_all2 (block_for P clib) cs ?bs" using cb unfolding chunk_blocks_def by blast
    have c: "block_for P clib (cs ! i) (?bs ! i)" by (rule list_all2_nthD2 [OF cs i])
    have same: "bd_CID (cdl_Blocks dl ! i) = bu_CID (?bs ! i)" using i len assms(12) by (metis nth_map)
    obtain u u' where u: "archival_fetch clib A' sdk (cdl_Blocks dl ! i) u = (Ok x, u')"
      using world_OkD [OF f] by blast
    from archival_fetch_verified [OF assms(2,3) c same u] assms(15) i u show ?thesis
      unfolding second_preimage_def by metis
  qed
  note auth = this
  have "xs = retrieved_blocks ?bs sched" by (rule retrieve_authentic [OF assms(14,12) auth xs])
  then have "data' = contents data"
    using chunk_blocks_assemble [OF assms(1-3) cb assms(14)] ex as by simp
  then show ?thesis using wr by blast
qed

theorem archival_integrity_witness:
  "\<exists>cu b d s. createChunkUpload sample_prims (sample_dag_lib sample_prims) (sample_cid_lib sample_prims) serving_api
      (sample_ipc [] None) 0 [] sample_data [9] ''f'' [] = (Ok cu, []) \<and> cu_Blocks cu = [b] \<and>
    downloadChunkBlocks2 sample_prims sample_wire (sample_cid_lib sample_prims) serving_api (sample_ipc [] None) [0]
      \<lparr>cdl_CID = ''c'', cdl_Index = 0, cdl_EncodedSize = 0, cdl_Size = 3,
         cdl_Blocks = [\<lparr>bd_CID = bu_CID b, bd_Permit = [], bd_NodeAddress = ''n'', bd_NodeID = ''i''\<rparr>]\<rparr>
      [] (\<lambda>d s. (Ok (), s @ d)) (newDataCounters, []) = (Ok (), (d, s @ [1, 2, 3]))"
proof -
  obtain cu b where cu: "createChunkUpload sample_prims (sample_dag_lib sample_prims) (sample_cid_lib sample_prims) serving_api
      (sample_ipc [] None) 0 [] sample_data [9] ''f'' [] = (Ok cu, [])" "cu_Blocks cu = [b]"
      "bu_Data b = leaf_bytes [1, 2, 3]" "bu_CID b = string_of (sha256_cid sample_prims (leaf_bytes [1, 2, 3]))"
    using sample_chunk_upload [of sample_data serving_api "[]"] by (auto simp: contents_def)
  let ?d = "\<lparr>bd_CID = bu_CID b, bd_Permit = [], bd_NodeAddress = ''n'', bd_NodeID = ''i''\<rparr>"
  let ?dl = "\<lparr>cdl_CID = ''c'', cdl_Index = 0, cdl_EncodedSize = 0, cdl_Size = 3, cdl_Blocks = [?d]\<rparr>"
  let ?get = "downloadChunkBlocks2 sample_prims sample_wire (sample_cid_lib sample_prims) serving_api (sample_ipc [] None) [0]
      ?dl [] (\<lambda>d s. (Ok (), s @ d)) (newDataCounters, [])"
  have range: "rangeDownload serving_api (sample_ipc [] None) ''u'' 0 11 t = (Ok (leaf_bytes [1, 2, 3]), t)" for t
    unfolding rangeDownload_def
    by (rule retry_act_first) (simp add: RangeDownload_def serving_api_def failing_api_def abind_def amap_err_def
        close_body_def errors_Join_def map_filter_simps Let_def)
  have ver: "VerifyRaw (sample_cid_lib sample_prims) (bu_CID b) (leaf_bytes [1, 2, 3]) = Ok ()"
    using block_for_verifies(1) [OF sample_cid_laws sample_cid_text, of sample_prims "[1, 2, 3]" b "leaf_bytes [1, 2, 3]"] cu(3,4)
    by (simp add: block_for_def sample_cid_lib_def)
  have res: "resolveBlock serving_api n c t = (Ok \<lparr>pdp_URL = ''u'', pdp_Offset = 0, pdp_Size = 11, pdp_DataSetID = 0\<rparr>, t)" for n c t
    by (simp add: resolveBlock_def serving_api_def abind_def amap_err_def)
  have fetch: "archival_fetch (sample_cid_lib sample_prims) serving_api (sample_ipc [] None) ?d t = (Ok (leaf_bytes [1, 2, 3]), t)" for t
    by (simp add: archival_fetch_def abind_def res range ver)
  have ex: "ExtractBlockData sample_wire (sample_cid_lib sample_prims) (bu_CID b) (leaf_bytes [1, 2, 3]) = Ok [1, 2, 3]"
    using extract_block [OF sample_wire_laws sample_cid_laws sample_cid_text, of "[1, 2, 3]" sample_prims "leaf_bytes [1, 2, 3]"] cu(4)
    by (simp add: sample_cid_lib_def)
  obtain d where get: "?get = (Ok (), (d, [1, 2, 3]))"
    by (simp add: downloadChunkBlocks2_def Let_def abind_def amap_err_def retrieve_blocks_def world_def fetch count_block_def
        extract_retrieved_def ex place_def assemble_chunk_def)
  have "\<exists>st'. world ((\<lambda>d s. (Ok (), s @ d)) (contents sample_data)) st' = (Ok (), (d, [1, 2, 3]))"
    by (rule archival_integrity [OF sample_wire_laws sample_cid_laws sample_cid_text sample_dag_laws _ _ _ _ cu(1) _ sample_leaves _ _ _ _ get])
      (simp_all add: cu(2,3) fetch sample_pieces ec_laws_def sealed_length_def valid_slice_def complete_schedule_def lessThan_Suc second_preimage_def scap_def)
  then have "\<exists>s. [1, 2, 3] = s @ [1, 2, 3 :: byte]" by (auto simp: world_def contents_def split: prod.splits)
  then show ?thesis using cu get by metis
qed

end
