(* ===== verification/ChunkPathsV2.thy ===== *)
theory ChunkPathsV2
  imports ChunkPaths StreamencSpec
begin

text \<open>
  \<open>sdk/sdk_ipc_upload_download2.go\<close>, a chunk of the second format: the block-wise encryption of
  \<open>streamenc\<close>, stripes, Reed-Solomon per stripe, and one block per shard index holding that shard of every
  stripe (\<open>createChunkUpload2\<close>, \<open>downloadChunkBlocksV2\<close>).

  Slice expressions are checked against the length of the slice; the code checks the capacity, which
  is at least that.
\<close>

section \<open>Making a chunk\<close>

definition targetCiphertextSize :: int where "targetCiphertextSize = sint (ToInt64 (16 * MB))"
definition maxStripeSize :: int where "maxStripeSize = sint (ToInt64 (2 * MiB))"

text \<open>\<open>xs[i]\<close> with the run-time check.\<close>

definition index_expr :: "nat \<Rightarrow> 'a list \<Rightarrow> 'a outcome" where
  "index_expr i xs = (if i < length xs then Ok (xs ! i) else Panic)"

text \<open>The size of a block and the blocks one after the other: shard \<open>i\<close> of every stripe is block \<open>i\<close>.\<close>

definition interleave :: "nat \<Rightarrow> byte list list list \<Rightarrow> (byte list \<times> int) outcome" where
  "interleave numShards stripedShards =
     obind (omap first_shard stripedShards) (\<lambda>firsts.
     obind (omap (\<lambda>i. omap (index_expr i) stripedShards) [0..<numShards]) (\<lambda>columns.
     Ok (concat (map concat columns), int (sum_list (map length firsts)))))"

definition coded_chunk2 :: "prims \<Rightarrow> rand_reader \<Rightarrow> ErasureCode \<Rightarrow> byte list \<Rightarrow> int \<Rightarrow> go_slice \<Rightarrow> (byte list \<times> int) outcome" where
  "coded_chunk2 P rnd ec fileEncKey index data =
     obind (map_err errSDK (Encrypt_stream P rnd fileEncKey data (format_int index))) (\<lambda>(n, cells).
     obind (slice_expr 0 n cells) (\<lambda>data.
     obind (SplitStripes data (2 * sint (ToInt64 MiB))) (\<lambda>stripedData.
     obind (omap (\<lambda>stripe. map_err errSDK (EncodeRaw ec stripe)) stripedData) (\<lambda>stripedShards.
     interleave (nat (DataBlocks ec + ParityBlocks ec)) stripedShards))))"

definition createChunkUpload2 ::
  "prims \<Rightarrow> dag_lib \<Rightarrow> cid_lib \<Rightarrow> ('s, 'c) api \<Rightarrow> ErasureCode \<Rightarrow> int \<Rightarrow> byte list \<Rightarrow> go_slice \<Rightarrow> byte list \<Rightarrow>
   string \<Rightarrow> ('s, ChunkData) act" where
  "createChunkUpload2 P lib clib A ec index fileEncKey data bucketID fileName =
     (let actualSize = of_nat (slen data) in
      abind (with_rand A (\<lambda>rnd. coded_chunk2 P rnd ec fileEncKey index data)) (\<lambda>(bytes, blockSize).
      abind (alift (map_err errSDK (BuildDAG lib clib bytes blockSize))) (\<lambda>chunkDAG.
      abind (alift (toIPCProtoChunk clib (cid_String clib (cd_CID chunkDAG)) index actualSize (cd_Blocks chunkDAG)))
        (\<lambda>(cids, sizes, protoChunk).
      abind (sdk_wrap (rpc_FileUploadChunkCreate A protoChunk bucketID fileName)) (\<lambda>res.
      if length res \<noteq> length (cd_Blocks chunkDAG) then unexpected_blocks (length res) (length (cd_Blocks chunkDAG))
      else
        abind (alift (assign_nodes 0 (cd_Blocks chunkDAG) res)) (\<lambda>blocks.
        aret \<lparr>cdt_ChunkUpload = \<lparr>cu_Index = index, cu_ChunkCID = cd_CID chunkDAG, cu_ActualSize = actualSize,
                cu_RawDataSize = actualSize, cu_EncodedSize = cd_EncodedSize chunkDAG,
                cu_Blocks = blocks, cu_BucketID = bucketID, cu_FileName = fileName\<rparr>,
              cdt_CIDs = cids, cdt_Sizes = sizes\<rparr>))))))"

section \<open>Getting a chunk\<close>

fun header_of :: "nat \<Rightarrow> byte list \<Rightarrow> byte list list \<Rightarrow> byte list" where
  "header_of h headerBuf [] = headerBuf"
| "header_of h headerBuf (b # bs) =
     (let headerBuf = headerBuf @ take (h - length headerBuf) b
      in if h \<le> length headerBuf then headerBuf else header_of h headerBuf bs)"

fun decode_stripes :: "ErasureCode \<Rightarrow> byte list list \<Rightarrow> int \<Rightarrow> nat \<Rightarrow> int \<Rightarrow> int \<Rightarrow> byte list outcome" where
  "decode_stripes ec blocks ciphertextSize 0 j blockOffset = Ok []"
| "decode_stripes ec blocks ciphertextSize (Suc n) j blockOffset =
     (let stripeSize = min maxStripeSize (ciphertextSize - j * maxStripeSize);
          shardSize = CeilDiv stripeSize (DataBlocks ec)
      in obind (omap (slice_expr blockOffset (blockOffset + shardSize)) blocks) (\<lambda>shards.
         obind (map_err errSDK (ExtractDataRaw ec shards stripeSize)) (\<lambda>stripeData.
         obind (decode_stripes ec blocks ciphertextSize n (j + 1) (blockOffset + shardSize)) (\<lambda>rest.
         Ok (stripeData @ rest)))))"

text \<open>
  \<open>headerBuf[:HeaderSize]\<close> reaches into the zeroed cells behind a header that is too short. Making the
  buffer of the ciphertext panics for a negative size; a size of 0 leaves nothing to decrypt.
\<close>

definition joined_stripes :: "ErasureCode \<Rightarrow> byte list list \<Rightarrow> byte list outcome" where
  "joined_stripes ec blocks =
     (let numShards = DataBlocks ec + ParityBlocks ec in
      if int (length blocks) \<noteq> numShards
      then Err (errSDK (ErrNew (''expected '' @ format_int numShards @ '' blocks, got '' @ format_int (int (length blocks)))))
      else
        obind (slice_expr 0 (DataBlocks ec) blocks) (\<lambda>dataBlocks.
        let h = nat HeaderSize; headerBuf = header_of h [] dataBlocks in
        obind (map_err errSDK (ParseHeader (take h (headerBuf @ replicate h 0)))) (\<lambda>(_, _, plaintextSize32).
        let plaintextSize = uint plaintextSize32;
            ciphertextSize = plaintextSize + Overhead_stream plaintextSize;
            numStripes = CeilDiv ciphertextSize maxStripeSize
        in if ciphertextSize < 0 then Panic
           else decode_stripes ec blocks ciphertextSize (nat numStripes) 0 0)))"

definition assemble_chunk2 :: "prims \<Rightarrow> ErasureCode \<Rightarrow> byte list \<Rightarrow> int \<Rightarrow> byte list list \<Rightarrow> byte list outcome" where
  "assemble_chunk2 P ec fileEncryptionKey index blocks =
     obind (joined_stripes ec blocks) (\<lambda>ciphertext.
     obind (map_err errSDK (DecryptAllBlocks P fileEncryptionKey ciphertext (format_int index) Version)) (\<lambda>(n, buf).
     slice_expr 0 n buf))"

definition downloadChunkBlocksV2 ::
  "prims \<Rightarrow> wire_lib \<Rightarrow> cid_lib \<Rightarrow> ('s, 'c) api \<Rightarrow> ErasureCode \<Rightarrow> nat list \<Rightarrow> string \<Rightarrow> string \<Rightarrow> string \<Rightarrow>
   FileChunkDownload \<Rightarrow> byte list \<Rightarrow> (byte list \<Rightarrow> ('s, unit) act) \<Rightarrow> ('s counted, unit) act" where
  "downloadChunkBlocksV2 P w clib A ec sched bucketName fileName address chunkDownload fileEncryptionKey writer =
     (let blocks = cdl_Blocks chunkDownload in
      abind (sdk_wrap (retrieve_blocks A (\<lambda>i. world (fetchBlockData A (cdl_CID chunkDownload) bucketName fileName address
               (cdl_Index chunkDownload) (int i) (blocks ! i))) blocks sched)) (\<lambda>retrieved.
      abind (alift (extract_retrieved w clib (length blocks) retrieved)) (\<lambda>datas.
      abind (alift (assemble_chunk2 P ec fileEncryptionKey (cdl_Index chunkDownload) datas)) (\<lambda>data.
      sdk_wrap (world (writer data))))))"

section \<open>Stripes and columns\<close>

lemma maxStripeSize_nat: "maxStripeSize = int 2097152"
  by (simp add: maxStripeSize_def ToInt64_def MiB_def)

lemma omap_map: "omap f (map g xs) = omap (\<lambda>x. f (g x)) xs"
  by (induction xs) simp_all

text \<open>What the Reed-Solomon code makes of a stripe: it is filled with zeros to a multiple of the data blocks.\<close>

definition pad_to :: "nat \<Rightarrow> byte list \<Rightarrow> byte list" where
  "pad_to d s = s @ replicate (d * ((length s + d - 1) div d) - length s) 0"

definition coded_stripe :: "nat \<Rightarrow> nat \<Rightarrow> (byte list list \<Rightarrow> byte list list) \<Rightarrow> byte list \<Rightarrow> byte list list \<Rightarrow> bool" where
  "coded_stripe d p par s S \<longleftrightarrow> shards_of ((length s + d - 1) div d) (d + p) S \<and>
     0 < (length s + d - 1) div d \<and> drop d S = par (take d S) \<and> concat (take d S) = pad_to d s"

definition column :: "byte list list list \<Rightarrow> nat \<Rightarrow> byte list" where
  "column SS i = concat (map (\<lambda>S. S ! i) SS)"

lemma column_simps [simp]: "column [] i = []" "column (S # SS) i = S ! i @ column SS i"
  by (simp_all add: column_def)

definition columns :: "nat \<Rightarrow> byte list list list \<Rightarrow> byte list list" where
  "columns n SS = map (column SS) [0..<n]"

lemma length_columns [len_simps]: "length (columns n SS) = n"
  by (simp add: columns_def)

lemma coded_stripes:
  assumes "rs_laws (ec_enc e) d p par" and "\<forall>s \<in> set ss. s \<noteq> []"
  shows "\<exists>SS. omap (\<lambda>s. map_err errSDK (EncodeRaw e s)) ss = Ok SS \<and> list_all2 (coded_stripe d p par) ss SS"
  using assms(2)
proof (induction ss)
  case (Cons s ss)
  obtain S where "EncodeRaw e s = Ok S" "coded_stripe d p par s S"
    using EncodeRaw_codeword [OF assms(1), of s] Cons.prems by (auto simp: coded_stripe_def pad_to_def)
  then show ?case using Cons by auto
qed simp

lemma coded_stripe_len: "coded_stripe d p par s S \<Longrightarrow> length S = d + p"
  by (simp add: coded_stripe_def shards_of_def)

lemma coded_stripe_shard:
  "coded_stripe d p par s S \<Longrightarrow> i < d + p \<Longrightarrow> length (S ! i) = (length s + d - 1) div d"
  by (simp add: coded_stripe_def shards_of_def)

lemma coded_stripe_extract:
  assumes "rs_laws (ec_enc e) d p par" and "DataBlocks e = int d" and "coded_stripe d p par s S"
  shows "ExtractDataRaw e S n = Ok (pad_to d s)"
  using joined_data_erased [OF assms(1,2), of _ S "[]"] assms(3)
  by (auto simp: ExtractDataRaw_def coded_stripe_def lost_def erase_def case_prod_unfold)

lemma length_column:
  assumes "list_all2 (coded_stripe d p par) ss SS" and "i < d + p"
  shows "length (column SS i) = sum_list (map (\<lambda>s. (length s + d - 1) div d) ss)"
  using assms by (induction rule: list_all2_induct) (auto simp: coded_stripe_shard)

lemma interleave_columns:
  assumes "list_all2 (coded_stripe d p par) ss SS" and "0 < d"
  shows "interleave (d + p) SS =
    Ok (concat (columns (d + p) SS), int (sum_list (map (\<lambda>s. (length s + d - 1) div d) ss)))"
proof -
  have firsts: "omap first_shard SS = Ok (map hd SS) \<and>
      sum_list (map length (map hd SS)) = sum_list (map (\<lambda>s. (length s + d - 1) div d) ss)"
    using assms(1)
  proof (induction rule: list_all2_induct)
    case (Cons s ss S SS)
    obtain x S' where "S = x # S'" using coded_stripe_len [OF Cons(1)] assms(2) by (cases S) auto
    then show ?case using Cons coded_stripe_shard [OF Cons(1), of 0] assms(2) by (simp add: first_shard_def)
  qed simp
  have "omap (index_expr i) SS = Ok (map (\<lambda>S. S ! i) SS)" if "i < d + p" for i
    using assms(1)
  proof (induction rule: list_all2_induct)
    case (Cons s ss S SS)
    then show ?case using that coded_stripe_len [OF Cons(1)] by (simp add: index_expr_def)
  qed simp
  then have "omap (\<lambda>i. omap (index_expr i) SS) [0..<d + p] = Ok (map (\<lambda>i. map (\<lambda>S. S ! i) SS) [0..<d + p])"
    by (rule omap_all_Ok) simp
  with firsts show ?thesis by (simp add: interleave_def columns_def column_def [abs_def] comp_def)
qed

lemma decode_stripes_columns:
  assumes "rs_laws (ec_enc e) d p par" and "DataBlocks e = int d"
    and "list_all2 (coded_stripe d p par) (chunks 2097152 c) SS"
    and "\<forall>i < d + p. length (pre i) = off"
  shows "decode_stripes e (map (\<lambda>i. pre i @ column SS i) [0..<d + p]) (int (j * 2097152 + length c))
      (length SS) (int j) (int off) = Ok (concat (map (pad_to d) (chunks 2097152 c)))"
  using assms(3,4)
proof (induction SS arbitrary: c j off pre rule: list.induct)
  case Nil
  from Nil.prems(1) have "chunks 2097152 c = []" by simp
  then show ?case by simp
next
  case (Cons S SS)
  have d: "0 < d" using assms(1) by (rule rs_lawsD(1))
  have c: "c \<noteq> []" using Cons.prems(1) by (cases c) auto
  define s where "s = take 2097152 c"
  have ch: "chunks 2097152 c = s # chunks 2097152 (drop 2097152 c)" using c by (subst chunks.simps) (simp add: s_def)
  have S: "coded_stripe d p par s S" and SS: "list_all2 (coded_stripe d p par) (chunks 2097152 (drop 2097152 c)) SS"
    using Cons.prems(1) by (simp_all add: ch)
  let ?k = "(length s + d - 1) div d"
  have size: "min maxStripeSize (int (j * 2097152 + length c) - int j * maxStripeSize) = int (length s)"
    by (simp add: maxStripeSize_nat s_def)
  have shard: "CeilDiv (int (length s)) (DataBlocks e) = int ?k" using d by (simp add: assms(2) CeilDiv_nat)
  have "slice_expr (int off) (int off + int ?k) (pre i @ column (S # SS) i) = Ok (S ! i)" if "i < d + p" for i
    using Cons.prems(2) that coded_stripe_shard [OF S that] by (simp add: slice_expr_def window_def)
  then have "omap (slice_expr (int off) (int off + int ?k)) (map (\<lambda>i. pre i @ column (S # SS) i) [0..<d + p]) =
      Ok (map (\<lambda>i. S ! i) [0..<d + p])"
    unfolding omap_map by (intro omap_all_Ok) (simp del: column_simps)
  moreover have "map (\<lambda>i. S ! i) [0..<d + p] = S" using map_nth [of S] coded_stripe_len [OF S] by simp
  ultimately have slices: "omap (slice_expr (int off) (int off + int ?k)) (map (\<lambda>i. pre i @ column (S # SS) i) [0..<d + p]) = Ok S"
    by simp
  have rest: "decode_stripes e (map (\<lambda>i. pre i @ column (S # SS) i) [0..<d + p]) (int (j * 2097152 + length c))
      (length SS) (int j + 1) (int off + int ?k) = Ok (concat (map (pad_to d) (chunks 2097152 (drop 2097152 c))))"
  proof (cases "SS = []")
    case True
    then have "chunks 2097152 (drop 2097152 c) = []" using SS by simp
    with True show ?thesis by simp
  next
    case False
    then have "drop 2097152 c \<noteq> []" using SS by auto
    then have "2097152 < length c" by simp
    then have n: "j * 2097152 + length c = Suc j * 2097152 + length (drop 2097152 c)" by simp
    have "\<forall>i < d + p. length (pre i @ S ! i) = off + ?k" using Cons.prems(2) coded_stripe_shard [OF S] by simp
    from Cons.IH [OF SS this, of "Suc j"] show ?thesis unfolding n by (simp add: add.commute)
  qed
  show ?case
    by (simp only: length_Cons decode_stripes.simps Let_def size shard slices rest ch
        obind.simps map_err.simps coded_stripe_extract [OF assms(1,2) S] list.map concat.simps)
qed

section \<open>Recovering the size from the header\<close>

lemma header_of_take: "length buf \<le> h \<Longrightarrow> header_of h buf bs = take h (buf @ concat bs)"
proof (induction bs arbitrary: buf)
  case (Cons b bs)
  then show ?case by (auto simp: Let_def)
qed simp

lemma ParseHeader_prefix: "17 \<le> length c \<Longrightarrow> ParseHeader (take 17 c) = ParseHeader c"
  by (simp add: ParseHeader_def layout_consts window_def drop_take nth_append)

lemma concat_prefix: "bs \<noteq> [] \<Longrightarrow> n \<le> length (hd bs) \<Longrightarrow> take n (concat bs) = take n (hd bs)"
  by (cases bs) simp_all

lemma pad_to_prefix: "n \<le> length s \<Longrightarrow> take n (pad_to d s) = take n s"
  by (simp add: pad_to_def)

lemma columns_header:
  assumes "list_all2 (coded_stripe d p par) (chunks 2097152 c) SS" and "0 < d" and "d \<le> 1024" and "17 \<le> length c"
  shows "take 17 (concat (take d (columns (d + p) SS))) = take 17 c"
proof -
  define s where "s = take 2097152 c"
  have ch: "chunks 2097152 c = s # chunks 2097152 (drop 2097152 c)"
    using assms(4) by (subst chunks.simps) (auto simp: s_def)
  obtain S SS' where SS: "SS = S # SS'" "coded_stripe d p par s S"
      "list_all2 (coded_stripe d p par) (chunks 2097152 (drop 2097152 c)) SS'"
    using assms(1) by (auto simp: ch list_all2_Cons1)
  have s: "17 \<le> length s" "take 17 s = take 17 c" using assms(4) by (simp_all add: s_def)
  have S: "take 17 (concat (take d S)) = take 17 c"
    using SS(2) s by (simp add: coded_stripe_def pad_to_prefix)
  have len: "length S = d + p" using SS(2) by (rule coded_stripe_len)
  show ?thesis
  proof (cases "length c \<le> 2097152")
    case True
    then have "SS' = []" using SS(3) by simp
    then have "columns (d + p) SS = S" using len map_nth [of S] by (simp add: SS(1) columns_def column_def [abs_def])
    with S show ?thesis by simp
  next
    case False
    then have "length s = 2097152" by (simp add: s_def)
    moreover have "17 * d \<le> 2097152 + d - 1" using assms(2,3) by simp
    then have "17 \<le> (2097152 + d - 1) div d" using assms(2) by (simp add: less_eq_div_iff_mult_less_eq)
    ultimately have k: "17 \<le> length (S ! 0)" using coded_stripe_shard [OF SS(2), of 0] assms(2) by simp
    obtain m where m: "d = Suc m" using assms(2) by (cases d) auto
    have "take d (columns (d + p) SS) = map (column SS) [0..<d]"
      by (simp add: columns_def take_map)
    then have "take 17 (concat (take d (columns (d + p) SS))) = take 17 (S ! 0)"
      using k concat_prefix [of "map (column SS) [0..<d]" 17] by (simp add: m upt_conv_Cons SS(1) del: upt_Suc)
    also have "\<dots> = take 17 (concat (take d S))"
      using k concat_prefix [of "take d S" 17] len m by (cases S) auto
    finally show ?thesis using S by simp
  qed
qed

lemma joined_stripes_columns:
  assumes laws: "rs_laws (ec_enc e) d p par" and db: "DataBlocks e = int d" "ParityBlocks e = int p" "d \<le> 1024"
    and iv: "length iv = 12" and data: "data \<noteq> []" "length data < 2 ^ 32"
    and SS: "list_all2 (coded_stripe d p par) (chunks 2097152 (sealed_blocks g iv data)) SS"
    and c: "length (sealed_blocks g iv data) = csize (length data)"
  shows "joined_stripes e (columns (d + p) SS) = Ok (concat (map (pad_to d) (chunks 2097152 (sealed_blocks g iv data))))"
proof -
  let ?c = "sealed_blocks g iv data"
  have d: "0 < d" using laws by (rule rs_lawsD(1))
  have c17: "17 \<le> length ?c" using c le_csize [of "length data"] data(1) by simp
  let ?cols = "columns (d + p) SS"
  have blocks: "slice_expr 0 (int d) ?cols = Ok (take d ?cols)"
    by (simp add: slice_expr_def db len_simps)
  have head: "take 17 (header_of 17 [] (take d ?cols) @ replicate 17 0) = take 17 ?c"
    using header_of_take [of "[]" 17 "take d ?cols"] columns_header [OF SS d db(3) c17] c17
    by (simp add: min_def)
  have ps: "uint (of_nat (length data) :: 32 word) = int (length data)"
    using data(2) by (simp add: unsigned_of_nat take_bit_nat_eq_self)
  have size: "int (length data) + Overhead_stream (int (length data)) = int (length ?c)"
    using Overhead_stream_nat [of "length data"] data(1) c by simp
  have "CeilDiv (int (length ?c)) maxStripeSize = int ((length ?c + 2097152 - 1) div 2097152)"
    unfolding maxStripeSize_nat by (rule CeilDiv_nat) simp
  then have "nat (CeilDiv (int (length ?c)) maxStripeSize) = length SS"
    using list_all2_lengthD [OF SS] by (simp add: len_simps)
  moreover have "decode_stripes e ?cols (int (length ?c)) (length SS) 0 0 = Ok (concat (map (pad_to d) (chunks 2097152 ?c)))"
    using decode_stripes_columns [OF laws db(1) SS, of "\<lambda>_. []" 0 0] by (simp add: columns_def)
  moreover have "ParseHeader (take 17 ?c) = Ok (Version, iv, of_nat (length data))"
    using ParseHeader_prefix [OF c17] ParseHeader_sealed [OF iv] by simp
  moreover have "nat HeaderSize = 17" by (simp add: layout_consts)
  ultimately show ?thesis
    using head by (simp add: joined_stripes_def db len_simps blocks Let_def ps size)
qed

section \<open>What the blocks hold\<close>

lemma nblocks_le: "nblocks n \<le> n"
  using less_nblocks_iff [of n n] pstart_le_coff [of n] by (cases n) (auto simp: nblocks_def)

lemma csize_bound: "n < 2 ^ 32 \<Longrightarrow> csize n \<le> 2 ^ 47"
proof -
  assume n: "n < 2 ^ 32"
  have "csize n \<le> Suc (nblocks n - 1) * 32768" unfolding csize_def by (rule cend_le)
  also have "\<dots> \<le> 2 ^ 32 * 32768" using nblocks_le [of n] n by (intro mult_right_mono) auto
  finally show ?thesis by simp
qed

text \<open>The ciphertext a chunk has, given the random bytes.\<close>

definition chunk_cipher :: "prims \<Rightarrow> (nat \<Rightarrow> byte) \<Rightarrow> byte list \<Rightarrow> int \<Rightarrow> byte list \<Rightarrow> byte list" where
  "chunk_cipher P f key index data = sealed_blocks (derived_aead P key (format_int index)) (map f [0..<12]) data"

lemma chunk_cipher_length: "data \<noteq> [] \<Longrightarrow> length (chunk_cipher P f key index data) = csize (length data)"
  unfolding chunk_cipher_def by (rule stream.length_sealed_blocks) simp_all

lemma coded_chunk2_pieces:
  assumes laws: "rs_laws (ec_enc e) d p par" and db: "DataBlocks e = int d" "ParityBlocks e = int p" "d + p \<le> 1024"
    and data: "valid_slice data" "0 < slen data" "slen data < 2 ^ 32" "csize (slen data) \<le> scap data"
  shows "\<exists>bytes n SS. coded_chunk2 P (Ok f) e key index data = Ok (bytes, int n) \<and> 0 < n \<and> n \<le> 2 ^ 47 \<and> bytes \<noteq> [] \<and>
    chunks n bytes = columns (d + p) SS \<and>
    list_all2 (coded_stripe d p par) (chunks 2097152 (chunk_cipher P f key index (contents data))) SS"
proof -
  have d: "0 < d" using laws by (rule rs_lawsD(1))
  have len: "length (contents data) = slen data" using data(1) by (rule length_contents)
  then have ne: "contents data \<noteq> []" using data(2) by auto
  define c where "c = chunk_cipher P f key index (contents data)"
  have lc: "length c = csize (slen data)" using chunk_cipher_length [OF ne] len by (simp add: c_def)
  have enc: "Encrypt_stream P (Ok f) key data (format_int index) =
      Ok (int (csize (slen data)), c @ drop (csize (slen data)) (sarr data))"
    using Encrypt_stream_Ok [OF data(1,2,4) refl] by (simp add: c_def chunk_cipher_def)
  have cut: "slice_expr 0 (int (csize (slen data))) (c @ drop (csize (slen data)) (sarr data)) = Ok c"
    using lc by (simp add: slice_expr_def window_def)
  have strip: "SplitStripes c (2 * sint (ToInt64 MiB)) = Ok (chunks 2097152 c)"
    using SplitStripes_chunks [of 2097152 c] by (simp add: ToInt64_def MiB_def)
  have "\<forall>s \<in> set (chunks 2097152 c). s \<noteq> []" by (auto dest: chunks_member)
  from coded_stripes [OF laws this] obtain SS where SS:
    "omap (\<lambda>s. map_err errSDK (EncodeRaw e s)) (chunks 2097152 c) = Ok SS"
    "list_all2 (coded_stripe d p par) (chunks 2097152 c) SS" by blast
  let ?n = "sum_list (map (\<lambda>s. (length s + d - 1) div d) (chunks 2097152 c))"
  have il: "interleave (nat (DataBlocks e + ParityBlocks e)) SS = Ok (concat (columns (d + p) SS), int ?n)"
    using interleave_columns [OF SS(2) d] by (simp add: db nat_add_distrib)
  have "?n \<le> sum_list (map length (chunks 2097152 c))" by (intro sum_list_mono) (rule ceil_div_le [OF d])
  also have "\<dots> = length c" using concat_chunks [of 2097152 c] by (simp flip: length_concat)
  finally have n: "?n \<le> 2 ^ 47" using csize_bound [OF data(3)] lc by simp
  have "c \<noteq> []" using lc le_csize [OF data(2)] by auto
  then have "chunks 2097152 c \<noteq> []" by (metis concat.simps(1) concat_chunks zero_less_numeral)
  then obtain s ss where ss: "chunks 2097152 c = s # ss" by (cases "chunks 2097152 c") auto
  then obtain S SS' where "SS = S # SS'" "coded_stripe d p par s S" using SS(2) by (auto simp: list_all2_Cons1)
  then have pos: "0 < ?n" by (simp add: ss coded_stripe_def)
  have cols: "shards_of ?n (d + p) (columns (d + p) SS)"
    using length_column [OF SS(2)] by (auto simp: shards_of_def len_simps columns_def)
  have "length (concat (columns (d + p) SS)) = (d + p) * ?n" by (rule length_concat_shards [OF cols])
  then have "concat (columns (d + p) SS) \<noteq> []" using pos d by (metis add_gr_0 length_0_conv mult_is_0 neq0_conv)
  moreover have "chunks ?n (concat (columns (d + p) SS)) = columns (d + p) SS" by (rule chunks_shards [OF cols pos])
  moreover have "coded_chunk2 P (Ok f) e key index data = Ok (concat (columns (d + p) SS), int ?n)"
    by (simp add: coded_chunk2_def enc cut strip SS(1) il)
  ultimately show ?thesis using pos n SS(2) unfolding c_def by blast
qed

lemma coded_chunk2_rnd: "coded_chunk2 P rnd e key index data = Ok r \<Longrightarrow> \<exists>f. rnd = Ok f"
  by (cases rnd) (auto simp: coded_chunk2_def Encrypt_stream_def GCMCipher_eq read_full_def Let_def split: if_splits)

lemma createChunkUpload2_blocks:
  assumes "dag_laws lib P" and "rs_laws (ec_enc e) d p par" and "DataBlocks e = int d" and "ParityBlocks e = int p"
    and "d + p \<le> 1024" and "valid_slice data" and "0 < slen data" and "slen data < 2 ^ 32" and "csize (slen data) \<le> scap data"
    and "createChunkUpload2 P lib clib A e index key data bucketID fileName s = (Ok cd, s')"
    and "coded_chunk2 P (fst (rand_Reader A s)) e key index data = Ok (bytes, n)"
    and "\<not> leaves_collide P (chunks (nat n) bytes)"
  shows "\<exists>f SS. fst (rand_Reader A s) = Ok f \<and>
    list_all2 (coded_stripe d p par) (chunks 2097152 (chunk_cipher P f key index (contents data))) SS \<and>
    chunks (nat n) bytes = columns (d + p) SS \<and> (\<forall>c \<in> set (columns (d + p) SS). length c < 2 ^ 62) \<and>
    list_all2 (block_for P clib) (columns (d + p) SS) (cu_Blocks (cdt_ChunkUpload cd)) \<and>
    cu_Index (cdt_ChunkUpload cd) = index \<and> cu_ActualSize (cdt_ChunkUpload cd) = of_nat (slen data)"
proof -
  obtain dag res blocks where
    dag: "BuildDAG lib clib bytes n = Ok dag"
    and blocks: "assign_nodes 0 (cd_Blocks dag) res = Ok blocks"
    and cu: "cu_Blocks (cdt_ChunkUpload cd) = blocks" "cu_Index (cdt_ChunkUpload cd) = index"
      "cu_ActualSize (cdt_ChunkUpload cd) = of_nat (slen data)"
    using assms(10,11)
    by (auto simp: createChunkUpload2_def Let_def abind_Ok_iff unexpected_blocks_def sdk_fail_def with_rand_def
        split: if_splits prod.splits)
  obtain f where f: "fst (rand_Reader A s) = Ok f" using coded_chunk2_rnd [OF assms(11)] by blast
  obtain m SS where SS: "coded_chunk2 P (Ok f) e key index data = Ok (bytes, int m)" "0 < m" "m \<le> 2 ^ 47" "bytes \<noteq> []"
    "chunks m bytes = columns (d + p) SS"
    "list_all2 (coded_stripe d p par) (chunks 2097152 (chunk_cipher P f key index (contents data))) SS" "n = int m"
    using coded_chunk2_pieces [OF assms(2-9), of P f key index] assms(11) f by auto
  have "length (chunks m bytes) \<le> 1024" using assms(5) by (simp add: SS(5) len_simps del: length_chunks)
  then obtain dag' where "BuildDAG lib clib bytes (int m) = Ok dag'" "list_all2 (block_for P clib) (chunks m bytes) (cd_Blocks dag')"
    using BuildDAG_blocks [OF assms(1) SS(2,4)] assms(12) SS(7) by auto
  then have "list_all2 (block_for P clib) (columns (d + p) SS) (cd_Blocks dag)" using dag SS(5,7) by simp
  then have "list_all2 (block_for P clib) (columns (d + p) SS) blocks" using blocks by (rule blocks_after_assign)
  moreover have "\<forall>c \<in> set (columns (d + p) SS). length c < 2 ^ 62"
    unfolding SS(5) [symmetric] using chunks_member [of _ m bytes] SS(2,3) by fastforce
  ultimately show ?thesis using f SS cu by auto
qed

lemma pad_to_dvd:
  assumes "d dvd length s" and "0 < d"
  shows "pad_to d s = s"
proof -
  obtain k where k: "length s = d * k" using assms(1) ..
  then have "(length s + d - 1) div d = k" using assms(2) by (intro div_nat_eqI) auto
  then show ?thesis by (simp add: pad_to_def k)
qed

lemma length_pad_to:
  assumes "0 < d"
  shows "length s \<le> length (pad_to d s)" and "d dvd length (pad_to d s)"
proof -
  have "d * ((length s + d - 1) div d) + (length s + d - 1) mod d = length s + d - 1"
    by (simp add: mult_div_mod_eq)
  moreover have "(length s + d - 1) mod d < d" using assms by simp
  ultimately have "length s \<le> d * ((length s + d - 1) div d)" using assms by linarith
  then have "length (pad_to d s) = d * ((length s + d - 1) div d)" by (simp add: pad_to_def)
  then show "length s \<le> length (pad_to d s)" "d dvd length (pad_to d s)"
    using \<open>length s \<le> d * ((length s + d - 1) div d)\<close> by simp_all
qed

lemma aligned_stripes:
  assumes "d dvd 16" and "16 dvd length c"
  shows "concat (map (pad_to d) (chunks 2097152 c)) = c"
proof -
  have d: "0 < d" using assms(1) by (cases d) auto
  have "d dvd length s" if "s \<in> set (chunks 2097152 c)" for s
    using that assms
  proof (induction "2097152 :: nat" c rule: chunks.induct)
    case (1 c)
    show ?case
    proof (cases "c = []")
      case False
      then have "chunks 2097152 c = take 2097152 c # chunks 2097152 (drop 2097152 c)" by (subst chunks.simps) simp
      then consider "s = take 2097152 c" | "s \<in> set (chunks 2097152 (drop 2097152 c))" using 1(2) by auto
      then show ?thesis
      proof cases
        case 1
        have "16 dvd length (take 2097152 c)" using \<open>16 dvd length c\<close> by (simp add: min_def)
        then show ?thesis using \<open>d dvd 16\<close> 1 dvd_trans by blast
      next
        case 2
        have "16 dvd length (drop 2097152 c)" using \<open>16 dvd length c\<close> by (simp add: dvd_diff_nat)
        then show ?thesis using "1.hyps" False 2 \<open>d dvd 16\<close> by simp
      qed
    qed (use 1(2) in simp)
  qed
  then have "map (pad_to d) (chunks 2097152 c) = chunks 2097152 c" using d by (simp add: map_idI pad_to_dvd)
  then show ?thesis using concat_chunks [of 2097152 c] by simp
qed

lemma padded_stripes_longer:
  assumes "0 < d" and "\<not> d dvd length (concat ss)"
  shows "length (concat ss) < length (concat (map (pad_to d) ss))"
proof -
  have "length (concat ss) \<le> length (concat (map (pad_to d) ss)) \<and> d dvd length (concat (map (pad_to d) ss))"
  proof (induction ss)
    case (Cons s ss)
    then show ?case using length_pad_to [OF assms(1), of s] by simp
  qed simp
  then show ?thesis using assms(2) by (metis le_neq_implies_less)
qed

lemma csize_aligned: "16 dvd csize n"
  unfolding dvd_eq_mod_eq_0 csize_def by (rule cend_aligned)

lemma joined_stripes_cipher:
  assumes laws: "rs_laws (ec_enc e) d p par" and db: "DataBlocks e = int d" "ParityBlocks e = int p" "d \<le> 1024"
    and data: "data \<noteq> []" "length data < 2 ^ 32"
    and SS: "list_all2 (coded_stripe d p par) (chunks 2097152 (chunk_cipher P f key index data)) SS"
  shows "joined_stripes e (columns (d + p) SS) = Ok (concat (map (pad_to d) (chunks 2097152 (chunk_cipher P f key index data))))"
  using joined_stripes_columns [OF laws db _ data, of "map f [0..<12]"] SS chunk_cipher_length [OF data(1)]
  by (simp add: chunk_cipher_def)

lemma assemble_chunk2_cipher:
  assumes "rs_laws (ec_enc e) d p par" and "DataBlocks e = int d" "ParityBlocks e = int p" "d dvd 16"
    and "data \<noteq> []" "length data < 2 ^ 32"
    and "list_all2 (coded_stripe d p par) (chunks 2097152 (chunk_cipher P f key index data)) SS"
  shows "assemble_chunk2 P e key index (columns (d + p) SS) = Ok data"
proof -
  have "d \<le> 1024" using dvd_imp_le [OF assms(4)] by simp
  moreover have "16 dvd length (chunk_cipher P f key index data)"
    using chunk_cipher_length [OF assms(5)] csize_aligned by simp
  ultimately have "joined_stripes e (columns (d + p) SS) = Ok (chunk_cipher P f key index data)"
    using joined_stripes_cipher [OF assms(1-3) _ assms(5-7)] aligned_stripes [OF assms(4)] by simp
  moreover have "DecryptAllBlocks P key (chunk_cipher P f key index data) (format_int index) Version =
      Ok (int (length data), data @ replicate (csize (length data) - length data) 0)"
    unfolding chunk_cipher_def by (rule DecryptAllBlocks_sealed) (use assms(5,6) in simp_all)
  ultimately show ?thesis by (simp add: assemble_chunk2_def slice_expr_def window_def)
qed

lemma createChunkUpload2_holds:
  assumes "dag_laws lib P" and "rs_laws (ec_enc e) d p par" and "DataBlocks e = int d" and "ParityBlocks e = int p" and "d dvd 16"
    and "d + p \<le> 1024" and "valid_slice data" and "0 < slen data" and "slen data < 2 ^ 32" and "csize (slen data) \<le> scap data"
    and "createChunkUpload2 P lib clib A e index key data bucketID fileName s = (Ok cd, s')"
    and "coded_chunk2 P (fst (rand_Reader A s)) e key index data = Ok (bytes, n)" and "\<not> leaves_collide P (chunks (nat n) bytes)"
  shows "chunk_blocks P clib (assemble_chunk2 P e key index) (contents data) (cu_Blocks (cdt_ChunkUpload cd))"
proof -
  obtain f SS where SS: "list_all2 (coded_stripe d p par) (chunks 2097152 (chunk_cipher P f key index (contents data))) SS"
    "\<forall>c \<in> set (columns (d + p) SS). length c < 2 ^ 62"
    "list_all2 (block_for P clib) (columns (d + p) SS) (cu_Blocks (cdt_ChunkUpload cd))"
    using createChunkUpload2_blocks [OF assms(1-4,6-13)] by blast
  have "contents data \<noteq> []" "length (contents data) < 2 ^ 32" using length_contents [OF assms(7)] assms(8,9) by auto
  then have "assemble_chunk2 P e key index (columns (d + p) SS) = Ok (contents data)"
    by (rule assemble_chunk2_cipher [OF assms(2-5) _ _ SS(1)])
  then show ?thesis using SS(2,3) by (auto simp: chunk_blocks_def)
qed

lemma downloadChunkBlocksV2_eq:
  "downloadChunkBlocksV2 P w clib A e sched bucketName fileName address dl key writer =
     get_chunk w clib A (\<lambda>i. fetchBlockData A (cdl_CID dl) bucketName fileName address (cdl_Index dl) (int i) (cdl_Blocks dl ! i))
       (cdl_Blocks dl) sched (assemble_chunk2 P e key (cdl_Index dl)) writer"
  by (simp add: downloadChunkBlocksV2_def get_chunk_def Let_def)

section \<open>A world for the examples\<close>

text \<open>Two equal blocks, as the mirroring code makes them, served by every node.\<close>

definition serving_api2 :: "byte list \<Rightarrow> (byte list, unit) api" where
  "serving_api2 b = serving_api\<lparr>cl_FileDownloadBlock := (\<lambda>_ _. aret ([leaf_bytes b], reader_EOF))\<rparr>"

abbreviation "sample_buf \<equiv> \<lparr>sarr = replicate 64 9, slen = 20\<rparr>"

lemma sample_csize: "csize 20 = 64"
  by (simp add: csize_def nblocks_def cend_def coff_def plen_def bsize_def)

lemma sample_coded2:
  assumes "valid_slice buf" and "0 < slen buf" and "slen buf < 2 ^ 32" and "csize (slen buf) \<le> scap buf"
  shows "\<exists>bytes n b. coded_chunk2 sample_prims (Ok (\<lambda>_. 0)) mirror_code key index buf = Ok (bytes, int n) \<and> 0 < n \<and>
     bytes \<noteq> [] \<and> chunks n bytes = [b, b]"
proof -
  have db: "rs_laws (ec_enc mirror_code) 1 1 (\<lambda>D. D)" "DataBlocks mirror_code = int 1" "ParityBlocks mirror_code = int 1"
    using mirror_laws by (simp_all add: mirror_code_def)
  obtain bytes n SS where c: "coded_chunk2 sample_prims (Ok (\<lambda>_. 0)) mirror_code key index buf = Ok (bytes, int n)" "0 < n"
    "bytes \<noteq> []" "chunks n bytes = columns (1 + 1) SS"
    and SS: "list_all2 (coded_stripe 1 1 (\<lambda>D. D)) (chunks 2097152 (chunk_cipher sample_prims (\<lambda>_. 0) key index (contents buf))) SS"
    using coded_chunk2_pieces [OF db _ assms, of sample_prims "\<lambda>_. 0" key index] by auto
  from SS have "column SS 0 = column SS 1"
  proof (induction rule: list_all2_induct)
    case (Cons s ss S SS)
    then have "drop 1 S = take 1 S" "length S = 2" by (simp_all add: coded_stripe_def shards_of_def)
    then have "S ! 0 = S ! 1" by (cases S) (auto simp: length_Suc_conv numeral_2_eq_2)
    with Cons show ?case by simp
  qed simp
  with c show ?thesis by (auto simp: columns_def numeral_2_eq_2)
qed

lemma sample_chunk_upload2:
  assumes "coded_chunk2 sample_prims (Ok (\<lambda>_. 0)) mirror_code key 0 buf = Ok (bytes, int n)" and "0 < n"
    and "bytes \<noteq> []" and "chunks n bytes = [b, b]"
    and "rpc_FileUploadChunkCreate A = rpc_FileUploadChunkCreate serving_api" and "rand_Reader A s = (Ok (\<lambda>_. 0), s)"
  shows "\<exists>cd b1 b2. createChunkUpload2 sample_prims (sample_dag_lib sample_prims) (sample_cid_lib sample_prims) A
      mirror_code 0 key buf [9] ''f'' s = (Ok cd, s) \<and> cu_Index (cdt_ChunkUpload cd) = 0 \<and>
    cu_Blocks (cdt_ChunkUpload cd) = [b1, b2] \<and> (\<forall>x \<in> {b1, b2}. bu_Data x = leaf_bytes b \<and>
      bu_CID x = string_of (sha256_cid sample_prims (leaf_bytes b)))"
proof -
  let ?clib = "sample_cid_lib sample_prims" and ?lib = "sample_dag_lib sample_prims"
  obtain dag b1 b2 where dag: "BuildDAG ?lib ?clib bytes (int n) = Ok dag" "cd_Blocks dag = [b1, b2]"
    and b: "block_for sample_prims ?clib b b1" "block_for sample_prims ?clib b b2"
    using BuildDAG_blocks [OF sample_dag_laws assms(2,3), of sample_prims ?clib]
    by (auto simp: assms(4) leaves_collide_def list_all2_Cons1)
  have cid: "bu_CID b1 = string_of (sha256_cid sample_prims (leaf_bytes b))" "bu_CID b2 = string_of (sha256_cid sample_prims (leaf_bytes b))"
    using b by (simp_all add: block_for_def sample_cid_lib_def)
  then have "\<exists>x y z. toIPCProtoChunk ?clib (cid_String ?clib (cd_CID dag)) 0 (of_nat (slen buf)) [b1, b2] = Ok (x, y, z) \<and>
      map fst (pc_Blocks z) = [bu_CID b1, bu_CID b2]"
    by (simp add: toIPCProtoChunk_def sample_cid_lib_def slice_from_def)
  then obtain x y z where z: "toIPCProtoChunk ?clib (cid_String ?clib (cd_CID dag)) 0 (of_nat (slen buf)) [b1, b2] = Ok (x, y, z)"
    "map fst (pc_Blocks z) = [bu_CID b1, bu_CID b2]" by (elim exE conjE)
  then obtain u v where "pc_Blocks z = [(bu_CID b1, u), (bu_CID b2, v)]" by (auto simp: map_eq_Cons_conv)
  then show ?thesis using assms(1,5,6) dag z b cid
    by (simp add: createChunkUpload2_def Let_def abind_def serving_api_def block_for_def amap_err_def aret_def alift_def with_rand_def)
qed

section \<open>Properties\<close>

text \<open>C5: A chunk of the second format is downloaded unchanged when the number of data blocks divides 16, to which
  \<open>streamenc\<close> aligns the ciphertext: when the nodes serve the blocks they were given, in whatever order, \<open>downloadChunkBlocksV2\<close>
  finds the size in the header, puts the stripes together, decrypts and writes exactly the bytes given to
  \<open>createChunkUpload2\<close>, provided no two different blocks have the same digest.\<close>

theorem chunk2_roundtrip:
  assumes "wire_laws w" and "cid_laws clib P" and "cid_text_law clib" and "dag_laws lib P"
    and "rs_laws (ec_enc e) d p par" and "DataBlocks e = int d" and "ParityBlocks e = int p" and "d dvd 16" and "d + p \<le> 1024"
    and "valid_slice data" and "0 < slen data" and "slen data < 2 ^ 32"
    and "int (slen data) + Overhead_stream (int (slen data)) \<le> int (scap data)"
    and "createChunkUpload2 P lib clib A e index key data bucketID name s = (Ok cd, s')"
    and "coded_chunk2 P (fst (rand_Reader A s)) e key index data = Ok (bytes, n)" and "\<not> leaves_collide P (chunks (nat n) bytes)"
    and "map bd_CID (cdl_Blocks dl) = map bu_CID (cu_Blocks (cdt_ChunkUpload cd))" and "cdl_Index dl = index"
    and "complete_schedule (length (cu_Blocks (cdt_ChunkUpload cd))) sched"
    and "\<forall>i < length (cu_Blocks (cdt_ChunkUpload cd)). \<forall>t. \<exists>t'. fetchBlockData A (cdl_CID dl) bucketName fileName address
           (cdl_Index dl) (int i) (cdl_Blocks dl ! i) t = (Ok (bu_Data (cu_Blocks (cdt_ChunkUpload cd) ! i)), t')"
  shows "\<exists>st'. downloadChunkBlocksV2 P w clib A e sched bucketName fileName address dl key writer st =
    sdk_wrap (world (writer (contents data))) st'"
proof -
  have fit: "csize (slen data) \<le> scap data" using Overhead_stream_nat [OF assms(11)] assms(13) by simp
  have "chunk_blocks P clib (assemble_chunk2 P e key index) (contents data) (cu_Blocks (cdt_ChunkUpload cd))"
    by (rule createChunkUpload2_holds [OF assms(4-12) fit assms(14-16)])
  from get_chunk_served [OF assms(1-3) this assms(17,19), where J = "\<lambda>_. True" and A = A and writer = writer and st = st]
  show ?thesis using assms(18,20) by (simp add: downloadChunkBlocksV2_eq)
qed

theorem chunk2_roundtrip_witness:
  "\<exists>(A :: (byte list, unit) api) cd b1 b2 d s. createChunkUpload2 sample_prims (sample_dag_lib sample_prims) (sample_cid_lib sample_prims) A
      mirror_code 0 [7] sample_buf [9] ''f'' [] = (Ok cd, []) \<and> cu_Blocks (cdt_ChunkUpload cd) = [b1, b2] \<and>
    downloadChunkBlocksV2 sample_prims sample_wire (sample_cid_lib sample_prims) A mirror_code [1, 0]
      ''b'' ''f'' ''a'' \<lparr>cdl_CID = ''c'', cdl_Index = 0, cdl_EncodedSize = 0, cdl_Size = 20,
         cdl_Blocks = [\<lparr>bd_CID = bu_CID b1, bd_Permit = [], bd_NodeAddress = ''n'', bd_NodeID = ''i''\<rparr>,
           \<lparr>bd_CID = bu_CID b2, bd_Permit = [], bd_NodeAddress = ''m'', bd_NodeID = ''j''\<rparr>]\<rparr>
      [7] (\<lambda>d s. (Ok (), s @ d)) (newDataCounters, []) = (Ok (), (d, s @ replicate 20 9))"
proof -
  obtain bytes n b where c: "coded_chunk2 sample_prims (Ok (\<lambda>_. 0)) mirror_code [7] 0 sample_buf = Ok (bytes, int n)" "0 < n"
    "bytes \<noteq> []" "chunks n bytes = [b, b]" using sample_coded2 [of sample_buf "[7]" 0] by (auto simp: valid_slice_def scap_def sample_csize)
  have "rand_Reader (serving_api2 b) [] = (Ok (\<lambda>_. 0), [])" by (simp add: serving_api2_def serving_api_def failing_api_def)
  from sample_chunk_upload2 [OF c _ this] obtain cd b1 b2 where
    cu: "createChunkUpload2 sample_prims (sample_dag_lib sample_prims) (sample_cid_lib sample_prims) (serving_api2 b)
      mirror_code 0 [7] sample_buf [9] ''f'' [] = (Ok cd, [])" and
    bs: "cu_Blocks (cdt_ChunkUpload cd) = [b1, b2]" "bu_Data b1 = leaf_bytes b" "bu_Data b2 = leaf_bytes b"
    by (auto simp: serving_api2_def)
  let ?d1 = "\<lparr>bd_CID = bu_CID b1, bd_Permit = [], bd_NodeAddress = ''n'', bd_NodeID = ''i''\<rparr>"
  let ?d2 = "\<lparr>bd_CID = bu_CID b2, bd_Permit = [], bd_NodeAddress = ''m'', bd_NodeID = ''j''\<rparr>"
  let ?dl = "\<lparr>cdl_CID = ''c'', cdl_Index = 0, cdl_EncodedSize = 0, cdl_Size = 20, cdl_Blocks = [?d1, ?d2]\<rparr>"
  have fetch: "fetchBlockData (serving_api2 b) ''c'' ''b'' ''f'' ''a'' 0 i d t = (Ok (leaf_bytes b), t)" if "d \<in> {?d1, ?d2}" for i d t
    using that by (auto simp: fetchBlockData_def serving_api2_def serving_api_def abind_def reader_EOF_def)
  have rnd: "fst (rand_Reader (serving_api2 b) []) = Ok (\<lambda>_. 0)"
    by (simp add: serving_api2_def serving_api_def failing_api_def)
  have mirror: "rs_laws (ec_enc mirror_code) 1 1 (\<lambda>D. D)" "DataBlocks mirror_code = int 1" "ParityBlocks mirror_code = int 1"
    using mirror_laws by (simp_all add: mirror_code_def)
  have nc: "\<not> leaves_collide sample_prims (chunks (nat (int n)) bytes)" by (simp add: c(4) leaves_collide_def)
  have size: "int (slen sample_buf) + Overhead_stream (int (slen sample_buf)) \<le> int (scap sample_buf)"
    using Overhead_stream_nat [of 20] by (simp add: sample_csize scap_def)
  have "\<exists>st'. downloadChunkBlocksV2 sample_prims sample_wire (sample_cid_lib sample_prims) (serving_api2 b) mirror_code [1, 0]
      ''b'' ''f'' ''a'' ?dl [7] (\<lambda>d s. (Ok (), s @ d)) (newDataCounters, []) =
      sdk_wrap (world ((\<lambda>d s. (Ok (), s @ d)) (contents sample_buf))) st'"
    by (rule chunk2_roundtrip [OF sample_wire_laws sample_cid_laws sample_cid_text sample_dag_laws mirror
          _ _ _ _ _ size cu c(1) [folded rnd] nc])
      (use bs fetch in \<open>auto simp: valid_slice_def scap_def complete_schedule_def nth_Cons split: nat.splits\<close>)
  then obtain d s where "downloadChunkBlocksV2 sample_prims sample_wire (sample_cid_lib sample_prims) (serving_api2 b) mirror_code [1, 0]
      ''b'' ''f'' ''a'' ?dl [7] (\<lambda>d s. (Ok (), s @ d)) (newDataCounters, []) = (Ok (), (d, s @ replicate 20 9))"
    by (auto simp: world_def amap_err_def contents_def)
  with cu bs show ?thesis by blast
qed

text \<open>C31: When the number of data blocks does not divide the size of the ciphertext, what \<open>downloadChunkBlocksV2\<close> puts
  together and hands to decryption is not the ciphertext that was uploaded: \<open>ExtractDataRaw\<close> ignores the size it is
  given and keeps the zeros each stripe was filled with, so the result is too long for the size in its header. Only
  numbers of data blocks dividing 16, out of the allowed ones, are safe for all chunks.\<close>

theorem stripe_padding_kept:
  assumes "rs_laws (ec_enc e) d p par" and "DataBlocks e = int d" and "ParityBlocks e = int p" and "d + p \<le> 1024"
    and "valid_slice data" and "0 < slen data" and "slen data < 2 ^ 32"
    and "int (slen data) + Overhead_stream (int (slen data)) \<le> int (scap data)"
    and "coded_chunk2 P rnd e key index data = Ok (bytes, n)"
    and "\<not> int d dvd int (slen data) + Overhead_stream (int (slen data))"
  shows "\<exists>c. joined_stripes e (chunks (nat n) bytes) = Ok c \<and>
    int (slen data) + Overhead_stream (int (slen data)) < int (length c)"
proof -
  have size: "int (slen data) + Overhead_stream (int (slen data)) = int (csize (slen data))"
    using Overhead_stream_nat [OF assms(6)] by simp
  then have fit: "csize (slen data) \<le> scap data" using assms(8) by simp
  obtain f where f: "rnd = Ok f" using coded_chunk2_rnd [OF assms(9)] by blast
  obtain m SS where SS: "n = int m" "chunks m bytes = columns (d + p) SS"
    "list_all2 (coded_stripe d p par) (chunks 2097152 (chunk_cipher P f key index (contents data))) SS"
    using coded_chunk2_pieces [OF assms(1-7) fit, of P f key index] assms(9) f by auto
  have len: "contents data \<noteq> []" "length (contents data) < 2 ^ 32" "length (contents data) = slen data"
    using length_contents [OF assms(5)] assms(6,7) by auto
  let ?c = "chunk_cipher P f key index (contents data)"
  have lc: "length (concat (chunks 2097152 ?c)) = csize (slen data)"
    using chunk_cipher_length [OF len(1)] len(3) concat_chunks [of 2097152 ?c] by simp
  have "d \<le> 1024" using assms(4) by simp
  from joined_stripes_cipher [OF assms(1-3) this len(1,2) SS(3)]
  have "joined_stripes e (chunks (nat n) bytes) = Ok (concat (map (pad_to d) (chunks 2097152 ?c)))" by (simp add: SS(1,2))
  moreover have "csize (slen data) < length (concat (map (pad_to d) (chunks 2097152 ?c)))"
    using padded_stripes_longer [OF rs_lawsD(1) [OF assms(1)], of "chunks 2097152 ?c"] assms(10)
    unfolding lc size int_dvd_int_iff by blast
  ultimately show ?thesis by (simp add: size)
qed

text \<open>A code with three data blocks and no parity.\<close>

definition thirds :: "nat \<Rightarrow> byte list \<Rightarrow> byte list list" where
  "thirds k a = [take k a, take k (drop k a), drop (2 * k) a]"

lemma concat_thirds: "concat (thirds k a) = a"
proof -
  have "take k a @ take k (drop k a) @ drop (2 * k) a = a"
    by (metis append_take_drop_id drop_drop mult_2)
  then show ?thesis by (simp add: thirds_def)
qed

lemma thirds_shards: "length a = 3 * k \<Longrightarrow> shards_of k 3 (thirds k a)"
  by (simp add: thirds_def shards_of_def)

definition split3_encoder :: rs_encoder where
  "split3_encoder = \<lparr>
     rs_Split = (\<lambda>data. Ok (thirds ((length data + 2) div 3) (pad_to 3 data))),
     rs_Encode = (\<lambda>S. Ok (take 3 S)),
     rs_Verify = (\<lambda>S. if [] \<in> set S then Err (ErrNew ''shard sizes do not match'') else Ok True),
     rs_Reconstruct = (\<lambda>S. Err (ErrNew ''too few shards given'')),
     rs_Join = (\<lambda>S n. Ok (concat (take 3 S))),
     rs_ErrShardSize = ErrNew ''shard sizes do not match''\<rparr>"

lemma split3_laws: "rs_laws split3_encoder 3 0 (\<lambda>D. [])"
proof -
  have "rs_split_law split3_encoder 3 0 data" for data
  proof -
    have k: "(length data + 3 - 1) div 3 = (length data + 2) div 3" by simp
    have len: "length (pad_to 3 data) = 3 * ((length data + 2) div 3)"
      using length_pad_to(1) [of 3 data] by (simp add: pad_to_def)
    have "shards_of ((length data + 2) div 3) 3 (thirds ((length data + 2) div 3) (pad_to 3 data))"
      by (rule thirds_shards [OF len])
    moreover have "concat (thirds ((length data + 2) div 3) (pad_to 3 data)) =
        data @ replicate (3 * ((length data + 2) div 3) - length data) 0"
      unfolding concat_thirds pad_to_def k ..
    moreover have "take 3 (thirds k a) = thirds k a" for k a by (simp add: thirds_def)
    ultimately show ?thesis unfolding rs_split_law_def split3_encoder_def Let_def k by auto
  qed
  moreover have "rs_shard_laws split3_encoder 3 0 (\<lambda>D. []) k S" if "0 < k" "shards_of k 3 S" for k S
  proof -
    have "[] \<notin> set S" "length S = 3" using that by (auto simp: shards_of_def)
    moreover have "[] \<in> set (erase miss S)" if "0 < lost miss 3" for miss
    proof -
      have "filter (\<lambda>i. i \<in> set miss) [0..<3] \<noteq> []" using that unfolding lost_def by (metis length_greater_0_conv)
      then obtain i where "i < 3" "i \<in> set miss" unfolding filter_empty_conv by auto
      then have "erase miss S ! i = []" "i < length (erase miss S)"
        using \<open>length S = 3\<close> by (simp_all add: erase_def nth_enumerate_eq)
      then show ?thesis by (metis nth_mem)
    qed
    ultimately show ?thesis by (auto simp: rs_shard_laws_def split3_encoder_def)
  qed
  ultimately show ?thesis by (simp add: rs_laws_def shards_of_def)
qed

theorem stripe_padding_kept_witness:
  "\<exists>bytes n c. coded_chunk2 sample_prims (Ok (\<lambda>_. 0)) \<lparr>DataBlocks = 3, ParityBlocks = 0, ec_enc = split3_encoder\<rparr> [7] 0
      sample_buf = Ok (bytes, n) \<and>
    joined_stripes \<lparr>DataBlocks = 3, ParityBlocks = 0, ec_enc = split3_encoder\<rparr> (chunks (nat n) bytes) = Ok c \<and> 64 < length c"
proof -
  let ?e = "\<lparr>DataBlocks = 3, ParityBlocks = 0, ec_enc = split3_encoder\<rparr>"
  have size: "20 + Overhead_stream 20 = 64" using Overhead_stream_nat [of 20] by (simp add: sample_csize)
  have e: "rs_laws (ec_enc ?e) 3 0 (\<lambda>D. [])" "DataBlocks ?e = int 3" "ParityBlocks ?e = int 0" "3 + 0 \<le> (1024 :: nat)"
    using split3_laws by simp_all
  have buf: "valid_slice sample_buf" "0 < slen sample_buf" "slen sample_buf < 2 ^ 32" "csize (slen sample_buf) \<le> scap sample_buf"
    by (simp_all add: valid_slice_def scap_def sample_csize)
  obtain bytes n where c: "coded_chunk2 sample_prims (Ok (\<lambda>_. 0)) ?e [7] 0 sample_buf = Ok (bytes, int n)"
    using coded_chunk2_pieces [OF e buf, of sample_prims "\<lambda>_. 0" "[7]" 0] by blast
  have "\<exists>c. joined_stripes ?e (chunks (nat (int n)) bytes) = Ok c \<and>
      int (slen sample_buf) + Overhead_stream (int (slen sample_buf)) < int (length c)"
    by (rule stripe_padding_kept [OF e buf(1-3) _ c]) (simp_all add: size scap_def)
  with c size show ?thesis by auto
qed

end
