(* ===== verification/Runs.thy ===== *)
theory Runs
  imports Main
begin

text \<open>
  Programs of several goroutines as transition systems: \<open>step c st\<close> is the next step of the goroutine (or branch of a
  \<open>select\<close>) that \<open>c\<close> names, with the events it makes, or \<open>None\<close> where it has to wait. \<open>runs\<close> are all interleavings,
  \<open>schedule\<close> follows one list of choices and skips those that are not possible.

  The locale \<open>transitions\<close> gives an invariant to all runs; the locale \<open>finishing\<close> adds a weight that every step makes
  smaller and the absence of deadlock, and gives that all runs are bounded and that enough rounds of choices end them.
  Both pipelines of the SDK, of uploads and of downloads, are instances.
\<close>

inductive runs :: "('c \<Rightarrow> 'st \<Rightarrow> ('st \<times> 'e list) option) \<Rightarrow> 'st \<Rightarrow> 'e list \<Rightarrow> nat \<Rightarrow> 'st \<Rightarrow> bool" for step st where
  start: "runs step st [] 0 st"
| step: "runs step st es n st' \<Longrightarrow> step c st' = Some (st'', es') \<Longrightarrow> runs step st (es @ es') (Suc n) st''"

fun schedule :: "('c \<Rightarrow> 'st \<Rightarrow> ('st \<times> 'e list) option) \<Rightarrow> 'c list \<Rightarrow> 'st \<Rightarrow> 'st \<times> 'e list" where
  "schedule step [] st = (st, [])"
| "schedule step (c # cs) st =
     (case step c st of
        None \<Rightarrow> schedule step cs st
      | Some (st', es) \<Rightarrow> (case schedule step cs st' of (st'', es') \<Rightarrow> (st'', es @ es')))"

lemma schedule_step: "step c st = Some (st1, es1) \<Longrightarrow> schedule step (c # cs) st = (st', es) \<Longrightarrow>
    \<exists>es2. schedule step cs st1 = (st', es2) \<and> es = es1 @ es2"
  by (auto split: prod.splits)

lemma schedule_runs: "runs step st0 es0 n st \<Longrightarrow> schedule step cs st = (st', es) \<Longrightarrow> \<exists>m. runs step st0 (es0 @ es) m st'"
proof (induction cs arbitrary: es0 n st es)
  case (Cons c cs)
  show ?case
  proof (cases "step c st")
    case None
    then show ?thesis using Cons by simp
  next
    case (Some p)
    obtain st1 es1 where p: "p = (st1, es1)" by fastforce
    obtain es2 where r: "schedule step cs st1 = (st', es2)" "es = es1 @ es2"
      using schedule_step [OF Some [unfolded p] Cons.prems(2)] by blast
    from Cons.IH [OF runs.step [OF Cons.prems(1) Some [unfolded p]] r(1)] show ?thesis by (simp add: r(2))
  qed
qed auto

lemma schedule_append:
  "schedule step (cs @ cs') st =
     (case schedule step cs st of (st1, es1) \<Rightarrow> case schedule step cs' st1 of (st2, es2) \<Rightarrow> (st2, es1 @ es2))"
  by (induction cs arbitrary: st) (auto split: option.splits prod.splits)

locale transitions =
  fixes step :: "'c \<Rightarrow> 'st \<Rightarrow> ('st \<times> 'e list) option" and init :: "'st \<Rightarrow> bool" and inv :: "'e list \<Rightarrow> 'st \<Rightarrow> bool"
  assumes init_inv: "init st \<Longrightarrow> inv [] st"
    and step_inv: "inv es st \<Longrightarrow> step c st = Some (st', es') \<Longrightarrow> inv (es @ es') st'"
begin

lemma run_inv: "runs step st0 es n st \<Longrightarrow> init st0 \<Longrightarrow> inv es st"
  by (induction rule: runs.induct) (auto intro: init_inv step_inv)

end

locale finishing = transitions +
  fixes weight :: "'st \<Rightarrow> nat" and ended :: "'st \<Rightarrow> bool" and round :: "'c list"
  assumes step_weight: "inv es st \<Longrightarrow> step c st = Some (st', es') \<Longrightarrow> weight st' < weight st"
    and progress: "inv es st \<Longrightarrow> \<not> ended st \<Longrightarrow> \<exists>c \<in> set round. step c st \<noteq> None"
    and stopped: "ended st \<Longrightarrow> step c st = None"
begin

lemma run_weight: "runs step st0 es n st \<Longrightarrow> init st0 \<Longrightarrow> n + weight st \<le> weight st0"
proof (induction rule: runs.induct)
  case (step es n st' c st'' es')
  have "weight st'' < weight st'" using step_weight [OF run_inv] step.hyps step.prems by blast
  then show ?case using step by simp
qed simp

lemma schedule_weight:
  assumes "runs step st0 es0 n st" and "init st0" and "schedule step cs st = (st', es)"
  shows "weight st' \<le> weight st \<and> (weight st' = weight st \<longrightarrow> (\<forall>c \<in> set cs. step c st = None))"
  using assms
proof (induction cs arbitrary: st es es0 n)
  case (Cons c cs)
  show ?case
  proof (cases "step c st")
    case None
    then show ?thesis using Cons by simp
  next
    case (Some p)
    obtain st1 es1 where p: "p = (st1, es1)" by fastforce
    note some = Some [unfolded p]
    obtain es2 where s: "schedule step cs st1 = (st', es2)" using schedule_step [OF some Cons.prems(3)] by blast
    have "weight st1 < weight st" using step_weight [OF run_inv [OF Cons.prems(1,2)] some] .
    then show ?thesis using Cons.IH [OF runs.step [OF Cons.prems(1) some] Cons.prems(2) s] by simp
  qed
qed simp

lemma schedule_ended: "ended st \<Longrightarrow> schedule step cs st = (st, [])"
  by (induction cs) (simp_all add: stopped)

text \<open>As many rounds as the weight says end every run.\<close>

lemma rounds_end:
  assumes "runs step st0 es0 n st" and "init st0" and "weight st \<le> k"
    and "schedule step (concat (replicate k round)) st = (st', es)"
  shows "ended st'"
  using assms
proof (induction k arbitrary: st es es0 n)
  case 0
  have "ended st"
  proof (rule ccontr)
    assume "\<not> ended st"
    then obtain c p where "step c st = Some p" using progress [OF run_inv [OF 0(1,2)]] by blast
    then obtain st1 es1 where "step c st = Some (st1, es1)" by (metis prod.collapse)
    then show False using step_weight [OF run_inv [OF 0(1,2)]] 0(3) by fastforce
  qed
  then show ?case using 0 by simp
next
  case (Suc k)
  show ?case
  proof (cases "ended st")
    case True
    then show ?thesis using schedule_ended [OF True] Suc.prems(4) by (auto split: prod.splits)
  next
    case False
    obtain st1 es1 where r: "schedule step round st = (st1, es1)" by fastforce
    then obtain es2 where r2: "schedule step (concat (replicate k round)) st1 = (st', es2)"
      using Suc.prems(4) by (auto simp: schedule_append split: prod.splits)
    obtain m where run: "runs step st0 (es0 @ es1) m st1" using schedule_runs [OF Suc.prems(1) r] by blast
    have "weight st1 < weight st"
      using schedule_weight [OF Suc.prems(1,2) r] progress [OF run_inv [OF Suc.prems(1,2)] False] by (auto simp: le_less)
    then show ?thesis using Suc.IH [OF run Suc.prems(2) _ r2] Suc.prems(3) by simp
  qed
qed

end

end
