(* ===== verification/UploadPipeline.thy ===== *)
theory UploadPipeline
  imports ChunkPathsV2 Runs
begin

text \<open>
  The three goroutines of an upload (\<open>uploadSingleFile\<close> in \<open>sdk/multi_upload.go\<close>, \<open>Upload2\<close> in
  \<open>sdk/sdk_ipc_upload_download2.go\<close>): the producer reads the input, makes chunks and registers them in
  batches; the waiter waits for the transactions; the uploader uploads the chunks.

  \<open>go_step\<close> is one step of one goroutine, \<open>None\<close> when it is blocked or done. A goroutine that waits in a
  \<open>select\<close> may also stop when the context is done (\<open>Stop\<close>). \<open>pipeline_run\<close> interleaves the steps in any order. The
  channel of batches holds \<open>chunkBuffer\<close> batches, or passes one to a waiting receiver; the channel of
  chunks has no buffer, so a chunk goes straight to the idle uploader.
\<close>

section \<open>State\<close>

datatype producer = ProducerStart | Filling bool int "ChunkData list" | Sending bool int BatchTransaction | ProducerDone

datatype waiter = WaiterStart | Resuming "chunkWithTx list" | Handing "IPCFileChunkUploadV2 list" "chunkWithTx list" |
  Receiving | WaiterDone

datatype uploader = UploaderIdle | Uploading IPCFileChunkUploadV2 | UploaderDone

text \<open>The calls of the goroutines and the sizes they use.\<close>

record 's pipe_env =
  pe_lib :: dag_lib
  pe_create :: "int \<Rightarrow> byte list \<Rightarrow> ('s, ChunkData) act"
  pe_batch :: "ChunkData list \<Rightarrow> ('s, byte list) act"
  pe_wait :: "byte list \<Rightarrow> ('s, unit) act"
  pe_chunk :: "IPCFileChunkUploadV2 \<Rightarrow> ('s counted, unit) act"
  pe_cancel :: "'s \<Rightarrow> 's"
  pe_ctx :: "'s \<Rightarrow> go_error option"
  pe_bufSize :: nat
  pe_batchSize :: nat
  pe_chunkBuffer :: nat
  pe_resuming :: bool

record 's pipeline =
  pl_reader :: byte_reader
  pl_upload :: IPCFileUpload
  pl_world :: 's
  pl_producer :: producer
  pl_queue :: "BatchTransaction list"
  pl_waiter :: waiter
  pl_uploader :: uploader
  pl_result :: "unit outcome"

text \<open>What happened: chunks created with their transaction, transactions waited for, chunks uploaded.\<close>

datatype pipe_event = Chunk_event chunk_event | Waited "byte list"

datatype goroutine = Producer | Waiter | Uploader

datatype choice = Run goroutine | Stop goroutine

section \<open>Steps\<close>

definition finish_goroutine :: "goroutine \<Rightarrow> 's pipeline \<Rightarrow> 's pipeline" where
  "finish_goroutine g st =
     (case g of Producer \<Rightarrow> st\<lparr>pl_producer := ProducerDone\<rparr>
      | Waiter \<Rightarrow> st\<lparr>pl_waiter := WaiterDone\<rparr>
      | Uploader \<Rightarrow> st\<lparr>pl_uploader := UploaderDone\<rparr>)"

text \<open>A goroutine that returns an error: the first error is kept and cancels the context.\<close>

definition fail_goroutine :: "'s pipe_env \<Rightarrow> goroutine \<Rightarrow> go_error \<Rightarrow> 's pipeline \<Rightarrow> 's pipeline" where
  "fail_goroutine E g e st =
     finish_goroutine g
       (case pl_result st of Ok _ \<Rightarrow> st\<lparr>pl_result := Err e, pl_world := pe_cancel E (pl_world st)\<rparr> | _ \<Rightarrow> st)"

definition call ::
  "'s pipe_env \<Rightarrow> goroutine \<Rightarrow> ('s, 'a) act \<Rightarrow> 's pipeline \<Rightarrow>
   ('a \<Rightarrow> 's pipeline \<Rightarrow> 's pipeline \<times> pipe_event list) \<Rightarrow> 's pipeline \<times> pipe_event list" where
  "call E g m st k =
     (case m (pl_world st) of
        (Ok x, w) \<Rightarrow> k x (st\<lparr>pl_world := w\<rparr>)
      | (Err e, w) \<Rightarrow> (fail_goroutine E g e (st\<lparr>pl_world := w\<rparr>), [])
      | (Panic, w) \<Rightarrow> (st\<lparr>pl_world := w, pl_result := Panic\<rparr>, []))"

abbreviation the_state :: "'s pipeline \<Rightarrow> uploadState" where
  "the_state st \<equiv> fu_state (pl_upload st)"

definition set_state :: "uploadState \<Rightarrow> 's pipeline \<Rightarrow> 's pipeline" where
  "set_state us st = st\<lparr>pl_upload := (pl_upload st)\<lparr>fu_state := us\<rparr>\<rparr>"

fun preCreate_all ::
  "dag_lib \<Rightarrow> byte list \<Rightarrow> IPCFileChunkUploadV2 list \<Rightarrow> uploadState \<Rightarrow> unit outcome \<times> uploadState \<times> pipe_event list" where
  "preCreate_all lib tx [] us = (Ok (), us, [])"
| "preCreate_all lib tx (c # cs) us =
     (case preCreateChunk lib c tx us of
        (Ok _, us') \<Rightarrow>
          (case preCreate_all lib tx cs us' of (r, us'', es) \<Rightarrow> (r, us'', Chunk_event (Created c tx) # es))
      | (r, us') \<Rightarrow> (r, us', [Chunk_event (Created c tx)]))"

definition read_chunk :: "'s pipe_env \<Rightarrow> int \<Rightarrow> ChunkData list \<Rightarrow> 's pipeline \<Rightarrow> 's pipeline \<times> pipe_event list" where
  "read_chunk E idx batch st =
     (case readUpTo (pl_reader st) (pe_bufSize E) of
        ((bs, err), reader) \<Rightarrow>
          let st = st\<lparr>pl_reader := reader\<rparr>;
              eof = (case err of Some e \<Rightarrow> err_is e reader_EOF | None \<Rightarrow> False)
          in if err \<noteq> None \<and> \<not> eof then (fail_goroutine E Producer (the err) st, [])
             else if eof \<and> idx = 0 then (fail_goroutine E Producer (ErrNew ''empty file'') st, [])
             else if bs = [] then (st\<lparr>pl_producer := Filling True idx batch\<rparr>, [])
             else call E Producer (pe_create E idx bs) st (\<lambda>c st.
               (st\<lparr>pl_producer := Filling False (idx + 1) (batch @ [c])\<rparr>, [])))"

definition register_batch :: "'s pipe_env \<Rightarrow> bool \<Rightarrow> int \<Rightarrow> ChunkData list \<Rightarrow> 's pipeline \<Rightarrow> 's pipeline \<times> pipe_event list" where
  "register_batch E stop idx batch st =
     call E Producer (pe_batch E batch) st (\<lambda>tx st.
       case preCreate_all (pe_lib E) tx (map cdt_ChunkUpload batch) (the_state st) of
         (Ok _, us, es) \<Rightarrow>
           ((set_state us st)\<lparr>pl_producer := Sending stop idx \<lparr>bt_Chunks = map cdt_ChunkUpload batch, bt_Tx = tx\<rparr>\<rparr>, es)
       | (Err e, us, es) \<Rightarrow> (fail_goroutine E Producer e (set_state us st), es)
       | (Panic, us, es) \<Rightarrow> ((set_state us st)\<lparr>pl_result := Panic\<rparr>, es))"

definition producer_step :: "'s pipe_env \<Rightarrow> 's pipeline \<Rightarrow> ('s pipeline \<times> pipe_event list) option" where
  "producer_step E st =
     (case pl_producer st of
        ProducerStart \<Rightarrow>
          if pe_resuming E
          then (case skipToPosition (pl_reader st) (sint (us_actualFileSize (the_state st))) of
                  (Ok _, reader) \<Rightarrow>
                    Some (st\<lparr>pl_reader := reader, pl_producer := Filling False (us_chunkCount (the_state st)) []\<rparr>, [])
                | (Err e, reader) \<Rightarrow> Some (fail_goroutine E Producer e (st\<lparr>pl_reader := reader\<rparr>), [])
                | (Panic, reader) \<Rightarrow> Some (st\<lparr>pl_reader := reader, pl_result := Panic\<rparr>, []))
          else Some (st\<lparr>pl_producer := Filling False 0 []\<rparr>, [])
      | Filling stop idx batch \<Rightarrow>
          if \<not> stop \<and> length batch < pe_batchSize E then Some (read_chunk E idx batch st)
          else if batch \<noteq> [] then Some (register_batch E stop idx batch st)
          else if stop then Some (st\<lparr>pl_producer := ProducerDone\<rparr>, [])
          else Some (st, [])
      | Sending stop idx bt \<Rightarrow>
          if length (pl_queue st) < pe_chunkBuffer E \<or> pl_waiter st = Receiving \<and> pl_queue st = []
          then Some (st\<lparr>pl_queue := pl_queue st @ [bt],
                       pl_producer := (if stop then ProducerDone else Filling False idx [])\<rparr>, [])
          else None
      | ProducerDone \<Rightarrow> None)"

definition waiter_step :: "'s pipe_env \<Rightarrow> 's pipeline \<Rightarrow> ('s pipeline \<times> pipe_event list) option" where
  "waiter_step E st =
     (case pl_waiter st of
        WaiterStart \<Rightarrow>
          Some (st\<lparr>pl_waiter := (if pe_resuming E then Resuming (listPreCreatedChunks (the_state st)) else Receiving)\<rparr>, [])
      | Resuming [] \<Rightarrow> Some (st\<lparr>pl_waiter := Receiving\<rparr>, [])
      | Resuming (ct # cts) \<Rightarrow>
          Some (call E Waiter (pe_wait E (cwt_tx ct)) st (\<lambda>_ st.
            (st\<lparr>pl_waiter := Handing [cwt_chunk ct] cts\<rparr>, [Waited (cwt_tx ct)])))
      | Handing [] cts \<Rightarrow> Some (st\<lparr>pl_waiter := Resuming cts\<rparr>, [])
      | Handing (c # cs) cts \<Rightarrow>
          if pl_uploader st = UploaderIdle
          then Some (st\<lparr>pl_uploader := Uploading c, pl_waiter := Handing cs cts\<rparr>, [])
          else None
      | Receiving \<Rightarrow>
          (case pl_queue st of
             bt # q \<Rightarrow>
               Some (call E Waiter (pe_wait E (bt_Tx bt)) (st\<lparr>pl_queue := q\<rparr>) (\<lambda>_ st.
                 (st\<lparr>pl_waiter := Handing (bt_Chunks bt) []\<rparr>, [Waited (bt_Tx bt)])))
           | [] \<Rightarrow> if pl_producer st = ProducerDone then Some (st\<lparr>pl_waiter := WaiterDone\<rparr>, []) else None)
      | WaiterDone \<Rightarrow> None)"

definition uploader_step :: "'s pipe_env \<Rightarrow> 's pipeline \<Rightarrow> ('s pipeline \<times> pipe_event list) option" where
  "uploader_step E st =
     (case pl_uploader st of
        UploaderIdle \<Rightarrow> if pl_waiter st = WaiterDone then Some (st\<lparr>pl_uploader := UploaderDone\<rparr>, []) else None
      | Uploading c \<Rightarrow>
          (case pe_chunk E c (fu_counters (pl_upload st), pl_world st) of
             (Ok _, d, w) \<Rightarrow>
               let fu = (pl_upload st)\<lparr>fu_counters := d\<lparr>chunksCounter := chunksCounter d + 1\<rparr>,
                                      fu_state := chunkUploaded c (the_state st)\<rparr>
               in Some (st\<lparr>pl_upload := fu, pl_world := w, pl_uploader := UploaderIdle\<rparr>, [Chunk_event (Uploaded c)])
           | (Err e, d, w) \<Rightarrow>
               Some (fail_goroutine E Uploader e
                 (st\<lparr>pl_upload := (pl_upload st)\<lparr>fu_counters := d\<rparr>, pl_world := w\<rparr>), [])
           | (Panic, d, w) \<Rightarrow> Some (st\<lparr>pl_world := w, pl_result := Panic\<rparr>, []))
      | UploaderDone \<Rightarrow> None)"

text \<open>\<open>case <-chunkCtx.Done()\<close>: the context is done after the first error, or when the caller's is.\<close>

definition in_select :: "goroutine \<Rightarrow> 's pipeline \<Rightarrow> bool" where
  "in_select g st =
     (case g of
        Producer \<Rightarrow> (case pl_producer st of Sending _ _ _ \<Rightarrow> True | _ \<Rightarrow> False)
      | Waiter \<Rightarrow> (case pl_waiter st of Handing (_ # _) _ \<Rightarrow> True | Receiving \<Rightarrow> True | _ \<Rightarrow> False)
      | Uploader \<Rightarrow> pl_uploader st = UploaderIdle)"

definition ctx_done_err :: "'s pipe_env \<Rightarrow> 's pipeline \<Rightarrow> go_error option" where
  "ctx_done_err E st =
     (case pl_result st of Err _ \<Rightarrow> Some (ErrNew ''context canceled'') | _ \<Rightarrow> pe_ctx E (pl_world st))"

definition stop_step :: "'s pipe_env \<Rightarrow> goroutine \<Rightarrow> 's pipeline \<Rightarrow> ('s pipeline \<times> pipe_event list) option" where
  "stop_step E g st =
     (if in_select g st
      then (case ctx_done_err E st of Some e \<Rightarrow> Some (fail_goroutine E g e st, []) | None \<Rightarrow> None)
      else None)"

fun go_step :: "'s pipe_env \<Rightarrow> choice \<Rightarrow> 's pipeline \<Rightarrow> ('s pipeline \<times> pipe_event list) option" where
  "go_step E c st =
     (if pl_result st = Panic then None
      else case c of
        Run Producer \<Rightarrow> producer_step E st
      | Run Waiter \<Rightarrow> waiter_step E st
      | Run Uploader \<Rightarrow> uploader_step E st
      | Stop g \<Rightarrow> stop_step E g st)"

definition all_done :: "'s pipeline \<Rightarrow> bool" where
  "all_done st \<longleftrightarrow> pl_producer st = ProducerDone \<and> pl_waiter st = WaiterDone \<and> pl_uploader st = UploaderDone"

text \<open>All interleavings, and the run of one schedule (choices that are not possible are skipped).\<close>

abbreviation pipeline_run :: "'s pipe_env \<Rightarrow> 's pipeline \<Rightarrow> pipe_event list \<Rightarrow> nat \<Rightarrow> 's pipeline \<Rightarrow> bool" where
  "pipeline_run E \<equiv> runs (go_step E)"

abbreviation run_schedule :: "'s pipe_env \<Rightarrow> choice list \<Rightarrow> 's pipeline \<Rightarrow> 's pipeline \<times> pipe_event list" where
  "run_schedule E \<equiv> schedule (go_step E)"

definition init_pipeline :: "IPCFileUpload \<Rightarrow> byte_reader \<Rightarrow> 's \<Rightarrow> 's pipeline" where
  "init_pipeline fu reader s = \<lparr>pl_reader = reader, pl_upload = fu, pl_world = s, pl_producer = ProducerStart,
     pl_queue = [], pl_waiter = WaiterStart, pl_uploader = UploaderIdle, pl_result = Ok ()\<rparr>"

end
