(* ===== verification/UploadPipelineSpec.thy ===== *)
theory UploadPipelineSpec
  imports UploadPipeline
begin

text \<open>
  What the pipeline of a fresh upload guarantees in every interleaving: no chunk is lost, repeated or
  reordered on its way from the input to the nodes (\<open>flow\<close>), a chunk is uploaded only after its transaction was
  waited for (\<open>registered_first\<close>), the upload state records what happened, the goroutines never wait for each other in a circle,
  and they finish.
\<close>

section \<open>Histories\<close>

fun chunk_event_of :: "pipe_event \<Rightarrow> chunk_event option" where
  "chunk_event_of (Chunk_event e) = Some e"
| "chunk_event_of (Waited tx) = None"

definition history :: "pipe_event list \<Rightarrow> chunk_event list" where
  "history es = List.map_filter chunk_event_of es"

fun uploaded_of :: "pipe_event \<Rightarrow> IPCFileChunkUploadV2 option" where
  "uploaded_of (Chunk_event (Uploaded c)) = Some c"
| "uploaded_of _ = None"

definition uploaded :: "pipe_event list \<Rightarrow> IPCFileChunkUploadV2 list" where
  "uploaded es = List.map_filter uploaded_of es"

definition registered :: "pipe_event list \<Rightarrow> IPCFileChunkUploadV2 list" where
  "registered es = created (history es)"

lemma map_filter_append: "List.map_filter f (xs @ ys) = List.map_filter f xs @ List.map_filter f ys"
  by (induction xs) (auto simp: map_filter_simps split: option.splits)

lemma history_simps [simp]:
  "history [] = []" "history (es @ es') = history es @ history es'"
  "history (Chunk_event e # es) = e # history es" "history (Waited tx # es) = history es"
  by (simp_all add: history_def map_filter_append map_filter_simps)

lemma uploaded_simps [simp]:
  "uploaded [] = []" "uploaded (es @ es') = uploaded es @ uploaded es'"
  "uploaded (Chunk_event (Uploaded c) # es) = c # uploaded es"
  "uploaded (Chunk_event (Created c tx) # es) = uploaded es" "uploaded (Waited tx # es) = uploaded es"
  by (simp_all add: uploaded_def map_filter_append map_filter_simps)

lemma registered_simps [simp]:
  "registered [] = []" "registered (es @ es') = registered es @ registered es'"
  "registered [Chunk_event (Uploaded c)] = []" "registered [Waited tx] = []"
  by (simp_all add: registered_def created_def map_filter_append map_filter_simps)

section \<open>Where the chunks are\<close>

definition in_producer :: "producer \<Rightarrow> IPCFileChunkUploadV2 list" where
  "in_producer p = (case p of Sending stop idx bt \<Rightarrow> bt_Chunks bt | _ \<Rightarrow> [])"

definition in_waiter :: "waiter \<Rightarrow> IPCFileChunkUploadV2 list" where
  "in_waiter w = (case w of Handing cs cts \<Rightarrow> cs | _ \<Rightarrow> [])"

definition in_uploader :: "uploader \<Rightarrow> IPCFileChunkUploadV2 list" where
  "in_uploader u = (case u of Uploading c \<Rightarrow> [c] | _ \<Rightarrow> [])"

lemma in_simps [simp]:
  "in_producer ProducerStart = []" "in_producer (Filling s i b) = []" "in_producer (Sending s i bt) = bt_Chunks bt"
  "in_producer ProducerDone = []"
  "in_waiter WaiterStart = []" "in_waiter (Resuming cts) = []" "in_waiter (Handing cs cts) = cs" "in_waiter Receiving = []"
  "in_waiter WaiterDone = []" "in_uploader UploaderIdle = []" "in_uploader (Uploading c) = [c]" "in_uploader UploaderDone = []"
  by (simp_all add: in_producer_def in_waiter_def in_uploader_def)

definition flow :: "pipe_event list \<Rightarrow> 's pipeline \<Rightarrow> bool" where
  "flow es st \<longleftrightarrow> registered es = uploaded es @ in_uploader (pl_uploader st) @ in_waiter (pl_waiter st) @
     concat (map bt_Chunks (pl_queue st)) @ in_producer (pl_producer st)"

text \<open>The piece of the input that chunk \<open>i\<close> is made of.\<close>

definition piece :: "nat \<Rightarrow> byte list \<Rightarrow> nat \<Rightarrow> byte list" where
  "piece n data i = take n (drop (i * n) data)"

definition made :: "'s pipe_env \<Rightarrow> byte list \<Rightarrow> ChunkData list \<Rightarrow> bool" where
  "made E data cds \<longleftrightarrow> (\<forall>i < length cds. i * pe_bufSize E < length data \<and>
     (\<exists>s s'. pe_create E (int i) (piece (pe_bufSize E) data i) s = (Ok (cds ! i), s')))"

text \<open>A reader that ends with \<open>io.EOF\<close> had data.\<close>

definition nonempty_end :: "'s pipeline \<Rightarrow> ChunkData list \<Rightarrow> bool" where
  "nonempty_end st cds \<longleftrightarrow> (rd_end (pl_reader st) = reader_EOF \<longrightarrow> cds \<noteq> [])"

text \<open>Reading: \<open>cds\<close> are the chunks made so far, the last of them not yet registered.\<close>

definition reading :: "'s pipe_env \<Rightarrow> byte list \<Rightarrow> pipe_event list \<Rightarrow> 's pipeline \<Rightarrow> bool" where
  "reading E data es st \<longleftrightarrow> (\<exists>cds.
     made E data cds \<and> rd_rest (pl_reader st) = drop (length cds * pe_bufSize E) data \<and>
     (case pl_producer st of
        ProducerStart \<Rightarrow> cds = [] \<and> registered es = []
      | Filling stop idx batch \<Rightarrow> idx = int (length cds) \<and> map cdt_ChunkUpload cds = registered es @ map cdt_ChunkUpload batch \<and>
          (stop \<longrightarrow> rd_rest (pl_reader st) = [] \<and> nonempty_end st cds)
      | Sending stop idx bt \<Rightarrow> idx = int (length cds) \<and> map cdt_ChunkUpload cds = registered es \<and>
          (stop \<longrightarrow> rd_rest (pl_reader st) = [] \<and> nonempty_end st cds)
      | ProducerDone \<Rightarrow> map cdt_ChunkUpload cds = registered es \<and> rd_rest (pl_reader st) = [] \<and> nonempty_end st cds))"

definition fresh_waiter :: "waiter \<Rightarrow> bool" where
  "fresh_waiter w = (case w of Resuming cts \<Rightarrow> cts = [] | Handing cs cts \<Rightarrow> cts = [] | _ \<Rightarrow> True)"

definition closed :: "'s pipeline \<Rightarrow> bool" where
  "closed st \<longleftrightarrow> (pl_waiter st = WaiterDone \<longrightarrow> pl_producer st = ProducerDone \<and> pl_queue st = []) \<and>
     (pl_uploader st = UploaderDone \<longrightarrow> pl_waiter st = WaiterDone)"

definition pipe_inv :: "'s pipe_env \<Rightarrow> IPCFileUpload \<Rightarrow> byte list \<Rightarrow> pipe_event list \<Rightarrow> 's pipeline \<Rightarrow> bool" where
  "pipe_inv E fu data es st \<longleftrightarrow> flow es st \<and> reading E data es st \<and> fresh_waiter (pl_waiter st) \<and> closed st \<and>
     the_state st = fold (apply_event (pe_lib E)) (history es) (fu_state fu)"

lemma fail_result [simp]: "pl_result (fail_goroutine E g e st) \<noteq> Ok ()"
  by (auto simp: fail_goroutine_def finish_goroutine_def split: goroutine.splits outcome.splits)

lemma call_Ok:
  assumes "call E g m st k = (st', es)" and "pl_result st' = Ok ()"
  shows "\<exists>x w. m (pl_world st) = (Ok x, w) \<and> k x (st\<lparr>pl_world := w\<rparr>) = (st', es)"
proof (cases "m (pl_world st)")
  case (Pair r w)
  show ?thesis
  proof (cases r)
    case (Err e)
    then have "pl_result st' \<noteq> Ok ()" using assms(1) Pair fail_result by (auto simp: call_def)
    then show ?thesis using assms(2) by blast
  qed (use assms Pair in \<open>auto simp: call_def\<close>)
qed

lemma set_state_simps [simp]:
  "pl_reader (set_state us st) = pl_reader st" "pl_world (set_state us st) = pl_world st"
  "pl_producer (set_state us st) = pl_producer st" "pl_queue (set_state us st) = pl_queue st"
  "pl_waiter (set_state us st) = pl_waiter st" "pl_uploader (set_state us st) = pl_uploader st"
  "pl_result (set_state us st) = pl_result st" "fu_state (pl_upload (set_state us st)) = us"
  by (simp_all add: set_state_def)

lemma preCreate_all_Ok:
  assumes "\<forall>ls l. AddRawLink lib ls l = Ok ()"
  shows "preCreate_all lib tx cs us =
    (Ok (), fold (apply_event lib) (map (\<lambda>c. Created c tx) cs) us, map (\<lambda>c. Chunk_event (Created c tx)) cs)"
proof (induction cs arbitrary: us)
  case (Cons c cs)
  have "fst (preCreateChunk lib c tx us) = Ok ()"
    using assms by (simp add: preCreateChunk_def AddLink_def Let_def split: prod.splits)
  then obtain us' where "preCreateChunk lib c tx us = (Ok (), us')" by (cases "preCreateChunk lib c tx us") auto
  then show ?case by (simp add: Cons.IH)
qed simp

lemma created_events [simp]:
  "history (map (\<lambda>c. Chunk_event (Created c tx)) cs) = map (\<lambda>c. Created c tx) cs"
  "registered (map (\<lambda>c. Chunk_event (Created c tx)) cs) = cs"
  "uploaded (map (\<lambda>c. Chunk_event (Created c tx)) cs) = []"
proof -
  show "history (map (\<lambda>c. Chunk_event (Created c tx)) cs) = map (\<lambda>c. Created c tx) cs" by (induction cs) simp_all
  moreover have "created (map (\<lambda>c. Created c tx) cs) = cs" by (induction cs) (simp_all add: created_def map_filter_simps)
  ultimately show "registered (map (\<lambda>c. Chunk_event (Created c tx)) cs) = cs" by (simp add: registered_def)
  show "uploaded (map (\<lambda>c. Chunk_event (Created c tx)) cs) = []" by (induction cs) simp_all
qed

section \<open>Steps of the producer\<close>

lemma readUpTo_result:
  assumes "readUpTo r n = ((bs, err), r')" and "0 < n"
  shows "bs = take n (rd_rest r)" and "rd_rest r' = drop n (rd_rest r)" and "rd_end r' = rd_end r"
    and "bs = [] \<Longrightarrow> rd_end r = reader_EOF \<Longrightarrow> err = Some reader_EOF"
  using assms
  by (auto simp: readUpTo_def reader_ReadFull_def Let_def rd_rest_def ErrUnexpectedEOF_def reader_EOF_def min_def add.commute
      split: if_splits)

lemma read_chunk_Ok:
  assumes "read_chunk E idx batch st = (st', es)" and "pl_result st' = Ok ()" and "0 < pe_bufSize E"
  shows "es = [] \<and> rd_end (pl_reader st') = rd_end (pl_reader st) \<and>
    (rd_rest (pl_reader st) = [] \<and> (rd_end (pl_reader st) = reader_EOF \<longrightarrow> idx \<noteq> 0) \<and> rd_rest (pl_reader st') = [] \<and>
       st' = st\<lparr>pl_reader := pl_reader st', pl_producer := Filling True idx batch\<rparr> \<or>
     rd_rest (pl_reader st) \<noteq> [] \<and> rd_rest (pl_reader st') = drop (pe_bufSize E) (rd_rest (pl_reader st)) \<and>
       (\<exists>c s s'. pe_create E idx (take (pe_bufSize E) (rd_rest (pl_reader st))) s = (Ok c, s') \<and>
          st' = st\<lparr>pl_reader := pl_reader st', pl_world := s', pl_producer := Filling False (idx + 1) (batch @ [c])\<rparr>))"
proof -
  obtain bs err r' where r: "readUpTo (pl_reader st) (pe_bufSize E) = ((bs, err), r')" by (metis prod.collapse)
  note rr = readUpTo_result [OF r assms(3)]
  let ?st = "st\<lparr>pl_reader := r'\<rparr>"
  consider (err) "\<exists>e. (st', es) = (fail_goroutine E Producer e ?st, [])"
    | (stop) "bs = []" "rd_end (pl_reader st) = reader_EOF \<longrightarrow> idx \<noteq> 0"
        "(st', es) = (?st\<lparr>pl_producer := Filling True idx batch\<rparr>, [])"
    | (chunk) "bs \<noteq> []" "(st', es) = call E Producer (pe_create E idx bs) ?st (\<lambda>c st.
               (st\<lparr>pl_producer := Filling False (idx + 1) (batch @ [c])\<rparr>, []))"
    using assms(1) rr(4) by (auto simp: read_chunk_def r Let_def split: if_splits)
  then show ?thesis
  proof cases
    case err
    then show ?thesis using assms(2) by auto
  next
    case stop
    then show ?thesis using rr assms(3) by auto
  next
    case chunk
    from call_Ok [OF chunk(2) [symmetric] assms(2)] obtain c w where
      "pe_create E idx bs (pl_world st) = (Ok c, w)"
      "st' = st\<lparr>pl_reader := r', pl_world := w, pl_producer := Filling False (idx + 1) (batch @ [c])\<rparr>" "es = []"
      by auto
    moreover from this have "st' = st\<lparr>pl_reader := pl_reader st', pl_world := w, pl_producer := Filling False (idx + 1) (batch @ [c])\<rparr>"
      by simp
    moreover have "rd_rest (pl_reader st) \<noteq> []" using rr(1) chunk(1) by auto
    ultimately show ?thesis using rr(1-3) by auto
  qed
qed

lemma register_batch_Ok:
  assumes "register_batch E stop idx batch st = (st', es)" and "pl_result st' = Ok ()"
    and "\<forall>ls l. AddRawLink (pe_lib E) ls l = Ok ()"
  shows "\<exists>w tx. let cs = map cdt_ChunkUpload batch in es = map (\<lambda>c. Chunk_event (Created c tx)) cs \<and>
    st' = (set_state (fold (apply_event (pe_lib E)) (map (\<lambda>c. Created c tx) cs) (the_state st)) (st\<lparr>pl_world := w\<rparr>))
      \<lparr>pl_producer := Sending stop idx \<lparr>bt_Chunks = cs, bt_Tx = tx\<rparr>\<rparr>"
proof -
  from call_Ok [OF assms(1) [unfolded register_batch_def] assms(2)]
  show ?thesis by (auto simp: preCreate_all_Ok [OF assms(3)] Let_def)
qed

lemma made_snoc:
  assumes "made E data cds" and "length cds * pe_bufSize E < length data"
    and "pe_create E (int (length cds)) (take (pe_bufSize E) (drop (length cds * pe_bufSize E) data)) s = (Ok c, s')"
  shows "made E data (cds @ [c])"
  using assms by (auto simp: made_def nth_append piece_def less_Suc_eq)

lemma producer_inv:
  assumes inv: "pipe_inv E fu data es st" and step: "producer_step E st = Some (st', es')" and ok: "pl_result st' = Ok ()"
    and E: "\<forall>ls l. AddRawLink (pe_lib E) ls l = Ok ()" "\<not> pe_resuming E" "0 < pe_bufSize E"
  shows "pipe_inv E fu data (es @ es') st'"
proof -
  let ?n = "pe_bufSize E"
  obtain cds where cds: "made E data cds" "rd_rest (pl_reader st) = drop (length cds * ?n) data"
    and rd: "case pl_producer st of
        ProducerStart \<Rightarrow> cds = [] \<and> registered es = []
      | Filling stop idx batch \<Rightarrow> idx = int (length cds) \<and> map cdt_ChunkUpload cds = registered es @ map cdt_ChunkUpload batch \<and>
          (stop \<longrightarrow> rd_rest (pl_reader st) = [] \<and> nonempty_end st cds)
      | Sending stop idx bt \<Rightarrow> idx = int (length cds) \<and> map cdt_ChunkUpload cds = registered es \<and>
          (stop \<longrightarrow> rd_rest (pl_reader st) = [] \<and> nonempty_end st cds)
      | ProducerDone \<Rightarrow> map cdt_ChunkUpload cds = registered es \<and> rd_rest (pl_reader st) = [] \<and> nonempty_end st cds"
    using inv unfolding pipe_inv_def reading_def by blast
  have fl: "flow es st" and fw: "fresh_waiter (pl_waiter st)" and cl: "closed st"
    and us: "the_state st = fold (apply_event (pe_lib E)) (history es) (fu_state fu)"
    using inv by (simp_all add: pipe_inv_def)
  have open_ch: "pl_waiter st \<noteq> WaiterDone \<and> pl_uploader st \<noteq> UploaderDone" if "pl_producer st \<noteq> ProducerDone"
    using cl that by (auto simp: closed_def)
  show ?thesis
  proof (cases "pl_producer st")
    case ProducerStart
    then have st': "st' = st\<lparr>pl_producer := Filling False 0 []\<rparr>" "es' = []"
      using step E(2) by (simp_all add: producer_step_def)
    have "reading E data es st'" using cds rd ProducerStart unfolding reading_def st' by (intro exI [of _ cds]) simp
    then show ?thesis using fl fw cl us ProducerStart open_ch by (simp add: pipe_inv_def st' flow_def closed_def)
  next
    case (Filling stop idx batch)
    note rd = rd [unfolded Filling, simplified]
    consider (read) "(st', es') = read_chunk E idx batch st" "\<not> stop"
      | (reg) "(st', es') = register_batch E stop idx batch st"
      | (finish) "stop" "batch = []" "st' = st\<lparr>pl_producer := ProducerDone\<rparr>" "es' = []"
      | (spin) "st' = st" "es' = []"
      using step Filling by (auto simp: producer_step_def split: if_splits)
    then show ?thesis
    proof cases
      case read
      note rc = read_chunk_Ok [OF read(1) [symmetric] ok E(3)]
      then consider (stop) "rd_rest (pl_reader st) = []" "rd_end (pl_reader st) = reader_EOF \<longrightarrow> idx \<noteq> 0"
          "rd_rest (pl_reader st') = []" "st' = st\<lparr>pl_reader := pl_reader st', pl_producer := Filling True idx batch\<rparr>"
        | (chunk) c s s' where "rd_rest (pl_reader st) \<noteq> []" "rd_rest (pl_reader st') = drop ?n (rd_rest (pl_reader st))"
          "pe_create E idx (take ?n (rd_rest (pl_reader st))) s = (Ok c, s')"
          "st' = st\<lparr>pl_reader := pl_reader st', pl_world := s', pl_producer := Filling False (idx + 1) (batch @ [c])\<rparr>"
        by blast
      then show ?thesis
      proof cases
        case stop
        have p: "pl_producer st' = Filling True idx batch" by (subst stop(4)) simp
        have "reading E data es st'" unfolding reading_def p
          using cds rd stop rc by (intro exI [of _ cds]) (auto simp: nonempty_end_def)
        moreover have "flow es st'" "closed st'" "fresh_waiter (pl_waiter st')" "the_state st' = the_state st"
          using fl open_ch fw Filling by (subst stop(4), simp add: flow_def closed_def)+
        ultimately show ?thesis using us rc by (simp add: pipe_inv_def)
      next
        case chunk
        have p: "pl_producer st' = Filling False (idx + 1) (batch @ [c])" by (subst chunk(4)) simp
        have more: "length cds * ?n < length data" using chunk(1) cds(2) by simp
        have "made E data (cds @ [c])" using made_snoc [OF cds(1) more] chunk(3) rd cds(2) by simp
        moreover have "rd_rest (pl_reader st') = drop (length (cds @ [c]) * ?n) data"
          using chunk(2) cds(2) by (simp add: add.commute)
        ultimately have "reading E data es st'" unfolding reading_def p
          using rd by (intro exI [of _ "cds @ [c]"]) simp
        moreover have "flow es st'" "closed st'" "fresh_waiter (pl_waiter st')" "the_state st' = the_state st"
          using fl open_ch fw Filling by (subst chunk(4), simp add: flow_def closed_def)+
        ultimately show ?thesis using us rc by (simp add: pipe_inv_def)
      qed
    next
      case reg
      from register_batch_Ok [OF reg [symmetric] ok E(1)] obtain w tx where
        e: "es' = map (\<lambda>c. Chunk_event (Created c tx)) (map cdt_ChunkUpload batch)" and
        st': "st' = (set_state (fold (apply_event (pe_lib E)) (map (\<lambda>c. Created c tx) (map cdt_ChunkUpload batch)) (the_state st))
          (st\<lparr>pl_world := w\<rparr>))\<lparr>pl_producer := Sending stop idx \<lparr>bt_Chunks = map cdt_ChunkUpload batch, bt_Tx = tx\<rparr>\<rparr>"
        by (auto simp only: Let_def)
      have "reading E data (es @ es') st'" unfolding reading_def st' e
        using cds rd by (intro exI [of _ cds]) (simp add: nonempty_end_def del: map_map)
      moreover have "flow (es @ es') st'" using fl Filling unfolding flow_def st' e by (simp del: map_map)
      moreover have "closed st'" "fresh_waiter (pl_waiter st')" using open_ch fw Filling by (simp_all add: st' closed_def)
      moreover have "the_state st' = fold (apply_event (pe_lib E)) (history (es @ es')) (fu_state fu)"
        using us by (simp add: st' e del: map_map)
      ultimately show ?thesis by (simp only: pipe_inv_def)
    next
      case finish
      have "reading E data es st'" unfolding reading_def using cds rd finish by (intro exI [of _ cds]) (simp add: nonempty_end_def)
      then show ?thesis using fl fw cl us Filling open_ch by (simp add: pipe_inv_def finish flow_def closed_def)
    next
      case spin
      then show ?thesis using inv by simp
    qed
  next
    case (Sending stop idx bt)
    then have st': "st' = st\<lparr>pl_queue := pl_queue st @ [bt], pl_producer := (if stop then ProducerDone else Filling False idx [])\<rparr>"
      "es' = []"
      using step by (auto simp: producer_step_def split: if_splits)
    have "reading E data es st'" unfolding reading_def st'
      using cds rd Sending by (intro exI [of _ cds]) (simp add: nonempty_end_def)
    then show ?thesis using fl fw cl us Sending open_ch by (simp add: pipe_inv_def st' flow_def closed_def)
  next
    case ProducerDone
    then show ?thesis using step by (simp add: producer_step_def)
  qed
qed

section \<open>Steps of waiter and uploader\<close>

lemma reading_cong:
  "reading E data es st \<Longrightarrow> pl_producer st' = pl_producer st \<Longrightarrow> pl_reader st' = pl_reader st \<Longrightarrow>
   registered es' = registered es \<Longrightarrow> reading E data es' st'"
  by (cases "pl_producer st") (simp_all add: reading_def nonempty_end_def)

lemma waiter_inv:
  assumes inv: "pipe_inv E fu data es st" and step: "waiter_step E st = Some (st', es')" and ok: "pl_result st' = Ok ()"
    and E: "\<not> pe_resuming E"
  shows "pipe_inv E fu data (es @ es') st'"
proof -
  have fl: "flow es st" and rd: "reading E data es st" and fw: "fresh_waiter (pl_waiter st)" and cl: "closed st"
    and us: "the_state st = fold (apply_event (pe_lib E)) (history es) (fu_state fu)"
    using inv by (simp_all add: pipe_inv_def)
  have open_up: "pl_uploader st \<noteq> UploaderDone" if "pl_waiter st \<noteq> WaiterDone"
    using cl that by (auto simp: closed_def)
  have keep: "pipe_inv E fu data (es @ es') st'"
    if "st' = st\<lparr>pl_waiter := w\<rparr>" "in_waiter w = in_waiter (pl_waiter st)" "es' = []" "fresh_waiter w" "w \<noteq> WaiterDone"
      "pl_waiter st \<noteq> WaiterDone" for w
    using that fl reading_cong [OF rd] us open_up by (simp add: pipe_inv_def flow_def closed_def)
  show ?thesis
  proof (cases "pl_waiter st")
    case WaiterStart
    then show ?thesis using step E by (intro keep [of Receiving]) (simp_all add: waiter_step_def fresh_waiter_def)
  next
    case (Resuming cts)
    then have "cts = []" using fw by (simp add: fresh_waiter_def)
    then show ?thesis using step Resuming by (intro keep [of Receiving]) (simp_all add: waiter_step_def fresh_waiter_def)
  next
    case (Handing cs cts)
    then have cts: "cts = []" using fw by (simp add: fresh_waiter_def)
    show ?thesis
    proof (cases cs)
      case Nil
      then show ?thesis using step Handing cts
        by (intro keep [of "Resuming []"]) (simp_all add: waiter_step_def fresh_waiter_def)
    next
      case (Cons c cs')
      then have st': "st' = st\<lparr>pl_uploader := Uploading c, pl_waiter := Handing cs' []\<rparr>" "es' = []" "pl_uploader st = UploaderIdle"
        using step Handing cts by (auto simp: waiter_step_def split: if_splits)
      then show ?thesis using fl reading_cong [OF rd] us Handing Cons by (simp add: pipe_inv_def flow_def closed_def fresh_waiter_def)
    qed
  next
    case Receiving
    show ?thesis
    proof (cases "pl_queue st")
      case Nil
      then have st': "st' = st\<lparr>pl_waiter := WaiterDone\<rparr>" "es' = []" "pl_producer st = ProducerDone"
        using step Receiving by (auto simp: waiter_step_def split: if_splits)
      then show ?thesis using fl reading_cong [OF rd] us Receiving Nil cl open_up
        by (simp add: pipe_inv_def flow_def closed_def fresh_waiter_def)
    next
      case (Cons bt q)
      then have "call E Waiter (pe_wait E (bt_Tx bt)) (st\<lparr>pl_queue := q\<rparr>) (\<lambda>_ st.
           (st\<lparr>pl_waiter := Handing (bt_Chunks bt) []\<rparr>, [Waited (bt_Tx bt)])) = (st', es')"
        using step Receiving by (simp add: waiter_step_def)
      from call_Ok [OF this ok] obtain w where
        "st' = st\<lparr>pl_queue := q, pl_world := w, pl_waiter := Handing (bt_Chunks bt) []\<rparr>" "es' = [Waited (bt_Tx bt)]" by auto
      then show ?thesis using fl reading_cong [OF rd] us Receiving Cons open_up
        by (simp add: pipe_inv_def flow_def closed_def fresh_waiter_def)
    qed
  next
    case WaiterDone
    then show ?thesis using step by (simp add: waiter_step_def)
  qed
qed

lemma uploader_inv:
  assumes inv: "pipe_inv E fu data es st" and step: "uploader_step E st = Some (st', es')" and ok: "pl_result st' = Ok ()"
  shows "pipe_inv E fu data (es @ es') st'"
proof -
  have fl: "flow es st" and rd: "reading E data es st" and fw: "fresh_waiter (pl_waiter st)" and cl: "closed st"
    and us: "the_state st = fold (apply_event (pe_lib E)) (history es) (fu_state fu)"
    using inv by (simp_all add: pipe_inv_def)
  show ?thesis
  proof (cases "pl_uploader st")
    case UploaderIdle
    then have "st' = st\<lparr>pl_uploader := UploaderDone\<rparr>" "es' = []" "pl_waiter st = WaiterDone"
      using step by (auto simp: uploader_step_def split: if_splits)
    then show ?thesis using fl reading_cong [OF rd] fw cl us UploaderIdle by (simp add: pipe_inv_def flow_def closed_def)
  next
    case (Uploading c)
    obtain r d w where p: "pe_chunk E c (fu_counters (pl_upload st), pl_world st) = (r, d, w)" by (metis prod.collapse)
    have r: "r = Ok ()"
    proof (cases r)
      case (Err e)
      then show ?thesis using step Uploading p ok by (auto simp: uploader_step_def)
    qed (use step Uploading p ok in \<open>auto simp: uploader_step_def\<close>)
    have st': "es' = [Chunk_event (Uploaded c)]" "the_state st' = chunkUploaded c (the_state st)" "pl_uploader st' = UploaderIdle"
      "pl_producer st' = pl_producer st" "pl_reader st' = pl_reader st" "pl_waiter st' = pl_waiter st" "pl_queue st' = pl_queue st"
      using step Uploading p r by (auto simp: uploader_step_def Let_def)
    then show ?thesis using fl reading_cong [OF rd] fw cl us Uploading by (simp add: pipe_inv_def flow_def closed_def)
  next
    case UploaderDone
    then show ?thesis using step by (simp add: uploader_step_def)
  qed
qed

section \<open>All interleavings\<close>

lemma result_kept: "go_step E c st = Some (st', es) \<Longrightarrow> pl_result st' = Ok () \<Longrightarrow> pl_result st = Ok ()"
proof -
  assume step: "go_step E c st = Some (st', es)" and ok: "pl_result st' = Ok ()"
  have f: "pl_result (fail_goroutine E g e s) = (case pl_result s of Ok _ \<Rightarrow> Err e | r \<Rightarrow> r)" for g e s
    by (auto simp: fail_goroutine_def finish_goroutine_def split: goroutine.splits outcome.splits)
  show ?thesis
    using step ok
    by (auto simp: f producer_step_def waiter_step_def uploader_step_def stop_step_def read_chunk_def register_batch_def call_def Let_def
        split: if_splits choice.splits goroutine.splits producer.splits waiter.splits uploader.splits list.splits prod.splits
          outcome.splits option.splits)
qed

lemma init_inv: "pipe_inv E fu (rd_rest reader) [] (init_pipeline fu reader s)"
  by (simp add: pipe_inv_def init_pipeline_def flow_def reading_def made_def fresh_waiter_def closed_def)

lemma go_step_inv:
  assumes inv: "pipe_inv E fu data es st" and step: "go_step E c st = Some (st', es')" and ok: "pl_result st' = Ok ()"
    and E: "\<forall>ls l. AddRawLink (pe_lib E) ls l = Ok ()" "\<not> pe_resuming E" "0 < pe_bufSize E"
  shows "pipe_inv E fu data (es @ es') st'"
proof (cases c)
  case (Run g)
  then show ?thesis
    using producer_inv [OF inv _ ok E] waiter_inv [OF inv _ ok E(2)] uploader_inv [OF inv _ ok] step
    by (cases g) (auto split: if_splits)
next
  case (Stop g)
  then show ?thesis using step ok fail_result by (auto simp: stop_step_def split: if_splits option.splits)
qed

text \<open>While there is no error, the invariant holds on every run of a fresh upload.\<close>

definition fresh_env :: "'s pipe_env \<Rightarrow> bool" where
  "fresh_env E \<longleftrightarrow> (\<forall>ls l. AddRawLink (pe_lib E) ls l = Ok ()) \<and> \<not> pe_resuming E \<and> 0 < pe_bufSize E"

definition starts :: "IPCFileUpload \<Rightarrow> byte list \<Rightarrow> 's pipeline \<Rightarrow> bool" where
  "starts fu data st \<longleftrightarrow> (\<exists>reader s. st = init_pipeline fu reader s \<and> rd_rest reader = data)"

interpretation upload_inv: transitions "go_step E" "\<lambda>st. fresh_env E \<and> starts fu data st"
  "\<lambda>es st. fresh_env E \<and> (pl_result st = Ok () \<longrightarrow> pipe_inv E fu data es st)" for E fu data
proof
  fix st :: "'a pipeline"
  assume "fresh_env E \<and> starts fu data st"
  then show "fresh_env E \<and> (pl_result st = Ok () \<longrightarrow> pipe_inv E fu data [] st)" using init_inv by (auto simp: starts_def)
next
  fix es c es' and st st' :: "'a pipeline"
  assume inv: "fresh_env E \<and> (pl_result st = Ok () \<longrightarrow> pipe_inv E fu data es st)" and step: "go_step E c st = Some (st', es')"
  then have E: "\<forall>ls l. AddRawLink (pe_lib E) ls l = Ok ()" "\<not> pe_resuming E" "0 < pe_bufSize E" by (simp_all add: fresh_env_def)
  have "pipe_inv E fu data (es @ es') st'" if ok: "pl_result st' = Ok ()"
    using go_step_inv [OF _ step ok E] inv result_kept [OF step ok] by blast
  with inv show "fresh_env E \<and> (pl_result st' = Ok () \<longrightarrow> pipe_inv E fu data (es @ es') st')" by blast
qed

lemma run_pipeline_inv:
  assumes "pipeline_run E (init_pipeline fu reader s) es n st" and "pl_result st = Ok ()"
    and "\<forall>ls l. AddRawLink (pe_lib E) ls l = Ok ()" "\<not> pe_resuming E" "0 < pe_bufSize E"
  shows "pipe_inv E fu (rd_rest reader) es st"
  using upload_inv.run_inv [OF assms(1), of fu "rd_rest reader"] assms(2-5) by (auto simp: fresh_env_def starts_def)

section \<open>The order of registration and upload\<close>

definition confirmed :: "pipe_event list \<Rightarrow> IPCFileChunkUploadV2 \<Rightarrow> bool" where
  "confirmed es c \<longleftrightarrow> (\<exists>tx. Chunk_event (Created c tx) \<in> set es \<and> Waited tx \<in> set es)"

definition registered_first :: "pipe_event list \<Rightarrow> bool" where
  "registered_first es \<longleftrightarrow> (\<forall>i < length es. \<forall>c. es ! i = Chunk_event (Uploaded c) \<longrightarrow> confirmed (take i es) c)"

definition batch_created :: "pipe_event list \<Rightarrow> BatchTransaction \<Rightarrow> bool" where
  "batch_created es bt \<longleftrightarrow> bt_Chunks bt \<noteq> [] \<and> (\<forall>c \<in> set (bt_Chunks bt). Chunk_event (Created c (bt_Tx bt)) \<in> set es)"

definition order_inv :: "pipe_event list \<Rightarrow> 's pipeline \<Rightarrow> bool" where
  "order_inv es st \<longleftrightarrow> registered_first es \<and> fresh_waiter (pl_waiter st) \<and> (\<forall>bt \<in> set (pl_queue st). batch_created es bt) \<and>
     (\<forall>stop idx bt. pl_producer st = Sending stop idx bt \<longrightarrow> batch_created es bt) \<and>
     (\<forall>c \<in> set (in_waiter (pl_waiter st)) \<union> set (in_uploader (pl_uploader st)). confirmed es c)"

lemma confirmed_append [intro]: "confirmed es c \<Longrightarrow> confirmed (es @ es') c"
  by (auto simp: confirmed_def)

lemma batch_created_append [intro]: "batch_created es bt \<Longrightarrow> batch_created (es @ es') bt"
  by (auto simp: batch_created_def)

lemma registered_first_snoc:
  "registered_first (es @ [e]) \<longleftrightarrow> registered_first es \<and> (\<forall>c. e = Chunk_event (Uploaded c) \<longrightarrow> confirmed es c)"
  unfolding registered_first_def by (auto simp: nth_append less_Suc_eq)

lemma registered_first_append:
  "registered_first es \<Longrightarrow> uploaded es' = [] \<Longrightarrow> registered_first (es @ es')"
proof (induction es' rule: rev_induct)
  case (snoc e es')
  have "e \<noteq> Chunk_event (Uploaded c)" for c using snoc.prems(2) by auto
  moreover have "uploaded es' = []" using snoc.prems(2) by simp
  ultimately show ?case using snoc registered_first_snoc [of "es @ es'" e] by simp
qed simp

lemma order_inv_update:
  assumes "order_inv es st" and "uploaded es' = []" and "fresh_waiter (pl_waiter st')"
    and "\<And>bt. bt \<in> set (pl_queue st') \<Longrightarrow> bt \<in> set (pl_queue st) \<or> batch_created (es @ es') bt"
    and "\<And>stop idx bt. pl_producer st' = Sending stop idx bt \<Longrightarrow> pl_producer st = Sending stop idx bt \<or> batch_created (es @ es') bt"
    and "\<And>c. c \<in> set (in_waiter (pl_waiter st')) \<union> set (in_uploader (pl_uploader st')) \<Longrightarrow>
      c \<in> set (in_waiter (pl_waiter st)) \<union> set (in_uploader (pl_uploader st)) \<or> confirmed (es @ es') c"
  shows "order_inv (es @ es') st'"
  using assms registered_first_append [OF _ assms(2), of es] unfolding order_inv_def by blast

lemma finish_order: "order_inv es st \<Longrightarrow> order_inv es (finish_goroutine g st)"
  by (cases g) (auto simp: order_inv_def finish_goroutine_def fresh_waiter_def)

lemma fail_order: "order_inv es st \<Longrightarrow> order_inv es (fail_goroutine E g e st)"
  unfolding fail_goroutine_def by (rule finish_order) (simp add: order_inv_def split: outcome.split)

lemma fail_order_world [intro]: "order_inv es st \<Longrightarrow> order_inv es (fail_goroutine E g e (st\<lparr>pl_world := w\<rparr>))"
  by (rule fail_order) (simp add: order_inv_def)

lemma call_cases:
  assumes "call E g m st k = (st', es)"
  obtains x w where "k x (st\<lparr>pl_world := w\<rparr>) = (st', es)"
    | e w where "st' = fail_goroutine E g e (st\<lparr>pl_world := w\<rparr>)" "es = []"
    | w where "st' = st\<lparr>pl_world := w, pl_result := Panic\<rparr>" "es = []"
  using assms by (auto simp: call_def split: prod.splits outcome.splits)

lemma order_world [simp]:
  "order_inv es (st\<lparr>pl_world := w\<rparr>) = order_inv es st" "order_inv es (st\<lparr>pl_result := r\<rparr>) = order_inv es st"
  "order_inv es (st\<lparr>pl_reader := rd\<rparr>) = order_inv es st" "order_inv es (set_state us st) = order_inv es st"
  by (simp_all add: order_inv_def)

lemma preCreate_all_events:
  "preCreate_all lib tx cs us = (r, us', es) \<Longrightarrow>
   uploaded es = [] \<and> (r = Ok () \<longrightarrow> (\<forall>c \<in> set cs. Chunk_event (Created c tx) \<in> set es))"
proof (induction cs arbitrary: us es)
  case (Cons c cs)
  then show ?case by (fastforce split: prod.splits outcome.splits)
qed simp

lemma producer_order:
  assumes inv: "order_inv es st" and step: "producer_step E st = Some (st', es')" and E: "\<not> pe_resuming E"
  shows "order_inv (es @ es') st'"
proof (cases "pl_producer st")
  case ProducerStart
  then show ?thesis using step E inv by (auto simp: producer_step_def order_inv_def)
next
  case (Filling stop idx batch)
  consider (read) "(st', es') = read_chunk E idx batch st"
    | (reg) "(st', es') = register_batch E stop idx batch st" "batch \<noteq> []"
    | (finish) "st' = st\<lparr>pl_producer := ProducerDone\<rparr>" "es' = []"
    | (spin) "st' = st" "es' = []"
    using step Filling by (auto simp: producer_step_def split: if_splits)
  then show ?thesis
  proof cases
    case read
    obtain bs err r' where r: "readUpTo (pl_reader st) (pe_bufSize E) = ((bs, err), r')" by (metis prod.collapse)
    let ?st = "st\<lparr>pl_reader := r'\<rparr>"
    have filling: "order_inv es (s\<lparr>pl_producer := Filling x y z\<rparr>)" if "order_inv es s" for s :: "'a pipeline" and x y z
      using that by (auto simp: order_inv_def)
    consider (err) e where "st' = fail_goroutine E Producer e ?st" "es' = []"
      | (stop) "st' = ?st\<lparr>pl_producer := Filling True idx batch\<rparr>" "es' = []"
      | (chunk) "call E Producer (pe_create E idx bs) ?st (\<lambda>c st.
               (st\<lparr>pl_producer := Filling False (idx + 1) (batch @ [c])\<rparr>, [])) = (st', es')"
      using read by (auto simp: read_chunk_def r Let_def split: if_splits)
    then show ?thesis
    proof cases
      case chunk
      then show ?thesis
        by (cases rule: call_cases) (use inv filling in \<open>auto intro: fail_order_world\<close>)
    qed (use inv fail_order [of es "st\<lparr>pl_reader := r'\<rparr>"] filling in auto)
  next
    case reg
    from reg(1) have "call E Producer (pe_batch E batch) st (\<lambda>tx st.
       case preCreate_all (pe_lib E) tx (map cdt_ChunkUpload batch) (the_state st) of
         (Ok _, us, es) \<Rightarrow>
           ((set_state us st)\<lparr>pl_producer := Sending stop idx \<lparr>bt_Chunks = map cdt_ChunkUpload batch, bt_Tx = tx\<rparr>\<rparr>, es)
       | (Err e, us, es) \<Rightarrow> (fail_goroutine E Producer e (set_state us st), es)
       | (Panic, us, es) \<Rightarrow> ((set_state us st)\<lparr>pl_result := Panic\<rparr>, es)) = (st', es')"
      by (simp add: register_batch_def)
    then show ?thesis
    proof (cases rule: call_cases)
      case (1 tx w)
      obtain r us es1 where p: "preCreate_all (pe_lib E) tx (map cdt_ChunkUpload batch) (the_state st) = (r, us, es1)"
        by (metis prod.collapse)
      note ev = preCreate_all_events [OF p]
      have base: "order_inv (es @ es1) (set_state us (st\<lparr>pl_world := w\<rparr>))"
        using inv ev by (intro order_inv_update [OF inv]) (auto simp: order_inv_def)
      show ?thesis
      proof (cases r)
        case (Ok u)
        then have st': "st' = (set_state us (st\<lparr>pl_world := w\<rparr>))
            \<lparr>pl_producer := Sending stop idx \<lparr>bt_Chunks = map cdt_ChunkUpload batch, bt_Tx = tx\<rparr>\<rparr>" "es' = es1"
          using 1 p by simp_all
        have "batch_created (es @ es1) \<lparr>bt_Chunks = map cdt_ChunkUpload batch, bt_Tx = tx\<rparr>"
          using ev Ok reg(2) by (auto simp: batch_created_def)
        then show ?thesis using base by (auto simp: st' order_inv_def)
      next
        case (Err e)
        then show ?thesis using 1 p fail_order [OF base] by auto
      next
        case Panic
        then show ?thesis using 1 p base by auto
      qed
    qed (use inv in \<open>auto intro: fail_order_world\<close>)
  qed (use inv in \<open>auto simp: order_inv_def\<close>)
next
  case (Sending stop idx bt)
  then have st': "st' = st\<lparr>pl_queue := pl_queue st @ [bt], pl_producer := (if stop then ProducerDone else Filling False idx [])\<rparr>"
    "es' = []"
    using step by (auto simp: producer_step_def split: if_splits)
  then show ?thesis using inv Sending by (auto simp: order_inv_def)
next
  case ProducerDone
  then show ?thesis using step by (simp add: producer_step_def)
qed

lemma waiter_order:
  assumes inv: "order_inv es st" and step: "waiter_step E st = Some (st', es')" and E: "\<not> pe_resuming E"
  shows "order_inv (es @ es') st'"
proof -
  have set: "order_inv es (st\<lparr>pl_waiter := w\<rparr>)" if "in_waiter w = []" "fresh_waiter w" for w
    using inv that by (auto simp: order_inv_def)
  have fw: "fresh_waiter (pl_waiter st)" using inv by (simp add: order_inv_def)
  show ?thesis
  proof (cases "pl_waiter st")
    case WaiterStart
    then show ?thesis using step E set by (auto simp: waiter_step_def fresh_waiter_def)
  next
    case (Resuming cts)
    then show ?thesis using step fw set by (auto simp: waiter_step_def fresh_waiter_def)
  next
    case (Handing cs cts)
    then show ?thesis using step fw set inv
      by (cases cs) (auto simp: waiter_step_def fresh_waiter_def order_inv_def split: if_splits)
  next
    case Receiving
    show ?thesis
    proof (cases "pl_queue st")
      case Nil
      then show ?thesis using step Receiving set by (auto simp: waiter_step_def fresh_waiter_def split: if_splits)
    next
      case (Cons bt q)
      then have c: "call E Waiter (pe_wait E (bt_Tx bt)) (st\<lparr>pl_queue := q\<rparr>) (\<lambda>_ st.
           (st\<lparr>pl_waiter := Handing (bt_Chunks bt) []\<rparr>, [Waited (bt_Tx bt)])) = (st', es')"
        using step Receiving by (simp add: waiter_step_def)
      have pop: "order_inv es (st\<lparr>pl_queue := q\<rparr>)" using inv Cons by (auto simp: order_inv_def)
      have bt: "batch_created es bt" using inv Cons by (simp add: order_inv_def)
      from c show ?thesis
      proof (cases rule: call_cases)
        case (1 x w)
        then have st': "st' = st\<lparr>pl_queue := q, pl_world := w, pl_waiter := Handing (bt_Chunks bt) []\<rparr>" "es' = [Waited (bt_Tx bt)]" by auto
        have "confirmed (es @ [Waited (bt_Tx bt)]) c" if "c \<in> set (bt_Chunks bt)" for c
          using that bt by (auto simp: batch_created_def confirmed_def)
        then show ?thesis unfolding st' by (intro order_inv_update [OF pop]) (auto simp: fresh_waiter_def)
      qed (use pop in \<open>auto intro: fail_order_world\<close>)
    qed
  next
    case WaiterDone
    then show ?thesis using step by (simp add: waiter_step_def)
  qed
qed

lemma uploader_order:
  assumes inv: "order_inv es st" and step: "uploader_step E st = Some (st', es')"
  shows "order_inv (es @ es') st'"
proof (cases "pl_uploader st")
  case UploaderIdle
  then show ?thesis using step inv by (auto simp: uploader_step_def order_inv_def split: if_splits)
next
  case (Uploading c)
  obtain r d w where p: "pe_chunk E c (fu_counters (pl_upload st), pl_world st) = (r, d, w)" by (metis prod.collapse)
  show ?thesis
  proof (cases r)
    case (Ok u)
    have "confirmed es c" using inv Uploading by (simp add: order_inv_def)
    then have "registered_first (es @ [Chunk_event (Uploaded c)])"
      using inv by (auto simp: order_inv_def registered_first_snoc)
    then show ?thesis using step Uploading p Ok inv
      by (auto simp: uploader_step_def Let_def order_inv_def)
  next
    case (Err e)
    have "order_inv es (st\<lparr>pl_upload := (pl_upload st)\<lparr>fu_counters := d\<rparr>\<rparr>)" using inv by (simp add: order_inv_def)
    then have "order_inv es (fail_goroutine E Uploader e (st\<lparr>pl_upload := (pl_upload st)\<lparr>fu_counters := d\<rparr>, pl_world := w\<rparr>))"
      by (rule fail_order_world)
    then show ?thesis using step Uploading p Err by (auto simp: uploader_step_def)
  next
    case Panic
    then show ?thesis using step Uploading p inv by (auto simp: uploader_step_def order_inv_def)
  qed
next
  case UploaderDone
  then show ?thesis using step by (simp add: uploader_step_def)
qed

interpretation upload_order: transitions "go_step E" "\<lambda>st. \<not> pe_resuming E \<and> starts fu data st"
  "\<lambda>es st. \<not> pe_resuming E \<and> order_inv es st" for E fu data
proof
  fix st :: "'a pipeline"
  assume "\<not> pe_resuming E \<and> starts fu data st"
  then show "\<not> pe_resuming E \<and> order_inv [] st"
    by (auto simp: starts_def order_inv_def init_pipeline_def fresh_waiter_def registered_first_def)
next
  fix es c es' and st st' :: "'a pipeline"
  assume inv: "\<not> pe_resuming E \<and> order_inv es st" and "go_step E c st = Some (st', es')"
  then show "\<not> pe_resuming E \<and> order_inv (es @ es') st'"
    using producer_order [of es st E] waiter_order [of es st E] uploader_order [of es st E] fail_order [of es st E]
    by (cases c) (auto simp: stop_step_def split: if_splits goroutine.splits option.splits)
qed

lemma run_order:
  assumes "pipeline_run E (init_pipeline fu reader s) es n st" and "\<not> pe_resuming E"
  shows "order_inv es st"
  using upload_order.run_inv [OF assms(1), of fu "rd_rest reader"] assms(2) by (auto simp: starts_def)

section \<open>The pipeline finishes\<close>

text \<open>Every step makes this weight smaller.\<close>

definition producer_weight :: "producer \<Rightarrow> nat" where
  "producer_weight p =
     (case p of
        ProducerStart \<Rightarrow> 4
      | Filling stop idx batch \<Rightarrow> (if stop then 2 else 3) + 9 * length batch
      | Sending stop idx bt \<Rightarrow> (if stop then 1 else 3) + 8 * length (bt_Chunks bt)
      | ProducerDone \<Rightarrow> 0)"

definition waiter_weight :: "waiter \<Rightarrow> nat" where
  "waiter_weight w =
     (case w of WaiterStart \<Rightarrow> 3 | Resuming cts \<Rightarrow> 2 | Handing cs cts \<Rightarrow> 3 + 4 * length cs | Receiving \<Rightarrow> 1 | WaiterDone \<Rightarrow> 0)"

definition uploader_weight :: "uploader \<Rightarrow> nat" where
  "uploader_weight u = (case u of UploaderIdle \<Rightarrow> 1 | Uploading c \<Rightarrow> 3 | UploaderDone \<Rightarrow> 0)"

definition weight :: "'s pipeline \<Rightarrow> nat" where
  "weight st = 12 * length (rd_rest (pl_reader st)) + producer_weight (pl_producer st) +
     7 * length (concat (map bt_Chunks (pl_queue st))) + waiter_weight (pl_waiter st) + uploader_weight (pl_uploader st) +
     (if pl_result st = Panic then 0 else 1)"

lemma weight_simps [simp]:
  "producer_weight ProducerStart = 4" "producer_weight (Filling stop idx batch) = (if stop then 2 else 3) + 9 * length batch"
  "producer_weight (Sending stop idx bt) = (if stop then 1 else 3) + 8 * length (bt_Chunks bt)" "producer_weight ProducerDone = 0"
  "waiter_weight WaiterStart = 3" "waiter_weight (Resuming cts) = 2" "waiter_weight (Handing cs cts) = 3 + 4 * length cs"
  "waiter_weight Receiving = 1" "waiter_weight WaiterDone = 0"
  "uploader_weight UploaderIdle = 1" "uploader_weight (Uploading c) = 3" "uploader_weight UploaderDone = 0"
  by (simp_all add: producer_weight_def waiter_weight_def uploader_weight_def)

lemma weight_fail:
  "weight (fail_goroutine E g e st) \<le> 12 * length (rd_rest (pl_reader st)) +
     (if g = Producer then 0 else producer_weight (pl_producer st)) + 7 * length (concat (map bt_Chunks (pl_queue st))) +
     (if g = Waiter then 0 else waiter_weight (pl_waiter st)) + (if g = Uploader then 0 else uploader_weight (pl_uploader st)) + 1"
  by (cases g) (auto simp: weight_def fail_goroutine_def finish_goroutine_def split: outcome.splits)

lemma weight_call:
  assumes "call E g m st k = (st', es)"
    and "\<And>x w. weight (fst (k x (st\<lparr>pl_world := w\<rparr>))) < bound"
    and "\<And>e w. weight (fail_goroutine E g e (st\<lparr>pl_world := w\<rparr>)) < bound"
    and "weight (st\<lparr>pl_result := Panic\<rparr>) < bound"
  shows "weight st' < bound"
  using assms(1)
proof (cases rule: call_cases)
  case (1 x w)
  then show ?thesis using assms(2) [of x w] by simp
next
  case (2 e w)
  then show ?thesis using assms(3) by simp
next
  case (3 w)
  have "weight (st\<lparr>pl_world := w, pl_result := Panic\<rparr>) = weight (st\<lparr>pl_result := Panic\<rparr>)" by (simp add: weight_def)
  then show ?thesis using 3 assms(4) by simp
qed

lemma weight_world [simp]:
  "weight (st\<lparr>pl_world := w\<rparr>) = weight st" "weight (set_state us st) = weight st"
  by (simp_all add: weight_def)

lemma weight_panic: "pl_result st \<noteq> Panic \<Longrightarrow> weight (st\<lparr>pl_result := Panic\<rparr>) < weight st"
  by (simp add: weight_def)

lemma weight_fail_less:
  assumes "pl_result st \<noteq> Panic" and "g = Producer \<Longrightarrow> pl_producer st \<noteq> ProducerDone"
    and "g = Waiter \<Longrightarrow> pl_waiter st \<noteq> WaiterDone" and "g = Uploader \<Longrightarrow> pl_uploader st \<noteq> UploaderDone"
  shows "weight (fail_goroutine E g e st) < weight st"
proof -
  have "pl_producer st \<noteq> ProducerDone \<Longrightarrow> 0 < producer_weight (pl_producer st)" by (cases "pl_producer st") auto
  moreover have "pl_waiter st \<noteq> WaiterDone \<Longrightarrow> 0 < waiter_weight (pl_waiter st)" by (cases "pl_waiter st") auto
  moreover have "pl_uploader st \<noteq> UploaderDone \<Longrightarrow> 0 < uploader_weight (pl_uploader st)" by (cases "pl_uploader st") auto
  ultimately show ?thesis using assms weight_fail [of E g e st] by (cases g) (auto simp: weight_def)
qed

lemma weight_fail_world_less:
  assumes "pl_result st \<noteq> Panic" and "g = Producer \<Longrightarrow> pl_producer st \<noteq> ProducerDone"
    and "g = Waiter \<Longrightarrow> pl_waiter st \<noteq> WaiterDone" and "g = Uploader \<Longrightarrow> pl_uploader st \<noteq> UploaderDone"
  shows "weight (fail_goroutine E g e (st\<lparr>pl_world := w\<rparr>)) < weight st"
  using weight_fail_less [of "st\<lparr>pl_world := w\<rparr>" g E e] assms by simp

lemma producer_weight_less:
  assumes inv: "order_inv es st" and step: "producer_step E st = Some (st', es')" and ok: "pl_result st \<noteq> Panic"
    and E: "\<not> pe_resuming E" "0 < pe_bufSize E" "0 < pe_batchSize E"
  shows "weight st' < weight st"
proof (cases "pl_producer st")
  case ProducerStart
  then show ?thesis using step E by (auto simp: producer_step_def weight_def)
next
  case (Filling stop idx batch)
  consider (read) "(st', es') = read_chunk E idx batch st" "\<not> stop"
    | (reg) "(st', es') = register_batch E stop idx batch st" "batch \<noteq> []"
    | (finish) "st' = st\<lparr>pl_producer := ProducerDone\<rparr>"
    using step Filling E(3) by (auto simp: producer_step_def split: if_splits)
  then show ?thesis
  proof cases
    case read
    obtain bs err r' where r: "readUpTo (pl_reader st) (pe_bufSize E) = ((bs, err), r')" by (metis prod.collapse)
    note rr = readUpTo_result [OF r E(2)]
    let ?st = "st\<lparr>pl_reader := r'\<rparr>"
    have le: "weight ?st \<le> weight st" using rr(2) by (simp add: weight_def)
    have fail: "weight (fail_goroutine E Producer e (?st\<lparr>pl_world := w\<rparr>)) < weight st" for e w
      using weight_fail_world_less [of ?st Producer E e w] ok Filling le by simp
    consider (err) e where "st' = fail_goroutine E Producer e ?st"
      | (stop) "st' = ?st\<lparr>pl_producer := Filling True idx batch\<rparr>"
      | (chunk) "call E Producer (pe_create E idx bs) ?st (\<lambda>c st.
               (st\<lparr>pl_producer := Filling False (idx + 1) (batch @ [c])\<rparr>, [])) = (st', es')" "bs \<noteq> []"
      using read by (auto simp: read_chunk_def r Let_def split: if_splits)
    then show ?thesis
    proof cases
      case err
      then show ?thesis using weight_fail_less [of ?st Producer E e] ok Filling le by simp
    next
      case stop
      then show ?thesis using rr(2) Filling read by (simp add: weight_def)
    next
      case chunk
      have "0 < length (rd_rest (pl_reader st))" using chunk(2) rr(1) by auto
      then have "12 * length (rd_rest r') + 12 \<le> 12 * length (rd_rest (pl_reader st))"
        unfolding rr(2) length_drop using E(2) by arith
      then show ?thesis using fail weight_panic [of ?st] ok le Filling read
        by (intro weight_call [OF chunk(1)]) (auto simp: weight_def)
    qed
  next
    case reg
    have "weight st' < weight st"
    proof (rule weight_call [OF reg(1) [unfolded register_batch_def, symmetric]])
      fix tx w
      obtain r us es1 where p: "preCreate_all (pe_lib E) tx (map cdt_ChunkUpload batch) (the_state st) = (r, us, es1)"
        by (metis prod.collapse)
      have f: "weight (fail_goroutine E Producer e (set_state us (st\<lparr>pl_world := w\<rparr>))) < weight st" for e
        using weight_fail_less [of "set_state us (st\<lparr>pl_world := w\<rparr>)" Producer E e] ok Filling by simp
      have "weight ((set_state us (st\<lparr>pl_world := w\<rparr>))\<lparr>pl_producer := Sending stop idx \<lparr>bt_Chunks = map cdt_ChunkUpload batch, bt_Tx = tx\<rparr>\<rparr>)
          < weight st"
        using reg(2) Filling by (cases batch) (auto simp: weight_def)
      moreover have "weight ((set_state us (st\<lparr>pl_world := w\<rparr>))\<lparr>pl_result := Panic\<rparr>) < weight st"
        using ok by (simp add: weight_def)
      ultimately show "weight (fst (case preCreate_all (pe_lib E) tx (map cdt_ChunkUpload batch) (the_state (st\<lparr>pl_world := w\<rparr>)) of
         (Ok _, us, es) \<Rightarrow>
           ((set_state us (st\<lparr>pl_world := w\<rparr>))\<lparr>pl_producer := Sending stop idx \<lparr>bt_Chunks = map cdt_ChunkUpload batch, bt_Tx = tx\<rparr>\<rparr>, es)
       | (Err e, us, es) \<Rightarrow> (fail_goroutine E Producer e (set_state us (st\<lparr>pl_world := w\<rparr>)), es)
       | (Panic, us, es) \<Rightarrow> ((set_state us (st\<lparr>pl_world := w\<rparr>))\<lparr>pl_result := Panic\<rparr>, es))) < weight st"
        using f p by (cases r) auto
    next
      show "weight (fail_goroutine E Producer e (st\<lparr>pl_world := w\<rparr>)) < weight st" for e w
        using ok Filling by (intro weight_fail_world_less) auto
    qed (rule weight_panic [OF ok])
    then show ?thesis .
  next
    case finish
    then show ?thesis using Filling by (simp add: weight_def)
  qed
next
  case (Sending stop idx bt)
  then have st': "st' = st\<lparr>pl_queue := pl_queue st @ [bt], pl_producer := (if stop then ProducerDone else Filling False idx [])\<rparr>"
    using step by (auto simp: producer_step_def split: if_splits)
  have "bt_Chunks bt \<noteq> []" using inv Sending by (auto simp: order_inv_def batch_created_def)
  then show ?thesis using Sending by (cases "bt_Chunks bt") (auto simp: weight_def st')
next
  case ProducerDone
  then show ?thesis using step by (simp add: producer_step_def)
qed

lemma waiter_weight_less:
  assumes inv: "order_inv es st" and step: "waiter_step E st = Some (st', es')" and ok: "pl_result st \<noteq> Panic"
    and E: "\<not> pe_resuming E"
  shows "weight st' < weight st"
proof -
  have fw: "fresh_waiter (pl_waiter st)" using inv by (simp add: order_inv_def)
  show ?thesis
  proof (cases "pl_waiter st")
    case (Handing cs cts)
    then show ?thesis using step by (cases cs) (auto simp: waiter_step_def weight_def split: if_splits)
  next
    case Receiving
    show ?thesis
    proof (cases "pl_queue st")
      case Nil
      then show ?thesis using step Receiving by (auto simp: waiter_step_def weight_def split: if_splits)
    next
      case (Cons bt q)
      then have c: "call E Waiter (pe_wait E (bt_Tx bt)) (st\<lparr>pl_queue := q\<rparr>) (\<lambda>_ st.
           (st\<lparr>pl_waiter := Handing (bt_Chunks bt) []\<rparr>, [Waited (bt_Tx bt)])) = (st', es')"
        using step Receiving by (simp add: waiter_step_def)
      have "bt_Chunks bt \<noteq> []" using inv Cons by (auto simp: order_inv_def batch_created_def)
      then have len: "Suc 0 \<le> length (bt_Chunks bt)" by (cases "bt_Chunks bt") auto
      have "weight (fail_goroutine E Waiter e (st\<lparr>pl_queue := q, pl_world := w\<rparr>)) < weight st" for e w
      proof -
        have "weight (fail_goroutine E Waiter e (st\<lparr>pl_queue := q, pl_world := w\<rparr>)) < weight (st\<lparr>pl_queue := q\<rparr>)"
          using ok Receiving by (intro weight_fail_world_less) auto
        also have "\<dots> \<le> weight st" using Cons by (simp add: weight_def)
        finally show ?thesis .
      qed
      then show ?thesis using Receiving Cons ok len
        by (intro weight_call [OF c]) (auto simp: weight_def)
    qed
  qed (use step fw E in \<open>auto simp: waiter_step_def weight_def fresh_waiter_def\<close>)
qed

lemma uploader_weight_less:
  assumes step: "uploader_step E st = Some (st', es')" and ok: "pl_result st \<noteq> Panic"
  shows "weight st' < weight st"
proof (cases "pl_uploader st")
  case (Uploading c)
  obtain r d w where p: "pe_chunk E c (fu_counters (pl_upload st), pl_world st) = (r, d, w)" by (metis prod.collapse)
  show ?thesis
  proof (cases r)
    case (Err e)
    let ?st = "st\<lparr>pl_upload := (pl_upload st)\<lparr>fu_counters := d\<rparr>\<rparr>"
    have "weight (fail_goroutine E Uploader e (?st\<lparr>pl_world := w\<rparr>)) < weight ?st"
      using ok Uploading by (intro weight_fail_world_less) auto
    then show ?thesis using step Uploading p Err by (auto simp: uploader_step_def weight_def)
  qed (use step Uploading p ok in \<open>auto simp: uploader_step_def weight_def Let_def\<close>)
qed (use step in \<open>auto simp: uploader_step_def weight_def split: if_splits\<close>)

lemma go_step_weight:
  assumes inv: "order_inv es st" and step: "go_step E c st = Some (st', es')"
    and E: "\<not> pe_resuming E" "0 < pe_bufSize E" "0 < pe_batchSize E"
  shows "weight st' < weight st"
proof -
  have ok: "pl_result st \<noteq> Panic" using step by (auto split: if_splits)
  show ?thesis
  proof (cases c)
    case (Run g)
    then show ?thesis
      using producer_weight_less [OF inv _ ok E] waiter_weight_less [OF inv _ ok E(1)] uploader_weight_less [OF _ ok] step ok
      by (cases g) auto
  next
    case (Stop g)
    then have "\<exists>e. st' = fail_goroutine E g e st" and "in_select g st"
      using step ok by (auto simp: stop_step_def split: if_splits option.splits)
    then show ?thesis using ok by (auto simp: in_select_def intro!: weight_fail_less)
  qed
qed

lemma open_or_done:
  assumes "pl_result st \<noteq> Panic" and "pl_result st = Ok () \<Longrightarrow> closed st" and "\<not> all_done st"
  shows "\<exists>c r. go_step E c st = Some r"
proof -
  have stop: "\<exists>c r. go_step E c st = Some r" if "pl_result st \<noteq> Ok ()" "in_select g st" for g
  proof -
    have "\<exists>r. go_step E (Stop g) st = Some r"
      using that assms(1) by (cases "pl_result st") (auto simp: stop_step_def ctx_done_err_def)
    then show ?thesis by blast
  qed
  have waiter: "\<exists>c r. go_step E c st = Some r"
    if w: "pl_waiter st \<noteq> WaiterDone" and rc: "pl_waiter st = Receiving \<Longrightarrow> pl_queue st \<noteq> [] \<or> pl_producer st = ProducerDone"
  proof (cases "waiter_step E st")
    case (Some r)
    then have "go_step E (Run Waiter) st = Some r" using assms(1) by simp
    then show ?thesis by blast
  next
    case None
    then obtain x cs cts where h: "pl_waiter st = Handing (x # cs) cts" "pl_uploader st \<noteq> UploaderIdle"
      using w rc by (auto simp: waiter_step_def split: waiter.splits list.splits if_splits)
    show ?thesis
    proof (cases "pl_uploader st")
      case (Uploading c)
      then have "\<exists>r. go_step E (Run Uploader) st = Some r"
        using assms(1) by (auto simp: uploader_step_def Let_def split: prod.splits outcome.splits)
      then show ?thesis by blast
    next
      case UploaderDone
      then have "pl_result st \<noteq> Ok ()" using assms(2) h by (auto simp: closed_def)
      then show ?thesis using h by (intro stop [of Waiter]) (auto simp: in_select_def)
    qed (use h in simp)
  qed
  consider (send) stop idx bt where "pl_producer st = Sending stop idx bt" "producer_step E st = None"
    | (prod) r where "producer_step E st = Some r" | (pdone) "pl_producer st = ProducerDone"
  proof (cases "producer_step E st")
    case None
    then have "pl_producer st = ProducerDone \<or> (\<exists>stop idx bt. pl_producer st = Sending stop idx bt)"
      by (auto simp: producer_step_def split: producer.splits if_splits prod.splits outcome.splits)
    then show ?thesis using None that by blast
  qed (rule that(2))
  then show ?thesis
  proof cases
    case send
    then have full: "pl_queue st \<noteq> [] \<or> pl_waiter st \<noteq> Receiving" by (auto simp: producer_step_def)
    show ?thesis
    proof (cases "pl_waiter st = WaiterDone")
      case True
      then have "pl_result st \<noteq> Ok ()" using assms(2) send by (auto simp: closed_def)
      then show ?thesis using send by (intro stop [of Producer]) (auto simp: in_select_def)
    next
      case False
      then show ?thesis using waiter full by blast
    qed
  next
    case prod
    then have "go_step E (Run Producer) st = Some r" using assms(1) by simp
    then show ?thesis by blast
  next
    case pdone
    show ?thesis
    proof (cases "pl_waiter st = WaiterDone")
      case True
      then have "pl_uploader st \<noteq> UploaderDone" using assms(3) pdone by (simp add: all_done_def)
      then have "\<exists>r. go_step E (Run Uploader) st = Some r"
        using True assms(1) by (cases "pl_uploader st") (auto simp: uploader_step_def Let_def split: prod.splits outcome.splits)
      then show ?thesis by blast
    next
      case False
      then show ?thesis using waiter pdone by blast
    qed
  qed
qed

text \<open>All choices in turn.\<close>

definition upload_round :: "choice list" where
  "upload_round = [Run Producer, Run Waiter, Run Uploader, Stop Producer, Stop Waiter, Stop Uploader]"

lemma in_upload_round: "c \<in> set upload_round"
proof (cases c)
  case (Run g)
  then show ?thesis by (cases g) (simp_all add: upload_round_def)
next
  case (Stop g)
  then show ?thesis by (cases g) (simp_all add: upload_round_def)
qed

interpretation uploads: finishing "go_step E" "\<lambda>st. fresh_env E \<and> 0 < pe_batchSize E \<and> starts fu data st"
  "\<lambda>es st. fresh_env E \<and> 0 < pe_batchSize E \<and> order_inv es st \<and> (pl_result st = Ok () \<longrightarrow> pipe_inv E fu data es st)"
  weight "\<lambda>st. pl_result st = Panic \<or> all_done st" upload_round for E fu data
proof
  fix st :: "'a pipeline"
  assume "fresh_env E \<and> 0 < pe_batchSize E \<and> starts fu data st"
  then show "fresh_env E \<and> 0 < pe_batchSize E \<and> order_inv [] st \<and> (pl_result st = Ok () \<longrightarrow> pipe_inv E fu data [] st)"
    using upload_inv.init_inv [of E fu data st] upload_order.init_inv [of E fu data st] by (simp add: fresh_env_def)
next
  fix es c es' and st st' :: "'a pipeline"
  assume inv: "fresh_env E \<and> 0 < pe_batchSize E \<and> order_inv es st \<and> (pl_result st = Ok () \<longrightarrow> pipe_inv E fu data es st)"
    and step: "go_step E c st = Some (st', es')"
  then show "fresh_env E \<and> 0 < pe_batchSize E \<and> order_inv (es @ es') st' \<and> (pl_result st' = Ok () \<longrightarrow> pipe_inv E fu data (es @ es') st')"
    using upload_inv.step_inv [OF _ step] upload_order.step_inv [OF _ step] by (simp add: fresh_env_def)
  show "weight st' < weight st" using go_step_weight [OF _ step, of es] inv by (simp add: fresh_env_def)
next
  fix es and st :: "'a pipeline"
  assume inv: "fresh_env E \<and> 0 < pe_batchSize E \<and> order_inv es st \<and> (pl_result st = Ok () \<longrightarrow> pipe_inv E fu data es st)"
    and "\<not> (pl_result st = Panic \<or> all_done st)"
  then obtain c r where "go_step E c st = Some r" using open_or_done [of st E] by (auto simp: pipe_inv_def)
  then show "\<exists>c \<in> set upload_round. go_step E c st \<noteq> None" using in_upload_round by blast
next
  fix c and st :: "'a pipeline"
  assume "pl_result st = Panic \<or> all_done st"
  then show "go_step E c st = None"
    by (auto simp: all_done_def producer_step_def waiter_step_def uploader_step_def stop_step_def in_select_def
        split: choice.splits goroutine.splits)
qed

lemma made_chunks:
  assumes "made E data cds" and "drop (length cds * pe_bufSize E) data = []" and "0 < pe_bufSize E"
  shows "length cds = length (chunks (pe_bufSize E) data)"
    and "i < length cds \<Longrightarrow> \<exists>s s'. pe_create E (int i) (chunks (pe_bufSize E) data ! i) s = (Ok (cds ! i), s')"
proof -
  let ?n = "pe_bufSize E" and ?k = "length cds"
  have "length data \<le> ?k * ?n" using assms(2) by simp
  moreover have "?k = 0 \<or> (?k - 1) * ?n < length data" using assms(1) by (cases cds) (auto simp: made_def)
  ultimately have "(length data + ?n - 1) div ?n = ?k"
    using assms(3) by (intro div_nat_eqI) (auto simp: diff_mult_distrib algebra_simps)
  then show len: "?k = length (chunks ?n data)" using assms(3) by (simp add: len_simps)
  assume "i < ?k"
  then show "\<exists>s s'. pe_create E (int i) (chunks ?n data ! i) s = (Ok (cds ! i), s')"
    using assms(1,3) len chunks_nth [of ?n i data] by (auto simp: made_def piece_def window_def)
qed

section \<open>An example\<close>

text \<open>A small upload: five bytes in pieces of two, batches of two chunks, no buffer between producer and waiter.\<close>

definition sample_env :: "unit pipe_env" where
  "sample_env = \<lparr>pe_lib = sample_dag_lib sample_prims,
     pe_create = (\<lambda>i bs. aret \<lparr>cdt_ChunkUpload = \<lparr>cu_Index = i, cu_ChunkCID = bs, cu_ActualSize = of_nat (length bs), cu_RawDataSize = 0,
       cu_EncodedSize = 0, cu_Blocks = [], cu_BucketID = [], cu_FileName = ''f''\<rparr>, cdt_CIDs = [], cdt_Sizes = []\<rparr>),
     pe_batch = (\<lambda>cds. aret [of_nat (length cds)]), pe_wait = (\<lambda>tx. aret ()), pe_chunk = (\<lambda>c. aret ()),
     pe_cancel = (\<lambda>s. s), pe_ctx = (\<lambda>s. None), pe_bufSize = 2, pe_batchSize = 2, pe_chunkBuffer = 0, pe_resuming = False\<rparr>"

definition sample_reader :: byte_reader where
  "sample_reader = \<lparr>rd_data = [1, 2, 3, 4, 5], rd_pos = 0, rd_end = reader_EOF, rd_seek = None\<rparr>"

definition sample_upload :: IPCFileUpload where
  "sample_upload = \<lparr>fu_counters = newDataCounters, fu_BucketName = ''b'', fu_Name = ''f'',
     fu_state = \<lparr>us_dagRoot = \<lparr>root_links = [], root_blockSizes = []\<rparr>,
       us_preCreatedChunks = [], us_isCommitted = False, us_chunkCount = 0, us_actualFileSize = 0, us_encodedFileSize = 0\<rparr>\<rparr>"

definition sample_schedule :: "choice list" where
  "sample_schedule = concat (replicate 16 [Run Producer, Run Waiter, Run Uploader])"

lemma sample_run:
  "case run_schedule sample_env sample_schedule (init_pipeline sample_upload sample_reader ()) of (st, es) \<Rightarrow>
     all_done st \<and> pl_result st = Ok () \<and> map cu_ChunkCID (uploaded es) = [[1, 2], [3, 4], [5]]"
  by (simp add: sample_schedule_def numeral_eq_Suc init_pipeline_def sample_env_def producer_step_def waiter_step_def uploader_step_def
      read_chunk_def register_batch_def call_def Let_def readUpTo_def reader_ReadFull_def rd_rest_def sample_reader_def
      all_done_def set_state_def sample_upload_def ErrUnexpectedEOF_def reader_EOF_def preCreateChunk_def AddLink_def sample_dag_lib_def)

lemma sample_complete:
  obtains n st es where "run_schedule sample_env sample_schedule (init_pipeline sample_upload sample_reader ()) = (st, es)"
    and "pipeline_run sample_env (init_pipeline sample_upload sample_reader ()) es n st"
    and "all_done st" "pl_result st = Ok ()" "map cu_ChunkCID (uploaded es) = [[1, 2], [3, 4], [5]]"
proof -
  obtain st es where r: "run_schedule sample_env sample_schedule (init_pipeline sample_upload sample_reader ()) = (st, es)"
    by (metis prod.collapse)
  then obtain n where "pipeline_run sample_env (init_pipeline sample_upload sample_reader ()) es n st"
    using schedule_runs [OF runs.start r] by auto
  with r sample_run show ?thesis by (intro that) (auto simp del: schedule.simps)
qed

lemma uploaded_member: "c \<in> set (uploaded es) \<Longrightarrow> Chunk_event (Uploaded c) \<in> set es"
proof (induction es)
  case (Cons e es)
  then show ?case by (cases e rule: uploaded_of.cases) auto
qed simp

definition resumed_upload :: IPCFileUpload where
  "resumed_upload = sample_upload\<lparr>fu_state := (fu_state sample_upload)\<lparr>us_chunkCount := 2, us_actualFileSize := 4\<rparr>\<rparr>"

lemma resumed_run:
  "\<exists>st es c. run_schedule (sample_env\<lparr>pe_resuming := True\<rparr>)
      (replicate 5 (Run Producer) @ sample_schedule) (init_pipeline resumed_upload sample_reader ()) = (st, es) \<and>
    all_done st \<and> pl_result st = Ok () \<and> registered es = [c] \<and> uploaded es = [c, c]"
  by (simp add: sample_schedule_def numeral_eq_Suc init_pipeline_def sample_env_def producer_step_def waiter_step_def uploader_step_def
      read_chunk_def register_batch_def call_def Let_def readUpTo_def reader_ReadFull_def rd_rest_def sample_reader_def
      all_done_def set_state_def sample_upload_def ErrUnexpectedEOF_def reader_EOF_def preCreateChunk_def AddLink_def sample_dag_lib_def
      resumed_upload_def skipToPosition_def listPreCreatedChunks_def chunkUploaded_def map_filter_simps registered_def created_def)

lemma complete_inv:
  assumes "pipe_inv E fu data es st" and "all_done st" and "0 < pe_bufSize E"
  shows "\<exists>cds. uploaded es = map cdt_ChunkUpload cds \<and> registered es = uploaded es \<and>
    length cds = length (chunks (pe_bufSize E) data) \<and>
    (\<forall>i < length cds. \<exists>s s'. pe_create E (int i) (chunks (pe_bufSize E) data ! i) s = (Ok (cds ! i), s')) \<and>
    fu_state (pl_upload st) = fold (apply_event (pe_lib E)) (history es) (fu_state fu)"
proof -
  have parts: "flow es st" "reading E data es st" "closed st" using assms(1) by (simp_all add: pipe_inv_def)
  from parts(2) obtain cds where cds: "made E data cds" "map cdt_ChunkUpload cds = registered es"
    "drop (length cds * pe_bufSize E) data = []"
    using assms(2) by (auto simp: reading_def all_done_def)
  have "registered es = uploaded es" using parts(1,3) assms(2) by (simp add: flow_def all_done_def closed_def)
  then show ?thesis
    using cds made_chunks [OF cds(1,3) assms(3)] assms(1) by (intro exI [of _ cds]) (auto simp: pipe_inv_def)
qed

lemma complete_run:
  assumes "pipeline_run E (init_pipeline fu reader s) es n st" and "all_done st" and "pl_result st = Ok ()"
    and "\<forall>ls l. AddRawLink (pe_lib E) ls l = Ok ()" and "\<not> pe_resuming E" and "0 < pe_bufSize E"
  shows "\<exists>cds. uploaded es = map cdt_ChunkUpload cds \<and> registered es = uploaded es \<and>
    length cds = length (chunks (pe_bufSize E) (rd_rest reader)) \<and>
    (\<forall>i < length cds. \<exists>s s'. pe_create E (int i) (chunks (pe_bufSize E) (rd_rest reader) ! i) s = (Ok (cds ! i), s')) \<and>
    fu_state (pl_upload st) = fold (apply_event (pe_lib E)) (history es) (fu_state fu)"
  by (rule complete_inv [OF run_pipeline_inv [OF assms(1,3-6)] assms(2,6)])

text \<open>What the invariants say does not depend on the world.\<close>

lemma pipe_inv_world [simp]: "pipe_inv E fu data es (st\<lparr>pl_world := w\<rparr>) = pipe_inv E fu data es st"
  by (cases "pl_producer st") (simp_all add: pipe_inv_def flow_def reading_def nonempty_end_def closed_def)

section \<open>Properties\<close>



text \<open>C7: In every interleaving, also in those that end with an error, each chunk of a fresh upload is sent to the nodes only after it was
  registered in a transaction and this transaction was waited for.\<close>

theorem upload_after_registration:
  assumes "pipeline_run E (init_pipeline fu reader s) es n st" and "\<not> pe_resuming E"
    and "i < length es" and "es ! i = Chunk_event (Uploaded c)"
  shows "\<exists>tx. Chunk_event (Created c tx) \<in> set (take i es) \<and> Waited tx \<in> set (take i es)"
  using run_order [OF assms(1,2)] assms(3,4) by (auto simp: order_inv_def registered_first_def confirmed_def)

theorem upload_after_registration_witness:
  "\<exists>st es i c tx. run_schedule sample_env sample_schedule (init_pipeline sample_upload sample_reader ()) = (st, es) \<and>
     es ! i = Chunk_event (Uploaded c) \<and> cu_ChunkCID c = [1, 2] \<and> Waited tx \<in> set (take i es)"
proof -
  obtain n st es where run: "run_schedule sample_env sample_schedule (init_pipeline sample_upload sample_reader ()) = (st, es)"
    "pipeline_run sample_env (init_pipeline sample_upload sample_reader ()) es n st"
    "map cu_ChunkCID (uploaded es) = [[1, 2], [3, 4], [5]]" by (rule sample_complete)
  then obtain c where c: "c \<in> set (uploaded es)" "cu_ChunkCID c = [1, 2]" by (cases "uploaded es") auto
  then obtain i where i: "i < length es" "es ! i = Chunk_event (Uploaded c)"
    using uploaded_member by (metis in_set_conv_nth)
  have "\<not> pe_resuming sample_env" by (simp add: sample_env_def)
  from upload_after_registration [OF run(2) this i] show ?thesis using run(1) c(2) i by blast
qed




end
