(* ===== verification/FileUpload.thy ===== *)
theory FileUpload
  imports UploadPipelineSpec
begin

text \<open>
  Uploading a file: \<open>uploadSingleFile\<close>, \<open>MultiUpload.CreateFileUploads\<close>, \<open>MultiUpload.Upload\<close>
  (\<open>sdk/multi_upload.go\<close>), \<open>IPC.Upload\<close> (\<open>sdk/sdk_ipc.go\<close>) and \<open>Upload2\<close>
  (\<open>sdk/sdk_ipc_upload_download2.go\<close>).

  The pipeline runs under a schedule, and the loop that polls the contract has fuel; a result \<open>None\<close> means that
  schedule or fuel did not suffice. The files of a \<open>MultiUpload\<close> run one after the other here, in the order of a
  schedule; \<open>FileCreations\<close> and \<open>MultiUploads\<close> interleave them.

  The buffer behind the bytes read holds bytes of earlier chunks, which no operation reads; here it holds zeros.
\<close>

section \<open>Committing a file\<close>

fun wait_filled :: "nat \<Rightarrow> ('s, bool) act \<Rightarrow> 's \<Rightarrow> (unit outcome \<times> 's) option" where
  "wait_filled 0 isFilled s = None"
| "wait_filled (Suc n) isFilled s =
     (case isFilled s of
        (Ok True, s') \<Rightarrow> Some (Ok (), s')
      | (Ok False, s') \<Rightarrow> wait_filled n isFilled s'
      | (Err e, s') \<Rightarrow> Some (Err e, s')
      | (Panic, s') \<Rightarrow> Some (Panic, s'))"

text \<open>After the pipeline: the root, the wait until the contract has all chunks, the commit transaction.\<close>

type_synonym 's upload_result = "(IPCFileMetaV2 outcome \<times> IPCFileUpload \<times> 's) option"

definition upload_bind ::
  "IPCFileUpload \<Rightarrow> ('s, 'a) act \<Rightarrow> 's \<Rightarrow> ('a \<Rightarrow> 's \<Rightarrow> 's upload_result) \<Rightarrow> 's upload_result" where
  "upload_bind fu m s k =
     (case m s of (Ok x, s') \<Rightarrow> k x s' | (Err e, s') \<Rightarrow> Some (Err e, fu, s') | (Panic, s') \<Rightarrow> Some (Panic, fu, s'))"

definition commit_file ::
  "dag_lib \<Rightarrow> cid_lib \<Rightarrow> 'k eth_lib \<Rightarrow> ('s, 'c) api \<Rightarrow> ('cl, 'conn, 'http) IPC \<Rightarrow> nat \<Rightarrow> byte list \<Rightarrow> IPCFileUpload \<Rightarrow> 's \<Rightarrow>
   's upload_result" where
  "commit_file lib clib eth A sdk fuel bucketId fu s =
     upload_bind fu (alift (map_err errSDK (Build lib (us_dagRoot (fu_state fu))))) s (\<lambda>rootCID s.
     upload_bind fu (chain_wrap A (retry_read A sdk (st_GetFileByName A bucketId (fu_Name fu)))) s (\<lambda>fileMeta s.
     let fileID = CalculateFileID eth bucketId (fu_Name fu) in
     case wait_filled fuel (chain_wrap A (retry_read A sdk (st_IsFileFilled A fileID))) s of
       None \<Rightarrow> None
     | Some filled \<Rightarrow>
         upload_bind fu (\<lambda>_. filled) s (\<lambda>_ s.
         upload_bind fu (chain_wrap A (retry_tx A sdk (st_CommitFile A bucketId (fu_Name fu)
           (us_encodedFileSize (fu_state fu)) (us_actualFileSize (fu_state fu)) rootCID))) s (\<lambda>tx s.
         let fu = fu\<lparr>fu_state := (fu_state fu)\<lparr>us_isCommitted := True\<rparr>\<rparr>;
             meta = \<lparr>fm2_RootCID = cid_String clib rootCID, fm2_BucketName = fu_BucketName fu, fm2_Name = fu_Name fu,
               fm2_EncodedSize = us_encodedFileSize (fu_state fu), fm2_Size = us_actualFileSize (fu_state fu),
               fm2_CreatedAt = stf_CreatedAt fileMeta, fm2_CommittedAt = time_Now A s\<rparr>
         in upload_bind fu (sdk_wrap (st_WaitForTx A tx)) s (\<lambda>_ s. Some (Ok meta, fu, s))))))"

section \<open>The pipelines of the two formats\<close>

abbreviation filled_buffer :: "nat \<Rightarrow> byte list \<Rightarrow> go_slice" where
  "filled_buffer cap bs \<equiv> \<lparr>sarr = bs @ replicate (cap - length bs) 0, slen = length bs\<rparr>"

definition create_chunk ::
  "prims \<Rightarrow> dag_lib \<Rightarrow> cid_lib \<Rightarrow> ('s, 'c) api \<Rightarrow> ('cl, 'conn, 'http) IPC \<Rightarrow> byte list \<Rightarrow> nat \<Rightarrow> byte list \<Rightarrow> string \<Rightarrow>
   int \<Rightarrow> byte list \<Rightarrow> ('s, ChunkData) act" where
  "create_chunk P lib clib A sdk key cap bucketId name idx bs =
     abind (createChunkUpload P lib clib A sdk idx key (filled_buffer cap bs) bucketId name)
       (\<lambda>cu. abind (alift (toIPCProtoChunk clib (cid_String clib (cu_ChunkCID cu)) (cu_Index cu) (cu_ActualSize cu) (cu_Blocks cu)))
       (\<lambda>(cids, sizes, _). aret \<lparr>cdt_ChunkUpload = cu, cdt_CIDs = cids, cdt_Sizes = sizes\<rparr>))"

definition create_chunk2 ::
  "prims \<Rightarrow> dag_lib \<Rightarrow> cid_lib \<Rightarrow> ('s, 'c) api \<Rightarrow> ErasureCode \<Rightarrow> byte list \<Rightarrow> byte list \<Rightarrow> string \<Rightarrow>
   int \<Rightarrow> byte list \<Rightarrow> ('s, ChunkData) act" where
  "create_chunk2 P lib clib A ec key bucketId name idx bs =
     createChunkUpload2 P lib clib A ec idx key (filled_buffer (nat targetCiphertextSize) bs) bucketId name"

definition upload_env ::
  "('s, 'c) api \<Rightarrow> dag_lib \<Rightarrow> cid_lib \<Rightarrow> 'k key_lib \<Rightarrow> ('cl, 'conn, 'http) IPC \<Rightarrow> (IPCFileChunkUploadV2 \<Rightarrow> nat list) \<Rightarrow>
   (int \<Rightarrow> byte list \<Rightarrow> ('s, ChunkData) act) \<Rightarrow> nat \<Rightarrow> byte list \<Rightarrow> IPCFileUpload \<Rightarrow> 's pipe_env" where
  "upload_env A lib clib K sdk blockSched create bufSize bucketId fu =
     \<lparr>pe_lib = lib, pe_create = create,
      pe_batch = (\<lambda>batch. createBatchedChunkTransaction A sdk batch bucketId (fu_Name fu)),
      pe_wait = st_WaitForTx A,
      pe_chunk = (\<lambda>chunk. uploadChunk A clib K sdk (blockSched chunk) (us_chunkCount (fu_state fu) > 0) chunk),
      pe_cancel = ctx_cancel A, pe_ctx = ctx_err A, pe_bufSize = bufSize,
      pe_batchSize = nat (ipc_chunkBatchSize sdk), pe_chunkBuffer = nat (ipc_chunkBuffer sdk),
      pe_resuming = (us_chunkCount (fu_state fu) > 0)\<rparr>"

definition run_pipeline ::
  "'s pipe_env \<Rightarrow> choice list \<Rightarrow> IPCFileUpload \<Rightarrow> byte_reader \<Rightarrow> 's \<Rightarrow>
   (IPCFileUpload \<Rightarrow> 's \<Rightarrow> 's upload_result) \<Rightarrow> 's upload_result" where
  "run_pipeline E sched fu reader s k =
     (case run_schedule E sched (init_pipeline fu reader s) of (st, es) \<Rightarrow>
        if pl_result st = Panic then Some (Panic, pl_upload st, pl_world st)
        else if \<not> all_done st then None
        else (case pl_result st of
                Err e \<Rightarrow> Some (Err (errSDK e), pl_upload st, pl_world st)
              | _ \<Rightarrow> k (pl_upload st) (pl_world st)))"

definition uploadSingleFile ::
  "prims \<Rightarrow> dag_lib \<Rightarrow> cid_lib \<Rightarrow> 'k key_lib \<Rightarrow> ('s, 'c) api \<Rightarrow> ('cl, 'conn, 'http) IPC \<Rightarrow> (IPCFileChunkUploadV2 \<Rightarrow> nat list) \<Rightarrow>
   choice list \<Rightarrow> nat \<Rightarrow> IPCFileUpload \<Rightarrow> byte_reader \<Rightarrow> 's \<Rightarrow> 's upload_result" where
  "uploadSingleFile P lib clib K A sdk blockSched sched fuel fu reader s =
     (if us_isCommitted (fu_state fu) then Some (Err (errSDK (ErrNew ''file is already committed'')), fu, s)
      else
        upload_bind fu (chain_wrap A (retry_read A sdk (st_GetBucketByName A (fu_BucketName fu)))) s (\<lambda>bucket s.
        upload_bind fu (alift (map_err errSDK (encryptionKey P (ipc_encryptionKey sdk) [fu_BucketName fu, fu_Name fu]))) s (\<lambda>key s.
        let (bufferSize, bufferCapacity) = calculateBufferSizeAndCapacity sdk key;
            E = upload_env A lib clib K sdk blockSched
                  (create_chunk P lib clib A sdk key (nat bufferCapacity) (stb_Id bucket) (fu_Name fu))
                  (nat bufferSize) (stb_Id bucket) fu
        in run_pipeline E sched fu reader s (commit_file lib clib (key_eth K) A sdk fuel (stb_Id bucket)))))"

definition Upload2 ::
  "prims \<Rightarrow> dag_lib \<Rightarrow> cid_lib \<Rightarrow> 'k key_lib \<Rightarrow> ('s, 'c) api \<Rightarrow> ('cl, 'conn, 'http) IPC \<Rightarrow> (IPCFileChunkUploadV2 \<Rightarrow> nat list) \<Rightarrow>
   choice list \<Rightarrow> nat \<Rightarrow> IPCFileUpload \<Rightarrow> byte_reader \<Rightarrow> 's \<Rightarrow> 's upload_result" where
  "Upload2 P lib clib K A sdk blockSched sched fuel fu reader s =
     (case ipc_ec sdk of
        None \<Rightarrow> Some (Err (errSDK (ErrNew ''erasure coding is required for Upload2'')), fu, s)
      | Some ec \<Rightarrow>
          if ipc_encryptionKey sdk = [] then Some (Err (errSDK (ErrNew ''encryption is required for Upload2'')), fu, s)
          else if us_isCommitted (fu_state fu) then Some (Err (errSDK (ErrNew ''file is already committed'')), fu, s)
          else
            upload_bind fu (chain_wrap A (retry_read A sdk (st_GetBucketByName A (fu_BucketName fu)))) s (\<lambda>bucket s.
            upload_bind fu (alift (map_err errSDK (encryptionKey P (ipc_encryptionKey sdk) [fu_BucketName fu, fu_Name fu]))) s (\<lambda>key s.
            upload_bind fu (alift (map_err errSDK (MaxPlaintextSizeForTarget targetCiphertextSize))) s (\<lambda>bufSize s.
            let E = upload_env A lib clib K sdk blockSched
                  (create_chunk2 P lib clib A ec key (stb_Id bucket) (fu_Name fu))
                  (nat bufSize) (stb_Id bucket) fu
            in run_pipeline E sched fu reader s (commit_file lib clib (key_eth K) A sdk fuel (stb_Id bucket))))))"

section \<open>Several files\<close>

record CreateFileUploadParam =
  cfp_BucketName :: string
  cfp_FileName :: string

record UploadParam =
  up_FileUpload :: "IPCFileUpload option"
  up_Reader :: "byte_reader option"

record CreateFileUploadResult =
  cfr_BucketName :: string
  cfr_FileName :: string
  cfr_FileUpload :: "IPCFileUpload option"
  cfr_Error :: "go_error option"

record UploadResult =
  ur_BucketName :: string
  ur_FileName :: string
  ur_Meta :: "IPCFileMetaV2 option"
  ur_Error :: "go_error option"

record ('cl, 'conn, 'http) MultiUpload =
  mu_ipcSDK :: "('cl, 'conn, 'http) IPC"
  mu_fileConcurrency :: int

definition MultiUpload_of :: "('cl, 'conn, 'http) IPC \<Rightarrow> int \<Rightarrow> ('cl, 'conn, 'http) MultiUpload" where
  "MultiUpload_of sdk fileConcurrency =
     \<lparr>mu_ipcSDK = sdk, mu_fileConcurrency = (if fileConcurrency < 1 then 1 else fileConcurrency)\<rparr>"

definition name_errors :: "CreateFileUploadParam list \<Rightarrow> go_error list" where
  "name_errors params = concat (map (\<lambda>(i, p).
     (if cfp_BucketName p = [] then [errSDK (ErrNew (''empty bucket name at index '' @ format_int (int i)))] else []) @
     (if cfp_FileName p = [] then [errSDK (ErrNew (''empty file name at index '' @ format_int (int i)))] else []))
     (enumerate 0 params))"

text \<open>One goroutine of \<open>CreateFileUploads\<close>: its result, which is never an error of the group.\<close>

definition create_one ::
  "prims \<Rightarrow> dag_lib \<Rightarrow> ('s, 'c) api \<Rightarrow> ('cl, 'conn, 'http) IPC \<Rightarrow> CreateFileUploadParam \<Rightarrow> ('s, IPCFileUpload) act" where
  "create_one P lib A sdk p =
     (let bucketEnc = maybeEncryptMetadata P sdk (cfp_BucketName p) ''bucket'';
          fileEnc = maybeEncryptMetadata P sdk (cfp_FileName p) (cfp_BucketName p);
          err_of = (\<lambda>r. case r of Err e \<Rightarrow> Some e | _ \<Rightarrow> None)
      in if bucketEnc = Panic \<or> fileEnc = Panic then alift Panic
         else case errors_Join [err_of bucketEnc, err_of fileEnc] of
           Some e \<Rightarrow> afail (errSDK e)
         | None \<Rightarrow>
             abind (alift bucketEnc) (\<lambda>bucketNameEnc.
             abind (alift fileEnc) (\<lambda>fileNameEnc.
             abind (sdk_wrap (alift (NewIPCFileUpload lib bucketNameEnc fileNameEnc))) (\<lambda>fileUpload.
             abind (chain_wrap A (retry_read A sdk (st_GetBucketByName A bucketNameEnc))) (\<lambda>bucket.
             abind (chain_wrap A (retry_tx A sdk (st_CreateFile A (stb_Id bucket) fileNameEnc))) (\<lambda>tx.
             abind (sdk_wrap (st_WaitForTx A tx)) (\<lambda>_. aret fileUpload)))))))"

text \<open>Results arrive in the order of the schedule and are put at their indices.\<close>

definition capture :: "('s, 'a) act \<Rightarrow> ('s, 'a option \<times> go_error option) act" where
  "capture m s = (case m s of (Ok x, s') \<Rightarrow> (Ok (Some x, None), s') | (Err e, s') \<Rightarrow> (Ok (None, Some e), s') | (Panic, s') \<Rightarrow> (Panic, s'))"

definition CreateFileUploads ::
  "prims \<Rightarrow> dag_lib \<Rightarrow> ('s, 'c) api \<Rightarrow> ('cl, 'conn, 'http) MultiUpload \<Rightarrow> nat list \<Rightarrow> CreateFileUploadParam list \<Rightarrow>
   ('s, CreateFileUploadResult list) act" where
  "CreateFileUploads P lib A m sched params =
     (if params = [] then sdk_fail ''no files to upload''
      else if name_errors params \<noteq> [] then afail (ErrJoin (name_errors params))
      else
        abind (amap (\<lambda>i. abind (capture (create_one P lib A (mu_ipcSDK m) (params ! i))) (\<lambda>r. aret (i, r))) sched) (\<lambda>rs.
        aret (place \<lparr>cfr_BucketName = [], cfr_FileName = [], cfr_FileUpload = None, cfr_Error = None\<rparr> (length params)
          (map (\<lambda>(i, up, err). (i, \<lparr>cfr_BucketName = cfp_BucketName (params ! i), cfr_FileName = cfp_FileName (params ! i),
             cfr_FileUpload = up, cfr_Error = err\<rparr>)) rs))))"

definition param_errors :: "UploadParam list \<Rightarrow> go_error list" where
  "param_errors params = concat (map (\<lambda>(i, p).
     (if up_FileUpload p = None then [errSDK (ErrNew (''nil FileUpload at index '' @ format_int (int i)))] else []) @
     (if up_Reader p = None then [errSDK (ErrNew (''nil Reader at index '' @ format_int (int i)))] else []))
     (enumerate 0 params))"

text \<open>
  \<open>Upload\<close> with the single-file upload as an argument; it returns the results and the states the uploads are left in.
  An upload that did not finish under its schedule leaves no result; a panic ends the program.
\<close>

fun upload_files ::
  "(IPCFileUpload \<Rightarrow> byte_reader \<Rightarrow> 's \<Rightarrow> 's upload_result) \<Rightarrow> UploadParam list \<Rightarrow> nat list \<Rightarrow> 's \<Rightarrow>
   ((nat \<times> IPCFileMetaV2 outcome \<times> IPCFileUpload) list \<times> 's) option" where
  "upload_files single params [] s = Some ([], s)"
| "upload_files single params (i # is) s =
     (case single (the (up_FileUpload (params ! i))) (the (up_Reader (params ! i))) s of
        None \<Rightarrow> None
      | Some (r, fu, s') \<Rightarrow>
          if r = Panic then Some ([(i, r, fu)], s')
          else (case upload_files single params is s' of
             None \<Rightarrow> None
           | Some (rs, s'') \<Rightarrow> Some ((i, r, fu) # rs, s'')))"

definition upload_entry :: "UploadParam list \<Rightarrow> nat \<times> IPCFileMetaV2 outcome \<times> IPCFileUpload \<Rightarrow> nat \<times> UploadResult" where
  "upload_entry params r =
     (case r of (i, res, fu) \<Rightarrow>
        (i, \<lparr>ur_BucketName = fu_BucketName (the (up_FileUpload (params ! i))), ur_FileName = fu_Name (the (up_FileUpload (params ! i))),
             ur_Meta = (case res of Ok meta \<Rightarrow> Some meta | _ \<Rightarrow> None),
             ur_Error = (case res of Err e \<Rightarrow> Some e | _ \<Rightarrow> None)\<rparr>))"

definition MultiUpload_Upload ::
  "(IPCFileUpload \<Rightarrow> byte_reader \<Rightarrow> 's \<Rightarrow> 's upload_result) \<Rightarrow> nat list \<Rightarrow> UploadParam list \<Rightarrow> 's \<Rightarrow>
   (UploadResult list outcome \<times> 's) option" where
  "MultiUpload_Upload single sched params s =
     (if params = [] then Some (Err (errSDK (ErrNew ''no files to upload'')), s)
      else if param_errors params \<noteq> [] then Some (Err (ErrJoin (param_errors params)), s)
      else
        (case upload_files single params sched s of
           None \<Rightarrow> None
         | Some (rs, s') \<Rightarrow>
             if \<exists>(i, r, fu) \<in> set rs. r = Panic then Some (Panic, s')
             else Some (Ok (place \<lparr>ur_BucketName = [], ur_FileName = [], ur_Meta = None, ur_Error = None\<rparr> (length params)
                    (map (upload_entry params) rs)), s')))"

definition IPC_Upload ::
  "(IPCFileUpload \<Rightarrow> byte_reader \<Rightarrow> 's \<Rightarrow> 's upload_result) \<Rightarrow> IPCFileUpload option \<Rightarrow> byte_reader option \<Rightarrow> 's \<Rightarrow>
   (IPCFileMetaV2 outcome \<times> 's) option" where
  "IPC_Upload single fileUpload reader s =
     (case MultiUpload_Upload single [0] [\<lparr>up_FileUpload = fileUpload, up_Reader = reader\<rparr>] s of
        None \<Rightarrow> None
      | Some (Ok results, s') \<Rightarrow>
          (case ur_Error (results ! 0) of
             Some e \<Rightarrow> Some (Err e, s')
           | None \<Rightarrow> (case ur_Meta (results ! 0) of Some meta \<Rightarrow> Some (Ok meta, s') | None \<Rightarrow> Some (Panic, s')))
      | Some (Err e, s') \<Rightarrow> Some (Err e, s')
      | Some (Panic, s') \<Rightarrow> Some (Panic, s'))"

section \<open>A committed file\<close>

lemma upload_bind_Ok:
  "upload_bind fu m s k = Some (Ok y, fu', s'') \<longleftrightarrow> (\<exists>x s'. m s = (Ok x, s') \<and> k x s' = Some (Ok y, fu', s''))"
  by (auto simp: upload_bind_def split: prod.splits outcome.splits)

lemma commit_file_Ok:
  assumes "commit_file lib clib eth A sdk fuel bucketId fu s = Some (Ok meta, fu', s')"
  shows "\<exists>root. Build lib (us_dagRoot (fu_state fu)) = Ok root \<and> fm2_RootCID meta = cid_String clib root \<and>
    fm2_Size meta = us_actualFileSize (fu_state fu) \<and> fm2_EncodedSize meta = us_encodedFileSize (fu_state fu) \<and>
    fm2_Name meta = fu_Name fu \<and> fu' = fu\<lparr>fu_state := (fu_state fu)\<lparr>us_isCommitted := True\<rparr>\<rparr>"
  using assms by (auto simp: commit_file_def upload_bind_Ok Let_def split: option.splits)

lemma createChunkUpload_sizes:
  assumes "createChunkUpload P lib clib A sdk index key data bucketID fileName s = (Ok cu, s')"
  shows "cu_ActualSize cu = of_nat (slen data) \<and> cu_Index cu = index"
  using assms
  by (auto simp: createChunkUpload_def Let_def abind_Ok_iff unexpected_blocks_def sdk_fail_def split: if_splits prod.splits)

lemma createChunkUpload2_sizes:
  assumes "createChunkUpload2 P lib clib A e index key data bucketID fileName s = (Ok cd, s')"
  shows "cu_ActualSize (cdt_ChunkUpload cd) = of_nat (slen data) \<and> cu_Index (cdt_ChunkUpload cd) = index"
  using assms
  by (auto simp: createChunkUpload2_def Let_def abind_Ok_iff unexpected_blocks_def sdk_fail_def split: if_splits prod.splits)

definition creates_sized :: "'s pipe_env \<Rightarrow> bool" where
  "creates_sized E \<longleftrightarrow> (\<forall>i bs s cd s'. pe_create E i bs s = (Ok cd, s') \<longrightarrow>
     cu_ActualSize (cdt_ChunkUpload cd) = of_nat (length bs) \<and> cu_Index (cdt_ChunkUpload cd) = i)"

lemma sum_of_nat_lengths: "sum_list (map (\<lambda>x. of_nat (length x)) xs) = (of_nat (length (concat xs)) :: 64 word)"
  by (induction xs) simp_all

text \<open>What the state of an upload says when the pipeline has ended: \<open>n\<close> is the size of a chunk.\<close>

definition full_upload :: "nat \<Rightarrow> byte list \<Rightarrow> IPCFileChunkUploadV2 list \<Rightarrow> uploadState \<Rightarrow> bool" where
  "full_upload n data cs us \<longleftrightarrow> map cu_Index cs = map int [0..<length (chunks n data)] \<and>
     us_actualFileSize us = of_nat (length data) \<and> us_encodedFileSize us = sum_list (map cu_EncodedSize cs) \<and>
     root_links (us_dagRoot us) = map chunk_link cs"

lemma pipeline_full:
  assumes inv: "pipe_inv E fu data es st" and "all_done st" and fu: "NewIPCFileUpload lib b name = Ok fu"
    and lib: "\<forall>ls l. AddRawLink lib ls l = Ok ()" and E: "pe_lib E = lib" "0 < pe_bufSize E" "creates_sized E"
  shows "\<exists>cs. full_upload (pe_bufSize E) data cs (the_state st)"
proof -
  let ?ps = "chunks (pe_bufSize E) data"
  obtain cds :: "ChunkData list" where cds: "uploaded es = map cdt_ChunkUpload cds" "registered es = uploaded es" "length cds = length ?ps"
    "\<And>i. i < length cds \<Longrightarrow> \<exists>s s'. pe_create E (int i) (?ps ! i) s = (Ok (cds ! i), s')"
    "the_state st = fold (apply_event (pe_lib E)) (history es) (fu_state fu)"
    using complete_inv [OF assms(1,2) E(2)] by auto
  have sized: "cu_ActualSize (cdt_ChunkUpload (cds ! i)) = of_nat (length (?ps ! i)) \<and> cu_Index (cdt_ChunkUpload (cds ! i)) = int i"
    if "i < length cds" for i using cds(4) [OF that] E(3) unfolding creates_sized_def by blast
  have sizes: "map cu_ActualSize (registered es) = map (\<lambda>p. of_nat (length p)) ?ps"
    using cds(1-3) sized by (intro nth_equalityI) auto
  have "map cu_Index (registered es) = map int [0..<length ?ps]"
    using cds(1-3) sized by (intro nth_equalityI) auto
  moreover have "records_history [] (fu_state fu)"
    using fu by (auto simp: NewIPCFileUpload_def NewDAGRoot_def obind_Ok_iff records_history_def pending_def)
  from records_history_run [OF lib this, of "history es"] have "records_history (history es) (the_state st)"
    by (simp add: cds(5) E(1))
  then have "us_actualFileSize (the_state st) = sum_list (map cu_ActualSize (registered es))"
    "us_encodedFileSize (the_state st) = sum_list (map cu_EncodedSize (registered es))"
    "root_links (us_dagRoot (the_state st)) = map chunk_link (registered es)"
    by (simp_all add: records_history_def registered_def)
  moreover have "sum_list (map cu_ActualSize (registered es)) = of_nat (length data)"
    unfolding sizes sum_of_nat_lengths using E(2) by simp
  ultimately show ?thesis unfolding full_upload_def by (intro exI [of _ "registered es"]) simp
qed

lemma pipeline_committed:
  assumes run: "run_pipeline E sched fu reader s (commit_file lib clib eth A sdk fuel bucketId) = Some (Ok meta, fu', s')"
    and fu: "NewIPCFileUpload lib b name = Ok fu" and lib: "\<forall>ls l. AddRawLink lib ls l = Ok ()"
    and E: "pe_lib E = lib" "\<not> pe_resuming E" "0 < pe_bufSize E" "creates_sized E"
  shows "\<exists>cs root. map cu_Index cs = map int [0..<length (chunks (pe_bufSize E) (rd_rest reader))] \<and>
    fm2_Size meta = of_nat (length (rd_rest reader)) \<and> fm2_EncodedSize meta = sum_list (map cu_EncodedSize cs) \<and>
    us_isCommitted (fu_state fu') \<and> root_links (us_dagRoot (fu_state fu')) = map chunk_link cs \<and>
    Build lib (us_dagRoot (fu_state fu')) = Ok root \<and> fm2_RootCID meta = cid_String clib root"
proof -
  obtain st es where r: "run_schedule E sched (init_pipeline fu reader s) = (st, es)" by (metis prod.collapse)
  then obtain n where pr: "pipeline_run E (init_pipeline fu reader s) es n st" using schedule_runs [OF runs.start r] by auto
  have st: "all_done st" "pl_result st = Ok ()"
    "commit_file lib clib eth A sdk fuel bucketId (pl_upload st) (pl_world st) = Some (Ok meta, fu', s')"
    using run by (auto simp: run_pipeline_def r split: if_splits outcome.splits)
  have "pipe_inv E fu (rd_rest reader) es st" using run_pipeline_inv [OF pr st(2) _ E(2,3)] lib E(1) by simp
  then obtain cs where "full_upload (pe_bufSize E) (rd_rest reader) cs (the_state st)"
    using pipeline_full [OF _ st(1) fu lib E(1,3,4)] by blast
  then show ?thesis using commit_file_Ok [OF st(3)] by (auto simp: full_upload_def)
qed

lemma upload_env_simps [simp]:
  "pe_lib (upload_env A lib clib K sdk bs create n b fu) = lib" "pe_create (upload_env A lib clib K sdk bs create n b fu) = create"
  "pe_bufSize (upload_env A lib clib K sdk bs create n b fu) = n"
  "pe_resuming (upload_env A lib clib K sdk bs create n b fu) = (us_chunkCount (fu_state fu) > 0)"
  by (simp_all add: upload_env_def)

lemma new_upload_fresh: "NewIPCFileUpload lib b name = Ok fu \<Longrightarrow> us_chunkCount (fu_state fu) = 0"
  by (auto simp: NewIPCFileUpload_def obind_Ok_iff)

lemma bufferSize_pos:
  assumes "2 \<le> ipc_maxBlocksInChunk sdk" and "\<forall>ec. ipc_ec sdk = Some ec \<longrightarrow> 0 < DataBlocks ec"
  shows "0 < nat (fst (calculateBufferSizeAndCapacity sdk key))"
  using assms by (auto simp: calculateBufferSizeAndCapacity_def Let_def BlockSize_def MB_def Overhead_def split: option.splits)

section \<open>Properties\<close>


section \<open>An example\<close>

text \<open>A node and a chain that accept everything, and a key whose signatures are constant.\<close>

definition accepting_api :: "(byte list, unit) api" where
  "accepting_api = serving_api\<lparr>
     st_GetBucketByName := (\<lambda>n. aret \<lparr>stb_Id = [9], stb_Name = n, stb_CreatedAt = 7\<rparr>),
     st_GetFileByName := (\<lambda>_ n. aret \<lparr>stf_Id = [8], stf_CreatedAt = 7\<rparr>), st_IsFileFilled := (\<lambda>_. aret True),
     st_AddFileChunks := (\<lambda>_ _ _ _ _ _ _ _. aret [1]), st_CommitFile := (\<lambda>_ _ _ _ _. aret [2]),
     st_WaitForTx := (\<lambda>_. aret ()), cl_FileUploadBlock := (\<lambda>_. aret ()), snd_Send := (\<lambda>_ m s. (Ok (), s @ pbd_Data m)),
     snd_CloseAndRecv := (\<lambda>_. aret ())\<rparr>"

definition sample_key_lib :: "byte key_lib" where
  "sample_key_lib = \<lparr>key_eth = sample_eth_lib, ToECDSA = (\<lambda>k. Ok 5), peer_Decode = (\<lambda>s. Ok (bytes_of s)),
     peer_MarshalBinary = (\<lambda>p. Ok (replicate 38 0))\<rparr>"

lemma accepted_chunk:
  "\<exists>cd b. create_chunk sample_prims (sample_dag_lib sample_prims) (sample_cid_lib sample_prims) accepting_api (sample_ipc [] None)
      [] 2000000 [9] ''f'' 0 [1, 2, 3] [] = (Ok cd, []) \<and>
    cu_Index (cdt_ChunkUpload cd) = 0 \<and> cu_Blocks (cdt_ChunkUpload cd) = [b] \<and> bu_Data b = leaf_bytes [1, 2, 3] \<and>
    bu_CID b = string_of (sha256_cid sample_prims (leaf_bytes [1, 2, 3]))"
proof -
  let ?data = "\<lparr>sarr = [1, 2, 3] @ replicate (2000000 - length [1, 2, 3 :: byte]) 0, slen = length [1, 2, 3 :: byte]\<rparr>"
  obtain cu b where cu: "createChunkUpload sample_prims (sample_dag_lib sample_prims) (sample_cid_lib sample_prims) accepting_api
      (sample_ipc [] None) 0 [] ?data [9] ''f'' [] = (Ok cu, [])" "cu_Index cu = 0" "cu_Blocks cu = [b]"
      "bu_Data b = leaf_bytes [1, 2, 3]" "bu_CID b = string_of (sha256_cid sample_prims (leaf_bytes [1, 2, 3]))"
    using sample_chunk_upload [of ?data accepting_api "[]"] by (auto simp: contents_def accepting_api_def)
  have "\<exists>x. toIPCProtoChunk (sample_cid_lib sample_prims) (cid_String (sample_cid_lib sample_prims) (cu_ChunkCID cu)) 0
      (cu_ActualSize cu) [b] = Ok x"
    using cu(5) by (simp add: toIPCProtoChunk_def sample_cid_lib_def slice_from_def)
  then show ?thesis using cu by (auto simp: create_chunk_def abind_def alift_def aret_def)
qed

lemma send_parts_accepted:
  assumes "0 < part"
  shows "send_parts (\<lambda>_. None) (\<lambda>m s. (Ok (), s @ pbd_Data m)) part data i block s = (Ok (), s @ drop i data)"
proof (induction "length data - i" arbitrary: i block s rule: less_induct)
  case less
  show ?case
  proof (cases "i < length data")
    case True
    have "window i (min (i + part) (length data) - i) data @ drop (i + part) data = drop i data"
      by (simp add: window_def min_def) (metis append_take_drop_id drop_drop add.commute)
    then show ?thesis using True less [of "i + part"] assms
      by (simp add: send_parts.simps [of _ _ _ _ i] Let_def abind_def)
  qed (simp add: send_parts.simps aret_def)
qed

definition count_blocks :: "dataCounters \<Rightarrow> FileBlockUpload list \<Rightarrow> dataCounters" where
  "count_blocks = foldl (\<lambda>d b. d\<lparr>blocksCounter := blocksCounter d + 1, bytesCounter := bytesCounter d + int (length (bu_Data b))\<rparr>)"

lemma accepted_block:
  assumes "bu_CID b = string_of (sha256_cid sample_prims x)"
  shows "upload_block accepting_api (sample_cid_lib sample_prims) sample_key_lib (sample_ipc key ec) c pc 5 cc False i b (d, s) =
    (Ok (), (count_blocks d [b], s @ bu_Data b))"
proof -
  have sign: "SignBlock sample_eth_lib 5 ''0xab'' 1 d = Ok (replicate 64 5 @ [28])" for d
    by (simp add: SignBlock_def Sign_def sample_eth_lib_def adjust_v_def list_update_append nth_append)
  have seg: "uploadIPCBlockSegments accepting_api (sample_ipc key ec) (snd_Send accepting_api ()) m s = (Ok (), s @ pbd_Data m)"
    for m s by (simp add: uploadIPCBlockSegments_def accepting_api_def serving_api_def failing_api_def send_parts_accepted aret_def)
  have api: "pool_IPCClient accepting_api = (\<lambda>_. aret ())" "cl_FileUploadBlock accepting_api = (\<lambda>_. aret ())"
    "snd_CloseAndRecv accepting_api = (\<lambda>_. aret ())" "time_Now accepting_api = (\<lambda>_. 0)" "rand_Reader accepting_api = (\<lambda>s. (Ok (\<lambda>_. 0), s))"
    by (simp_all add: accepting_api_def serving_api_def failing_api_def)
  have cids: "cid_Decode (sample_cid_lib sample_prims) = (\<lambda>s. Ok (bytes_of s))" by (simp add: sample_cid_lib_def)
  have ipc: "ipc_storageAddress (sample_ipc key ec) = ''0xab''" "ipc_chainID (sample_ipc key ec) = 1" by (simp_all add: sample_ipc_def)
  have keys: "key_eth sample_key_lib = sample_eth_lib" "peer_Decode sample_key_lib = (\<lambda>s. Ok (bytes_of s))"
    "peer_MarshalBinary sample_key_lib = (\<lambda>p. Ok (replicate 38 0))" by (simp_all add: sample_key_lib_def)
  have "\<exists>n. GenerateNonce (Ok (\<lambda>_. 0)) = Ok n" by (simp add: GenerateNonce_def read_full_def)
  then obtain n where n: "GenerateNonce (Ok (\<lambda>_. 0)) = Ok n" ..
  show ?thesis
    using assms n
    by (simp add: upload_block_def finish_block_def slice_from_def abind_def alift_def world_def amap_err_def with_rand_def
      api cids keys ipc sign seg aret_def count_block_def count_blocks_def)
qed

lemma accepted_upload:
  assumes "\<forall>b \<in> set (cu_Blocks c). \<exists>x. bu_CID b = string_of (sha256_cid sample_prims x)"
  shows "uploadChunk accepting_api (sample_cid_lib sample_prims) sample_key_lib (sample_ipc key ec) [0..<length (cu_Blocks c)] False c (d, s) =
    (Ok (), (count_blocks d (cu_Blocks c), s @ concat (map bu_Data (cu_Blocks c))))"
proof -
  let ?cl = "sample_cid_lib sample_prims"
  have blocks: "\<exists>us. group_collect cancel (\<lambda>i. upload_block accepting_api ?cl sample_key_lib (sample_ipc key ec) c pc 5 cc False i
      (cu_Blocks c ! i)) [k..<length (cu_Blocks c)] (d, s) =
      (Ok us, (count_blocks d (drop k (cu_Blocks c)), s @ concat (map bu_Data (drop k (cu_Blocks c)))))"
    for cancel pc cc k d s
  proof (induction "length (cu_Blocks c) - k" arbitrary: k d s)
    case 0
    then show ?case by (simp add: aret_def count_blocks_def)
  next
    case (Suc m)
    then have k: "k < length (cu_Blocks c)" by simp
    then obtain x where "bu_CID (cu_Blocks c ! k) = string_of (sha256_cid sample_prims x)" using assms by force
    note b = accepted_block [OF this, of key ec c pc cc k d s]
    have "m = length (cu_Blocks c) - Suc k" using Suc.hyps(2) by simp
    from Suc.hyps(1) [OF this, of "count_blocks d [cu_Blocks c ! k]" "s @ bu_Data (cu_Blocks c ! k)"] b
    moreover have "drop k (cu_Blocks c) = cu_Blocks c ! k # drop (Suc k) (cu_Blocks c)" using k by (simp add: Cons_nth_drop_Suc)
    ultimately show ?case using k by (auto simp: upt_conv_Cons count_blocks_def)
  qed
  have k: "hex_decode ''05'' = Ok [5]" by code_simp
  have "omap (\<lambda>block. obind (map_err errSDK (cid_Decode ?cl (bu_CID block))) (\<lambda>c.
      obind (slice_from 4 c) (\<lambda>tail. Ok (to_bytes32 tail)))) (cu_Blocks c) =
    Ok (map (\<lambda>b. to_bytes32 (drop 4 (bytes_of (bu_CID b)))) (cu_Blocks c))"
    by (rule omap_all_Ok) (use assms in \<open>fastforce simp: sample_cid_lib_def slice_from_def\<close>)
  then obtain x y z where z: "toIPCProtoChunk ?cl (cid_String ?cl (cu_ChunkCID c)) (cu_Index c) (cu_ActualSize c) (cu_Blocks c) = Ok (x, y, z)"
    by (auto simp: toIPCProtoChunk_def Let_def)
  obtain us where us: "group_collect (cancel_counted accepting_api) (\<lambda>i. upload_block accepting_api ?cl sample_key_lib (sample_ipc key ec) c z 5
      (bytes_of (pc_Cid z)) False i (cu_Blocks c ! i)) [0..<length (cu_Blocks c)] (d, s) =
      (Ok us, (count_blocks d (cu_Blocks c), s @ concat (map bu_Data (cu_Blocks c))))"
    using blocks [of "cancel_counted accepting_api" z "bytes_of (pc_Cid z)" 0 d s] by auto
  have "cid_Decode ?cl s = Ok (bytes_of s)" for s by (simp add: sample_cid_lib_def)
  moreover have "ToECDSA sample_key_lib k = Ok 5" for k by (simp add: sample_key_lib_def)
  moreover have "ipc_privateKey (sample_ipc key ec) = ''05''" by (simp add: sample_ipc_def)
  ultimately show ?thesis
    using k z us by (simp add: uploadChunk_def abind_def alift_def amap_err_def aret_def del: hex_decode.simps)
qed

lemma retry_aret: "retry_act w env retryable (aret x) s = (Ok x, s)"
  by (rule retry_act_first) (simp add: aret_def)

lemma sample_schedule_unfold:
  "sample_schedule = (let r = [Run Producer, Run Waiter, Run Uploader]; r4 = r @ r @ r @ r in r4 @ r4 @ r4 @ r4)"
  by (simp add: sample_schedule_def numeral_eq_Suc)

abbreviation "three_bytes \<equiv> \<lparr>rd_data = [1, 2, 3], rd_pos = 0, rd_end = reader_EOF, rd_seek = None\<rparr>"

lemma accepted_pipeline:
  assumes "pe_lib E = sample_dag_lib sample_prims" and "pe_create E 0 [1, 2, 3] [] = (Ok cd, [])"
    and "cu_Index (cdt_ChunkUpload cd) = 0" and "\<And>s. pe_batch E [cd] s = (Ok [1], s)" and "pe_wait E = (\<lambda>_. aret ())"
    and "\<And>d s. pe_chunk E (cdt_ChunkUpload cd) (d, s) = (Ok (), (count d, s @ x))"
    and "pe_ctx E = (\<lambda>_. None)" and "pe_cancel E = (\<lambda>s. s)" and "3 < pe_bufSize E" and "pe_batchSize E = 1" and "pe_chunkBuffer E = 0"
    and "\<not> pe_resuming E"
  shows "case run_schedule E sample_schedule (init_pipeline sample_upload three_bytes []) of (st, es) \<Rightarrow>
    all_done st \<and> pl_result st = Ok () \<and> fu_Name (pl_upload st) = ''f'' \<and> pl_world st = x \<and>
    root_links (us_dagRoot (fu_state (pl_upload st))) \<noteq> [] \<and> uploaded es = [cdt_ChunkUpload cd]"
proof -
  have link: "AddRawLink (sample_dag_lib sample_prims) ls l = Ok ()" for ls l by (simp add: sample_dag_lib_def)
  show ?thesis using assms link
    by (simp add: sample_schedule_unfold init_pipeline_def producer_step_def waiter_step_def uploader_step_def
      read_chunk_def register_batch_def call_def Let_def readUpTo_def reader_ReadFull_def rd_rest_def
      all_done_def set_state_def sample_upload_def ErrUnexpectedEOF_def reader_EOF_def preCreateChunk_def AddLink_def chunkUploaded_def)
qed

text \<open>The upload of the example in the first format.\<close>

abbreviation "accepting_env \<equiv> upload_env accepting_api (sample_dag_lib sample_prims) (sample_cid_lib sample_prims) sample_key_lib
  (sample_ipc [] None) (\<lambda>c. [0..<length (cu_Blocks c)])
  (create_chunk sample_prims (sample_dag_lib sample_prims) (sample_cid_lib sample_prims) accepting_api (sample_ipc [] None) [] 2000000 [9] ''f'')
  2000000 [9] sample_upload"

lemma accepted_env:
  fixes create n key ec
  defines "E \<equiv> upload_env accepting_api (sample_dag_lib sample_prims) (sample_cid_lib sample_prims) sample_key_lib (sample_ipc key ec)
    (\<lambda>c. [0..<length (cu_Blocks c)]) create n [9] sample_upload"
  assumes "create 0 [1, 2, 3] [] = (Ok cd, [])" and "cu_Index (cdt_ChunkUpload cd) = 0" and "3 < n"
    and "\<forall>b \<in> set (cu_Blocks (cdt_ChunkUpload cd)). \<exists>x. bu_CID b = string_of (sha256_cid sample_prims x)"
  shows "case run_schedule E sample_schedule (init_pipeline sample_upload three_bytes []) of (st, es) \<Rightarrow>
    all_done st \<and> pl_result st = Ok () \<and> fu_Name (pl_upload st) = ''f'' \<and>
    pl_world st = concat (map bu_Data (cu_Blocks (cdt_ChunkUpload cd))) \<and>
    root_links (us_dagRoot (fu_state (pl_upload st))) \<noteq> [] \<and> uploaded es = [cdt_ChunkUpload cd]"
proof (rule accepted_pipeline)
  show "pe_chunk E (cdt_ChunkUpload cd) (d, s) =
      (Ok (), (count_blocks d (cu_Blocks (cdt_ChunkUpload cd)), s @ concat (map bu_Data (cu_Blocks (cdt_ChunkUpload cd)))))" for d s
    using accepted_upload [OF assms(5)] by (simp add: E_def upload_env_def sample_upload_def)
  show "pe_batch E [cd] s = (Ok [1], s)" for s
    by (simp add: E_def upload_env_def createBatchedChunkTransaction_def Let_def retry_tx_def amap_err_def accepting_api_def retry_aret)
qed (use assms(2-4) in \<open>simp_all add: E_def upload_env_def accepting_api_def serving_api_def failing_api_def sample_upload_def sample_ipc_def fun_eq_iff\<close>)

lemma accepted_sample:
  obtains st es c b where "run_schedule accepting_env sample_schedule (init_pipeline sample_upload three_bytes []) = (st, es)"
    and "all_done st" and "pl_result st = Ok ()" and "fu_Name (pl_upload st) = ''f''" and "pl_world st = leaf_bytes [1, 2, 3]"
    and "root_links (us_dagRoot (fu_state (pl_upload st))) \<noteq> []" and "uploaded es = [c]" and "cu_Blocks c = [b]"
    and "bu_Data b = leaf_bytes [1, 2, 3]" and "bu_CID b = string_of (sha256_cid sample_prims (leaf_bytes [1, 2, 3]))"
proof -
  obtain cd b where cd: "create_chunk sample_prims (sample_dag_lib sample_prims) (sample_cid_lib sample_prims) accepting_api (sample_ipc [] None)
      [] 2000000 [9] ''f'' 0 [1, 2, 3] [] = (Ok cd, [])"
    "cu_Index (cdt_ChunkUpload cd) = 0" "cu_Blocks (cdt_ChunkUpload cd) = [b]" "bu_Data b = leaf_bytes [1, 2, 3]"
    "bu_CID b = string_of (sha256_cid sample_prims (leaf_bytes [1, 2, 3]))"
    using accepted_chunk by blast
  obtain st es where run: "run_schedule accepting_env sample_schedule (init_pipeline sample_upload three_bytes []) = (st, es)" by fastforce
  moreover have "case run_schedule accepting_env sample_schedule (init_pipeline sample_upload three_bytes []) of (st, es) \<Rightarrow>
    all_done st \<and> pl_result st = Ok () \<and> fu_Name (pl_upload st) = ''f'' \<and>
    pl_world st = concat (map bu_Data (cu_Blocks (cdt_ChunkUpload cd))) \<and>
    root_links (us_dagRoot (fu_state (pl_upload st))) \<noteq> [] \<and> uploaded es = [cdt_ChunkUpload cd]"
    by (rule accepted_env [where create = "create_chunk sample_prims (sample_dag_lib sample_prims) (sample_cid_lib sample_prims) accepting_api
      (sample_ipc [] None) [] 2000000 [9] ''f''", OF cd(1,2)]) (use cd(3,5) in auto)
  ultimately show ?thesis using cd(3-5) that by simp
qed

lemma accepted_file:
  "\<exists>meta fu'. uploadSingleFile sample_prims (sample_dag_lib sample_prims) (sample_cid_lib sample_prims) sample_key_lib accepting_api
      (sample_ipc [] None) (\<lambda>c. [0..<length (cu_Blocks c)]) sample_schedule 1 sample_upload three_bytes [] = Some (Ok meta, fu', leaf_bytes [1, 2, 3])"
proof -
  let ?dl = "sample_dag_lib sample_prims" and ?cl = "sample_cid_lib sample_prims"
  obtain st es where run: "run_schedule accepting_env sample_schedule (init_pipeline sample_upload three_bytes []) = (st, es)" and
    st: "all_done st" "pl_result st = Ok ()" "fu_Name (pl_upload st) = ''f''" "pl_world st = leaf_bytes [1, 2, 3]"
    "root_links (us_dagRoot (fu_state (pl_upload st))) \<noteq> []"
    using accepted_sample by blast
  have api: "st_GetBucketByName accepting_api n = aret \<lparr>stb_Id = [9], stb_Name = n, stb_CreatedAt = 7\<rparr>"
    "st_GetFileByName accepting_api i n = aret \<lparr>stf_Id = [8], stf_CreatedAt = 7\<rparr>" "st_IsFileFilled accepting_api i = aret True"
    "st_CommitFile accepting_api i n x y r = aret [2]" "st_WaitForTx accepting_api h = aret ()" for n i x y r h
    by (simp_all add: accepting_api_def)
  have pos: "calculateBufferSizeAndCapacity (sample_ipc [] None) [] = (2000000, 2000000)"
    by (simp add: calculateBufferSizeAndCapacity_def Let_def BlockSize_def MB_def) (simp add: sample_ipc_def)
  have key: "encryptionKey sample_prims [] info = Ok []" for info by (simp add: encryptionKey_def)
  have "\<exists>root. Build ?dl d = Ok root" if "root_links d \<noteq> []" for d
    using that by (auto simp: Build_def sample_dag_lib_def split: list.splits)
  then obtain root where root: "Build ?dl (us_dagRoot (fu_state (pl_upload st))) = Ok root" using st(5) by blast
  have "\<exists>meta fu'. commit_file ?dl ?cl sample_eth_lib accepting_api (sample_ipc [] None) 1 [9] (pl_upload st) (leaf_bytes [1, 2, 3]) =
      Some (Ok meta, fu', leaf_bytes [1, 2, 3])"
    by (simp add: commit_file_def upload_bind_def root st Let_def retry_read_def retry_tx_def amap_err_def api retry_aret alift_def)
  moreover have "key_eth sample_key_lib = sample_eth_lib" by (simp add: sample_key_lib_def)
  moreover have "fu_Name sample_upload = ''f''" "\<not> us_isCommitted (fu_state sample_upload)" by (simp_all add: sample_upload_def)
  moreover have "ipc_encryptionKey (sample_ipc [] None) = []" by simp
  ultimately show ?thesis using st
    by (simp add: uploadSingleFile_def upload_bind_def key retry_read_def amap_err_def api
       retry_aret alift_def pos run_pipeline_def run)
qed


end
