(* ===== verification/DownloadPipeline.thy ===== *)
theory DownloadPipeline
  imports FileUpload
begin

text \<open>
  Downloading a file: \<open>IPC.Download\<close> and \<open>IPC.DownloadArchival\<close> (\<open>sdk/sdk_ipc.go\<close>), \<open>IPC.Download2\<close>
  (\<open>sdk/sdk_ipc_upload_download2.go\<close>). Two goroutines: the creator asks the node for each chunk and sends the
  answer on a channel of \<open>chunkBuffer\<close> places; the processor fetches, decodes and writes the chunks it receives.

  As for the upload, \<open>download_run\<close> interleaves the steps of the goroutines in any order, and \<open>run_downloads\<close> runs one
  schedule. The properties: chunks are written in the order of the file, each at most once, and all of them when the
  download succeeds; every run ends after at most four steps per chunk and three more, without a deadlock.
\<close>

section \<open>State\<close>

datatype creator = Creating "Chunk list" | Offering FileChunkDownload "Chunk list" | CreatorDone

datatype processor = ProcessorIdle | Processing FileChunkDownload | ProcessorDone

record 's downloader =
  de_create :: "Chunk \<Rightarrow> ('s, FileChunkDownload) act"
  de_process :: "FileChunkDownload \<Rightarrow> ('s counted, unit) act"
  de_cancel :: "'s \<Rightarrow> 's"
  de_ctx :: "'s \<Rightarrow> go_error option"
  de_chunkBuffer :: nat

record 's downloading =
  dw_world :: 's
  dw_counters :: dataCounters
  dw_creator :: creator
  dw_queue :: "FileChunkDownload list"
  dw_processor :: processor
  dw_result :: "unit outcome"

datatype download_event = Requested Chunk FileChunkDownload | Written FileChunkDownload

datatype download_choice = Create | Process | StopCreator | StopProcessor

section \<open>Steps\<close>

text \<open>The first error is kept and cancels the context.\<close>

definition fail_download :: "'s downloader \<Rightarrow> go_error \<Rightarrow> 's downloading \<Rightarrow> 's downloading" where
  "fail_download E e st =
     (case dw_result st of Ok _ \<Rightarrow> st\<lparr>dw_result := Err e, dw_world := de_cancel E (dw_world st)\<rparr> | _ \<Rightarrow> st)"

definition download_ctx :: "'s downloader \<Rightarrow> 's downloading \<Rightarrow> go_error option" where
  "download_ctx E st =
     (case dw_result st of Err _ \<Rightarrow> Some (ErrNew ''context canceled'') | _ \<Rightarrow> de_ctx E (dw_world st))"

definition creator_step :: "'s downloader \<Rightarrow> 's downloading \<Rightarrow> ('s downloading \<times> download_event list) option" where
  "creator_step E st =
     (case dw_creator st of
        Creating [] \<Rightarrow> Some (st\<lparr>dw_creator := CreatorDone\<rparr>, [])
      | Creating (c # cs) \<Rightarrow>
          (case download_ctx E st of
             Some e \<Rightarrow> Some ((fail_download E e st)\<lparr>dw_creator := CreatorDone\<rparr>, [])
           | None \<Rightarrow>
               (case de_create E c (dw_world st) of
                  (Ok dl, w) \<Rightarrow> Some (st\<lparr>dw_world := w, dw_creator := Offering dl cs\<rparr>, [Requested c dl])
                | (Err e, w) \<Rightarrow> Some ((fail_download E e (st\<lparr>dw_world := w\<rparr>))\<lparr>dw_creator := CreatorDone\<rparr>, [])
                | (Panic, w) \<Rightarrow> Some (st\<lparr>dw_world := w, dw_result := Panic\<rparr>, [])))
      | Offering dl cs \<Rightarrow>
          if length (dw_queue st) < de_chunkBuffer E
          then Some (st\<lparr>dw_queue := dw_queue st @ [dl], dw_creator := Creating cs\<rparr>, [])
          else if dw_queue st = [] \<and> dw_processor st = ProcessorIdle
          then Some (st\<lparr>dw_processor := Processing dl, dw_creator := Creating cs\<rparr>, [])
          else None
      | CreatorDone \<Rightarrow> None)"

definition processor_step :: "'s downloader \<Rightarrow> 's downloading \<Rightarrow> ('s downloading \<times> download_event list) option" where
  "processor_step E st =
     (case dw_processor st of
        ProcessorIdle \<Rightarrow>
          (case dw_queue st of
             dl # q \<Rightarrow> Some (st\<lparr>dw_queue := q, dw_processor := Processing dl\<rparr>, [])
           | [] \<Rightarrow> if dw_creator st = CreatorDone then Some (st\<lparr>dw_processor := ProcessorDone\<rparr>, []) else None)
      | Processing dl \<Rightarrow>
          (case de_process E dl (dw_counters st, dw_world st) of
             (Ok _, d, w) \<Rightarrow>
               Some (st\<lparr>dw_world := w, dw_counters := d\<lparr>chunksCounter := chunksCounter d + 1\<rparr>,
                       dw_processor := ProcessorIdle\<rparr>, [Written dl])
           | (Err e, d, w) \<Rightarrow>
               Some ((fail_download E e (st\<lparr>dw_world := w, dw_counters := d\<rparr>))\<lparr>dw_processor := ProcessorDone\<rparr>, [])
           | (Panic, d, w) \<Rightarrow> Some (st\<lparr>dw_world := w, dw_result := Panic\<rparr>, []))
      | ProcessorDone \<Rightarrow> None)"

text \<open>\<open>case <-ctx.Done()\<close> of the two \<open>select\<close> statements that wait.\<close>

definition stop_download :: "'s downloader \<Rightarrow> bool \<Rightarrow> 's downloading \<Rightarrow> ('s downloading \<times> download_event list) option" where
  "stop_download E creator st =
     (case download_ctx E st of
        None \<Rightarrow> None
      | Some e \<Rightarrow>
          if creator
          then (case dw_creator st of
                  Offering _ _ \<Rightarrow> Some ((fail_download E e st)\<lparr>dw_creator := CreatorDone\<rparr>, [])
                | _ \<Rightarrow> None)
          else if dw_processor st = ProcessorIdle
          then Some ((fail_download E e st)\<lparr>dw_processor := ProcessorDone\<rparr>, [])
          else None)"

definition download_step ::
  "'s downloader \<Rightarrow> download_choice \<Rightarrow> 's downloading \<Rightarrow> ('s downloading \<times> download_event list) option" where
  "download_step E c st =
     (if dw_result st = Panic then None
      else case c of
        Create \<Rightarrow> creator_step E st
      | Process \<Rightarrow> processor_step E st
      | StopCreator \<Rightarrow> stop_download E True st
      | StopProcessor \<Rightarrow> stop_download E False st)"

definition download_done :: "'s downloading \<Rightarrow> bool" where
  "download_done st \<longleftrightarrow> dw_creator st = CreatorDone \<and> dw_processor st = ProcessorDone"

abbreviation download_run :: "'s downloader \<Rightarrow> 's downloading \<Rightarrow> download_event list \<Rightarrow> nat \<Rightarrow> 's downloading \<Rightarrow> bool" where
  "download_run E \<equiv> runs (download_step E)"

abbreviation run_downloads :: "'s downloader \<Rightarrow> download_choice list \<Rightarrow> 's downloading \<Rightarrow> 's downloading \<times> download_event list" where
  "run_downloads E \<equiv> schedule (download_step E)"

definition init_download :: "dataCounters \<Rightarrow> Chunk list \<Rightarrow> 's \<Rightarrow> 's downloading" where
  "init_download d cs s = \<lparr>dw_world = s, dw_counters = d, dw_creator = Creating cs, dw_queue = [],
     dw_processor = ProcessorIdle, dw_result = Ok ()\<rparr>"

section \<open>The three downloads\<close>

type_synonym 's download_result = "(unit outcome \<times> dataCounters \<times> 's) option"

definition run_download ::
  "'s downloader \<Rightarrow> download_choice list \<Rightarrow> IPCFileDownload \<Rightarrow> 's \<Rightarrow> 's download_result" where
  "run_download E sched fd s =
     (case run_downloads E sched (init_download (fd_counters fd) (fd_Chunks fd) s) of (st, es) \<Rightarrow>
        if dw_result st = Panic \<or> download_done st then Some (dw_result st, dw_counters st, dw_world st) else None)"

definition download_env ::
  "('s, 'c) api \<Rightarrow> ('cl, 'conn, 'http) IPC \<Rightarrow> IPCFileDownload \<Rightarrow> (FileChunkDownload \<Rightarrow> ('s counted, unit) act) \<Rightarrow> 's downloader" where
  "download_env A sdk fd process =
     \<lparr>de_create = createChunkDownload A (fd_BucketName fd) (fd_Name fd), de_process = process,
      de_cancel = ctx_cancel A, de_ctx = ctx_err A, de_chunkBuffer = nat (ipc_chunkBuffer sdk)\<rparr>"

definition with_file_key ::
  "prims \<Rightarrow> ('cl, 'conn, 'http) IPC \<Rightarrow> IPCFileDownload \<Rightarrow> 's \<Rightarrow> (byte list \<Rightarrow> 's download_result) \<Rightarrow> 's download_result" where
  "with_file_key P sdk fd s k =
     (case encryptionKey P (ipc_encryptionKey sdk) [fd_BucketName fd, fd_Name fd] of
        Ok key \<Rightarrow> k key
      | Err e \<Rightarrow> Some (Err (errSDK e), fd_counters fd, s)
      | Panic \<Rightarrow> Some (Panic, fd_counters fd, s))"

definition Download ::
  "prims \<Rightarrow> wire_lib \<Rightarrow> cid_lib \<Rightarrow> ('s, 'c) api \<Rightarrow> ('cl, 'conn, 'http) IPC \<Rightarrow> (FileChunkDownload \<Rightarrow> nat list) \<Rightarrow>
   download_choice list \<Rightarrow> IPCFileDownload \<Rightarrow> (byte list \<Rightarrow> ('s, unit) act) \<Rightarrow> 's \<Rightarrow> 's download_result" where
  "Download P w clib A sdk blockSched sched fd writer s =
     with_file_key P sdk fd s (\<lambda>key.
       run_download (download_env A sdk fd (\<lambda>dl.
         downloadChunkBlocks P w clib A sdk (blockSched dl) (fd_BucketName fd) (fd_Name fd) (st_From A) dl key writer)) sched fd s)"

definition DownloadArchival ::
  "prims \<Rightarrow> wire_lib \<Rightarrow> cid_lib \<Rightarrow> ('s, 'c) api \<Rightarrow> ('cl, 'conn, 'http) IPC \<Rightarrow> (FileChunkDownload \<Rightarrow> nat list) \<Rightarrow>
   download_choice list \<Rightarrow> IPCFileDownload \<Rightarrow> (byte list \<Rightarrow> ('s, unit) act) \<Rightarrow> 's \<Rightarrow> 's download_result" where
  "DownloadArchival P w clib A sdk blockSched sched fd writer s =
     with_file_key P sdk fd s (\<lambda>key.
       run_download (download_env A sdk fd (\<lambda>dl.
         downloadChunkBlocks2 P w clib A sdk (blockSched dl) dl key writer)) sched fd s)"

definition Download2 ::
  "prims \<Rightarrow> wire_lib \<Rightarrow> cid_lib \<Rightarrow> ('s, 'c) api \<Rightarrow> ('cl, 'conn, 'http) IPC \<Rightarrow> (FileChunkDownload \<Rightarrow> nat list) \<Rightarrow>
   download_choice list \<Rightarrow> IPCFileDownload \<Rightarrow> (byte list \<Rightarrow> ('s, unit) act) \<Rightarrow> 's \<Rightarrow> 's download_result" where
  "Download2 P w clib A sdk blockSched sched fd writer s =
     (case ipc_ec sdk of
        None \<Rightarrow> Some (Err (errSDK (ErrNew ''erasure coding is required for Download2'')), fd_counters fd, s)
      | Some ec \<Rightarrow>
          if ipc_encryptionKey sdk = []
          then Some (Err (errSDK (ErrNew ''encryption is required for Download2'')), fd_counters fd, s)
          else with_file_key P sdk fd s (\<lambda>key.
            run_download (download_env A sdk fd (\<lambda>dl.
              downloadChunkBlocksV2 P w clib A ec (blockSched dl) (fd_BucketName fd) (fd_Name fd) (st_From A) dl key writer)) sched fd s))"

end
