(* ===== verification/DownloadSpec.thy ===== *)
theory DownloadSpec
  imports DownloadPipeline "HOL-Library.Sublist"
begin

text \<open>
  Correctness of the download pipeline over all interleavings. \<open>flows\<close> relates the events so far to the state: the
  chunks requested are the first ones of the file, and the answers are written, being processed, queued or offered, in
  this order. \<open>download_weight\<close> decreases with every step.
\<close>

section \<open>What has been requested and written\<close>

fun requested :: "download_event list \<Rightarrow> (Chunk \<times> FileChunkDownload) list" where
  "requested [] = []"
| "requested (Requested c dl # es) = (c, dl) # requested es"
| "requested (Written dl # es) = requested es"

fun written :: "download_event list \<Rightarrow> FileChunkDownload list" where
  "written [] = []"
| "written (Requested c dl # es) = written es"
| "written (Written dl # es) = dl # written es"

lemma requested_append [simp]: "requested (xs @ ys) = requested xs @ requested ys"
  by (induction xs rule: requested.induct) simp_all

lemma written_append [simp]: "written (xs @ ys) = written xs @ written ys"
  by (induction xs rule: written.induct) simp_all

fun in_hand :: "processor \<Rightarrow> FileChunkDownload list" where
  "in_hand (Processing dl) = [dl]"
| "in_hand ProcessorIdle = []"
| "in_hand ProcessorDone = []"

fun offered :: "creator \<Rightarrow> FileChunkDownload list" where
  "offered (Offering dl cs) = [dl]"
| "offered (Creating cs) = []"
| "offered CreatorDone = []"

fun pending_chunks :: "creator \<Rightarrow> Chunk list" where
  "pending_chunks (Offering dl cs) = cs"
| "pending_chunks (Creating cs) = cs"
| "pending_chunks CreatorDone = []"

definition flows :: "Chunk list \<Rightarrow> download_event list \<Rightarrow> 's downloading \<Rightarrow> bool" where
  "flows cs es st \<longleftrightarrow>
     prefix (map fst (requested es) @ pending_chunks (dw_creator st)) cs \<and>
     prefix (written es @ (if dw_processor st = ProcessorDone then []
       else in_hand (dw_processor st) @ dw_queue st @ offered (dw_creator st))) (map snd (requested es)) \<and>
     (dw_result st = Ok () \<longrightarrow>
        map fst (requested es) @ pending_chunks (dw_creator st) = cs \<and>
        written es @ in_hand (dw_processor st) @ dw_queue st @ offered (dw_creator st) = map snd (requested es))"

text \<open>A goroutine that ended early has left an error.\<close>

definition ended :: "'s downloading \<Rightarrow> bool" where
  "ended st \<longleftrightarrow> (dw_processor st = ProcessorDone \<longrightarrow>
     dw_result st \<noteq> Ok () \<or> dw_creator st = CreatorDone \<and> dw_queue st = [])"

lemma fail_download_simps [simp]:
  "dw_creator (fail_download E e st) = dw_creator st" "dw_queue (fail_download E e st) = dw_queue st"
  "dw_processor (fail_download E e st) = dw_processor st" "dw_result (fail_download E e st) \<noteq> Ok ()"
  by (auto simp: fail_download_def split: outcome.splits)

lemma creator_step_cases [consumes 1, case_names finish stop create fail panic queue hand]:
  assumes "creator_step E st = Some (st', es)"
  obtains "dw_creator st = Creating []" "st' = st\<lparr>dw_creator := CreatorDone\<rparr>" "es = []"
  | e c cs where "dw_creator st = Creating (c # cs)" "download_ctx E st = Some e" "st' = (fail_download E e st)\<lparr>dw_creator := CreatorDone\<rparr>" "es = []"
  | c cs dl w where "dw_creator st = Creating (c # cs)" "download_ctx E st = None" "de_create E c (dw_world st) = (Ok dl, w)"
      "st' = st\<lparr>dw_world := w, dw_creator := Offering dl cs\<rparr>" "es = [Requested c dl]"
  | c cs e w where "dw_creator st = Creating (c # cs)" "de_create E c (dw_world st) = (Err e, w)"
      "st' = (fail_download E e (st\<lparr>dw_world := w\<rparr>))\<lparr>dw_creator := CreatorDone\<rparr>" "es = []"
  | c cs w where "dw_creator st = Creating (c # cs)" "de_create E c (dw_world st) = (Panic, w)"
      "st' = st\<lparr>dw_world := w, dw_result := Panic\<rparr>" "es = []"
  | dl cs where "dw_creator st = Offering dl cs" "length (dw_queue st) < de_chunkBuffer E"
      "st' = st\<lparr>dw_queue := dw_queue st @ [dl], dw_creator := Creating cs\<rparr>" "es = []"
  | dl cs where "dw_creator st = Offering dl cs" "dw_queue st = []" "dw_processor st = ProcessorIdle"
      "st' = st\<lparr>dw_processor := Processing dl, dw_creator := Creating cs\<rparr>" "es = []"
  using assms by (auto simp: creator_step_def split: creator.splits list.splits option.splits prod.splits outcome.splits if_splits)

lemma processor_step_cases [consumes 1, case_names take finish ok fail panic]:
  assumes "processor_step E st = Some (st', es)"
  obtains dl q where "dw_processor st = ProcessorIdle" "dw_queue st = dl # q"
      "st' = st\<lparr>dw_queue := q, dw_processor := Processing dl\<rparr>" "es = []"
  | "dw_processor st = ProcessorIdle" "dw_queue st = []" "dw_creator st = CreatorDone"
      "st' = st\<lparr>dw_processor := ProcessorDone\<rparr>" "es = []"
  | dl d w where "dw_processor st = Processing dl" "de_process E dl (dw_counters st, dw_world st) = (Ok (), d, w)"
      "st' = st\<lparr>dw_world := w, dw_counters := d\<lparr>chunksCounter := chunksCounter d + 1\<rparr>, dw_processor := ProcessorIdle\<rparr>"
      "es = [Written dl]"
  | dl e d w where "dw_processor st = Processing dl" "de_process E dl (dw_counters st, dw_world st) = (Err e, d, w)"
      "st' = (fail_download E e (st\<lparr>dw_world := w, dw_counters := d\<rparr>))\<lparr>dw_processor := ProcessorDone\<rparr>" "es = []"
  | dl d w where "dw_processor st = Processing dl" "de_process E dl (dw_counters st, dw_world st) = (Panic, d, w)"
      "st' = st\<lparr>dw_world := w, dw_result := Panic\<rparr>" "es = []"
  using assms by (auto simp: processor_step_def split: processor.splits list.splits prod.splits outcome.splits if_splits)

lemma stop_download_cases [consumes 1, case_names creator processor]:
  assumes "stop_download E b st = Some (st', es)"
  obtains e dl cs where "download_ctx E st = Some e" "dw_creator st = Offering dl cs"
      "st' = (fail_download E e st)\<lparr>dw_creator := CreatorDone\<rparr>" "es = []"
  | e where "download_ctx E st = Some e" "dw_processor st = ProcessorIdle"
      "st' = (fail_download E e st)\<lparr>dw_processor := ProcessorDone\<rparr>" "es = []"
  using assms by (auto simp: stop_download_def split: option.splits creator.splits if_splits)

lemma download_step_cases [consumes 1, case_names creator processor stop]:
  assumes "download_step E c st = Some (st', es)"
  obtains "dw_result st \<noteq> Panic" "creator_step E st = Some (st', es)" | "dw_result st \<noteq> Panic" "processor_step E st = Some (st', es)"
  | b where "dw_result st \<noteq> Panic" "stop_download E b st = Some (st', es)"
  using assms by (auto simp: download_step_def split: download_choice.splits if_splits)

section \<open>Order\<close>

definition in_order :: "Chunk list \<Rightarrow> download_event list \<Rightarrow> 's downloading \<Rightarrow> bool" where
  "in_order cs es st \<longleftrightarrow> flows cs es st \<and> ended st"

lemma download_ctx_None: "download_ctx E st = None \<Longrightarrow> dw_result st \<noteq> Panic \<Longrightarrow> dw_result st = Ok ()"
  by (auto simp: download_ctx_def split: outcome.splits)

lemma prefix_cut: "prefix (xs @ ys @ zs) us \<Longrightarrow> prefix (xs @ ys) us" "prefix (xs @ y # ys) us \<Longrightarrow> prefix xs us"
    "prefix (xs @ ys @ zs @ [z]) us \<Longrightarrow> prefix (xs @ ys @ zs) us" "xs @ ys @ zs @ [z] = us \<Longrightarrow> prefix (xs @ ys @ zs) us"
  by (metis append.assoc append_prefixD, metis append_prefixD, metis append.assoc append_prefixD, auto)

lemma in_order_step:
  assumes "in_order cs es st" and "download_step E c st = Some (st', es')"
  shows "in_order cs (es @ es') st'"
  using assms(2)
proof (cases rule: download_step_cases)
  case creator
  from creator(2) show ?thesis
  proof (cases rule: creator_step_cases)
    case (create c cs' dl w)
    then show ?thesis using assms(1) download_ctx_None [OF create(2) creator(1)]
      by (auto simp: in_order_def flows_def ended_def)
  qed (use assms(1) in \<open>auto simp: in_order_def flows_def ended_def dest: append_prefixD prefix_cut\<close>)
next
  case processor
  from processor(2) show ?thesis
    by (cases rule: processor_step_cases) (use assms(1) in \<open>auto simp: in_order_def flows_def ended_def dest: append_prefixD prefix_cut\<close>)
next
  case (stop b)
  from stop(2) show ?thesis
    by (cases rule: stop_download_cases) (use assms(1) in \<open>auto simp: in_order_def flows_def ended_def dest: append_prefixD prefix_cut\<close>)
qed

section \<open>Termination\<close>

fun creator_weight :: "creator \<Rightarrow> nat" where
  "creator_weight (Creating cs) = 4 * length cs + 1"
| "creator_weight (Offering dl cs) = 4 * length cs + 4"
| "creator_weight CreatorDone = 0"

fun processor_weight :: "processor \<Rightarrow> nat" where
  "processor_weight ProcessorIdle = 1"
| "processor_weight (Processing dl) = 2"
| "processor_weight ProcessorDone = 0"

definition download_weight :: "'s downloading \<Rightarrow> nat" where
  "download_weight st = (if dw_result st = Panic then 0 else 1) + creator_weight (dw_creator st) + 2 * length (dw_queue st) +
     processor_weight (dw_processor st)"

lemma download_weight_step:
  assumes "download_step E c st = Some (st', es)"
  shows "download_weight st' < download_weight st"
  using assms
proof (cases rule: download_step_cases)
  case creator
  from creator(2) show ?thesis
    by (cases rule: creator_step_cases) (use creator(1) in \<open>auto simp: download_weight_def\<close>)
next
  case processor
  from processor(2) show ?thesis
    by (cases rule: processor_step_cases) (use processor(1) in \<open>auto simp: download_weight_def\<close>)
next
  case (stop b)
  from stop(2) show ?thesis
    by (cases rule: stop_download_cases) (use stop(1) in \<open>auto simp: download_weight_def\<close>)
qed

text \<open>No deadlock: someone can move until both goroutines are done.\<close>

lemma download_progress:
  assumes "ended st" and "\<not> download_done st" and "dw_result st \<noteq> Panic"
  shows "\<exists>c st' es. download_step E c st = Some (st', es)"
proof -
  consider (creating) cs where "dw_creator st = Creating cs" | (offering) dl cs where "dw_creator st = Offering dl cs"
    | (finished) "dw_creator st = CreatorDone" by (cases "dw_creator st") auto
  then show ?thesis
  proof cases
    case creating
    then have "creator_step E st \<noteq> None"
      by (auto simp: creator_step_def split: list.splits option.splits prod.splits outcome.splits)
    then show ?thesis using assms(3) by (intro exI [of _ Create]) (auto simp: download_step_def)
  next
    case offering
    consider (process) "processor_step E st \<noteq> None" | (hand) "dw_processor st = ProcessorIdle" "dw_queue st = []"
      | (gone) e where "dw_processor st = ProcessorDone" "dw_result st = Err e"
      using assms offering
      by (cases "dw_processor st"; cases "dw_queue st"; cases "dw_result st")
        (auto simp: processor_step_def ended_def split: prod.splits outcome.splits)
    then show ?thesis
    proof cases
      case process
      then show ?thesis using assms(3) by (intro exI [of _ Process]) (auto simp: download_step_def)
    next
      case hand
      then show ?thesis using assms(3) offering
        by (intro exI [of _ Create]) (auto simp: download_step_def creator_step_def)
    next
      case gone
      then show ?thesis using offering
        by (intro exI [of _ StopCreator]) (auto simp: download_step_def stop_download_def download_ctx_def)
    qed
  next
    case finished
    then have "processor_step E st \<noteq> None"
      using assms(2) by (cases "dw_processor st"; cases "dw_queue st")
        (auto simp: processor_step_def download_done_def split: prod.splits outcome.splits)
    then show ?thesis using assms(3) by (intro exI [of _ Process]) (auto simp: download_step_def)
  qed
qed

text \<open>Every round of all four choices makes progress.\<close>

definition download_round :: "download_choice list" where
  "download_round = [Create, Process, StopCreator, StopProcessor]"

lemma in_download_round: "c \<in> set download_round"
  by (cases c) (simp_all add: download_round_def)

interpretation downloads: finishing "download_step E" "\<lambda>st. \<exists>d s. st = init_download d cs s" "in_order cs"
  download_weight "\<lambda>st. download_done st \<or> dw_result st = Panic" download_round for E cs
proof
  fix st :: "'a downloading"
  assume "\<exists>d s. st = init_download d cs s"
  then show "in_order cs [] st" by (auto simp: in_order_def flows_def ended_def init_download_def)
next
  fix es c es' and st st' :: "'a downloading"
  assume "in_order cs es st" and step: "download_step E c st = Some (st', es')"
  then show "in_order cs (es @ es') st'" by (rule in_order_step)
  show "download_weight st' < download_weight st" by (rule download_weight_step [OF step])
next
  fix es and st :: "'a downloading"
  assume "in_order cs es st" and "\<not> (download_done st \<or> dw_result st = Panic)"
  then show "\<exists>c \<in> set download_round. download_step E c st \<noteq> None"
    using download_progress [of st E] in_download_round by (fastforce simp: in_order_def)
next
  fix c and st :: "'a downloading"
  assume "download_done st \<or> dw_result st = Panic"
  then show "download_step E c st = None"
    by (auto simp: download_step_def download_done_def creator_step_def processor_step_def stop_download_def
        split: download_choice.splits option.splits)
qed

lemma in_order_run: "download_run E (init_download d cs s) es n st \<Longrightarrow> in_order cs es st"
  by (rule downloads.run_inv, assumption, intro exI, rule refl)

section \<open>What is written\<close>

text \<open>
  All calls succeed while \<open>I\<close> holds, and keep it: \<open>good c dl\<close> says that \<open>dl\<close> is a right answer for the chunk \<open>c\<close>,
  processing one writes \<open>content c\<close>, and \<open>out\<close> is what has been written, which nothing else changes.
\<close>

definition serves ::
  "'s downloader \<Rightarrow> ('s \<Rightarrow> bool) \<Rightarrow> ('s \<Rightarrow> byte list) \<Rightarrow> (Chunk \<Rightarrow> FileChunkDownload \<Rightarrow> bool) \<Rightarrow> (Chunk \<Rightarrow> byte list) \<Rightarrow> Chunk list \<Rightarrow> bool" where
  "serves E I out good content cs \<longleftrightarrow>
     (\<forall>s. I s \<longrightarrow> de_ctx E s = None) \<and>
     (\<forall>c \<in> set cs. \<forall>s. I s \<longrightarrow> (\<exists>dl s'. de_create E c s = (Ok dl, s') \<and> I s' \<and> out s' = out s \<and> good c dl)) \<and>
     (\<forall>c \<in> set cs. \<forall>dl t. good c dl \<longrightarrow> I (snd t) \<longrightarrow>
        (\<exists>t'. de_process E dl t = (Ok (), t') \<and> I (snd t') \<and> out (snd t') = out (snd t) @ content c))"

definition served_inv ::
  "('s \<Rightarrow> bool) \<Rightarrow> ('s \<Rightarrow> byte list) \<Rightarrow> (Chunk \<Rightarrow> FileChunkDownload \<Rightarrow> bool) \<Rightarrow> (Chunk \<Rightarrow> byte list) \<Rightarrow> 's \<Rightarrow> download_event list \<Rightarrow>
   's downloading \<Rightarrow> bool" where
  "served_inv I out good content s es st \<longleftrightarrow>
     dw_result st = Ok () \<and> I (dw_world st) \<and> (\<forall>(c, dl) \<in> set (requested es). good c dl) \<and>
     out (dw_world st) = out s @ concat (map content (take (length (written es)) (map fst (requested es))))"

lemma served_step:
  assumes "serves E I out good content cs" and "in_order cs es st" and "served_inv I out good content s es st"
    and "download_step E c st = Some (st', es')"
  shows "served_inv I out good content s (es @ es') st'"
proof -
  have ok: "dw_result st = Ok ()" and ctx: "download_ctx E st = None"
    using assms(1,3) by (auto simp: served_inv_def serves_def download_ctx_def)
  have flow: "map fst (requested es) @ pending_chunks (dw_creator st) = cs"
    "written es @ in_hand (dw_processor st) @ dw_queue st @ offered (dw_creator st) = map snd (requested es)"
    using assms(2) ok by (simp_all add: in_order_def flows_def)
  have len: "length (written es) \<le> length (requested es)" using arg_cong [OF flow(2), of length] by simp
  show ?thesis
    using assms(4)
  proof (cases rule: download_step_cases)
    case creator
    from creator(2) show ?thesis
    proof (cases rule: creator_step_cases)
      case (create c cs' dl w)
      moreover have "c \<in> set cs" using flow(1) create(1) by auto
      then obtain dl' w' where "de_create E c (dw_world st) = (Ok dl', w')" "I w'" "out w' = out (dw_world st)" "good c dl'"
        using assms(1,3) unfolding serves_def served_inv_def by blast
      ultimately show ?thesis using assms(3) len by (auto simp: served_inv_def)
    next
      case (fail c cs' e w)
      moreover have "c \<in> set cs" using flow(1) fail(1) by auto
      then obtain dl' w' where "de_create E c (dw_world st) = (Ok dl', w')" using assms(1,3) unfolding serves_def served_inv_def by blast
      ultimately show ?thesis by simp
    next
      case (panic c cs' w)
      moreover have "c \<in> set cs" using flow(1) panic(1) by auto
      then obtain dl' w' where "de_create E c (dw_world st) = (Ok dl', w')" using assms(1,3) unfolding serves_def served_inv_def by blast
      ultimately show ?thesis by simp
    qed (use assms(3) ctx in \<open>simp_all add: served_inv_def\<close>)
  next
    case processor
    have hand: "\<exists>t'. de_process E dl (dw_counters st, dw_world st) = (Ok (), t') \<and> I (snd t') \<and>
        out (snd t') = out s @ concat (map content (take (Suc (length (written es))) (map fst (requested es))))"
      if "dw_processor st = Processing dl" for dl
    proof -
      let ?n = "length (written es)"
      have process: "\<forall>c \<in> set cs. \<forall>dl t. good c dl \<longrightarrow> I (snd t) \<longrightarrow>
          (\<exists>t'. de_process E dl t = (Ok (), t') \<and> I (snd t') \<and> out (snd t') = out (snd t) @ content c)"
        using assms(1) unfolding serves_def by (elim conjE)
      have "I (dw_world st)" using assms(3) by (simp add: served_inv_def)
      note process = process [rule_format, of _ _ "(dw_counters st, dw_world st)", simplified, OF _ _ this]
      have n: "?n < length (requested es)" using arg_cong [OF flow(2), of length] that by simp
      have "map snd (requested es) ! ?n = dl" by (simp add: that flip: flow(2))
      then obtain c where c: "requested es ! ?n = (c, dl)" using n by (cases "requested es ! ?n") simp
      then have "good c dl" using assms(3) nth_mem [OF n] by (auto simp: served_inv_def)
      moreover have "c \<in> set cs" using nth_mem [OF n] c by (auto simp: image_iff simp flip: flow(1)) force
      ultimately obtain t' where "de_process E dl (dw_counters st, dw_world st) = (Ok (), t')"
        "I (snd t')" "out (snd t') = out (dw_world st) @ content c"
        using process by fastforce
      then show ?thesis using assms(3) n c by (simp add: served_inv_def take_Suc_conv_app_nth)
    qed
    from processor(2) show ?thesis
    proof (cases rule: processor_step_cases)
      case (ok dl d w)
      then show ?thesis using hand [OF ok(1)] assms(3) by (auto simp: served_inv_def)
    qed (use assms(3) hand in \<open>auto simp: served_inv_def\<close>)
  next
    case (stop b)
    from stop(2) ctx show ?thesis by (auto simp: stop_download_def)
  qed
qed

lemma served_run:
  assumes "serves E I out good content cs" and "download_run E (init_download d cs s) es n st" and "I s"
  shows "served_inv I out good content s es st"
  using assms(2)
proof (induction rule: runs.induct)
  case start
  show ?case using assms(3) by (simp add: served_inv_def init_download_def)
next
  case (step es n st' c st'' es')
  then show ?case using served_step [OF assms(1) in_order_run [OF step(1)]] by blast
qed

lemma served_download:
  assumes "serves E I out good content (fd_Chunks fd)" and "I s"
  shows "run_download E sched fd s = None \<or>
      (\<exists>d s'. run_download E sched fd s = Some (Ok (), d, s') \<and> I s' \<and> out s' = out s @ concat (map content (fd_Chunks fd)))"
    and "4 * length (fd_Chunks fd) + 3 \<le> k \<Longrightarrow> run_download E (concat (replicate k download_round)) fd s \<noteq> None"
proof -
  obtain st es where r: "run_downloads E sched (init_download (fd_counters fd) (fd_Chunks fd) s) = (st, es)" by fastforce
  from schedule_runs [OF runs.start r]
  obtain m where run: "download_run E (init_download (fd_counters fd) (fd_Chunks fd) s) es m st" by auto
  note inv = served_run [OF assms(1) run assms(2)] in_order_run [OF run]
  have "out (dw_world st) = out s @ concat (map content (fd_Chunks fd))" if "download_done st"
  proof -
    have all: "map fst (requested es) = fd_Chunks fd" "written es = map snd (requested es)"
      using inv that by (auto simp: served_inv_def in_order_def flows_def ended_def download_done_def)
    then have "length (written es) = length (fd_Chunks fd)" by (metis length_map)
    with all show ?thesis using inv(1) by (simp add: served_inv_def)
  qed
  then show "run_download E sched fd s = None \<or>
      (\<exists>d s'. run_download E sched fd s = Some (Ok (), d, s') \<and> I s' \<and> out s' = out s @ concat (map content (fd_Chunks fd)))"
    using inv(1) by (auto simp: run_download_def r served_inv_def)
next
  assume k: "4 * length (fd_Chunks fd) + 3 \<le> k"
  obtain st es where r: "run_downloads E (concat (replicate k download_round)) (init_download (fd_counters fd) (fd_Chunks fd) s) = (st, es)"
    by fastforce
  have "download_weight (init_download (fd_counters fd) (fd_Chunks fd) s) \<le> k"
    using k by (simp add: download_weight_def init_download_def)
  from downloads.rounds_end [OF runs.start _ this r] show "run_download E (concat (replicate k download_round)) fd s \<noteq> None"
    by (auto simp: run_download_def r)
qed

section \<open>Properties\<close>

text \<open>C14: In every interleaving of the two goroutines of a download, the chunks requested are the first chunks of the file in order,
  and those written are the first of the answers, in order and each once; when the download has ended without
  an error, every chunk of the file has been requested and written.\<close>

theorem download_in_order:
  assumes "download_run E (init_download d cs s) es n st"
  shows "prefix (map fst (requested es)) cs \<and> prefix (written es) (map snd (requested es)) \<and>
    (download_done st \<and> dw_result st = Ok () \<longrightarrow> map fst (requested es) = cs \<and> written es = map snd (requested es))"
  using in_order_run [OF assms]
  by (auto simp: in_order_def flows_def ended_def download_done_def dest: append_prefixD)

text \<open>A download of two chunks whose processing records the CIDs.\<close>

definition sample_download :: "Chunk list" where
  "sample_download = [\<lparr>ch_CID = ''x'', ch_EncodedSize = 0, ch_Size = 1, ch_Index = 0\<rparr>, \<lparr>ch_CID = ''y'', ch_EncodedSize = 0, ch_Size = 1, ch_Index = 1\<rparr>]"

definition recording_env :: "string list downloader" where
  "recording_env = \<lparr>de_create = (\<lambda>c. aret \<lparr>cdl_CID = ch_CID c, cdl_Index = ch_Index c, cdl_EncodedSize = 0, cdl_Size = 1, cdl_Blocks = []\<rparr>),
     de_process = (\<lambda>dl (d, s). (Ok (), (d, s @ [cdl_CID dl]))), de_cancel = (\<lambda>s. s), de_ctx = (\<lambda>s. None), de_chunkBuffer = 1\<rparr>"

lemma recording_run:
  "\<exists>n st es. download_run recording_env (init_download newDataCounters sample_download []) es n st \<and>
     download_done st \<and> dw_result st = Ok () \<and> dw_world st = [''x'', ''y''] \<and> n \<le> 11"
proof -
  obtain st es where r: "run_downloads recording_env (concat (replicate 6 [Create, Process])) (init_download newDataCounters sample_download []) = (st, es)"
    by fastforce
  moreover have "case run_downloads recording_env (concat (replicate 6 [Create, Process])) (init_download newDataCounters sample_download []) of
      (st, es) \<Rightarrow> download_done st \<and> dw_result st = Ok () \<and> dw_world st = [''x'', ''y'']"
    by (simp add: numeral_eq_Suc init_download_def recording_env_def sample_download_def download_step_def creator_step_def
        processor_step_def download_ctx_def download_done_def)
  moreover obtain n where "download_run recording_env (init_download newDataCounters sample_download []) es n st"
    using schedule_runs [OF runs.start r] by auto
  moreover have "n \<le> 11"
    using downloads.run_weight [OF calculation(3)] by (simp add: download_weight_def init_download_def sample_download_def)
  ultimately show ?thesis by (auto simp del: schedule.simps)
qed

theorem download_in_order_witness:
  "\<exists>n st es. download_run recording_env (init_download newDataCounters sample_download []) es n st \<and>
     dw_world st = [''x'', ''y''] \<and> map fst (requested es) = sample_download \<and> length (written es) = 2"
proof -
  obtain n st es where run: "download_run recording_env (init_download newDataCounters sample_download []) es n st"
    "download_done st" "dw_result st = Ok ()" "dw_world st = [''x'', ''y'']" using recording_run by blast
  from download_in_order [OF run(1)] have "map fst (requested es) = sample_download" "written es = map snd (requested es)"
    using run(2,3) by simp_all
  moreover from this(1) have "length (requested es) = 2"
    using length_map [of fst "requested es"] by (simp add: sample_download_def)
  ultimately show ?thesis using run(1,4) by (intro exI) auto
qed

text \<open>C29: Every run of a download ends: whatever the interleaving, it takes at most four steps per chunk and three more, and
  as long as the goroutines have not both ended (and none has panicked) some step is possible, so there is no deadlock
  on the channel, also when one of the goroutines has ended early; so many rounds of a scheduler end the download.\<close>

theorem download_finishes:
  assumes "download_run E (init_download d cs s) es n st"
  shows "n \<le> 4 * length cs + 3 \<and>
    (download_done st \<or> dw_result st = Panic \<or> (\<exists>c st' es'. download_step E c st = Some (st', es'))) \<and>
    (4 * length cs + 3 \<le> k \<and> run_downloads E (concat (replicate k download_round)) (init_download d cs s) = (st', es') \<longrightarrow>
      download_done st' \<or> dw_result st' = Panic)"
proof (intro conjI impI)
  have w: "download_weight (init_download d cs s) = 4 * length cs + 3" by (simp add: download_weight_def init_download_def)
  show "n \<le> 4 * length cs + 3" using downloads.run_weight [OF assms] w by fastforce
  show "download_done st \<or> dw_result st = Panic \<or> (\<exists>c st' es'. download_step E c st = Some (st', es'))"
    using download_progress [of st E] in_order_run [OF assms] by (auto simp: in_order_def)
  assume "4 * length cs + 3 \<le> k \<and> run_downloads E (concat (replicate k download_round)) (init_download d cs s) = (st', es')"
  then have k: "download_weight (init_download d cs s) \<le> k"
    and r: "run_downloads E (concat (replicate k download_round)) (init_download d cs s) = (st', es')" using w by auto
  show "download_done st' \<or> dw_result st' = Panic"
    by (rule downloads.rounds_end [OF runs.start _ k r]) (intro exI, rule refl)
qed

theorem download_finishes_witness:
  "\<exists>n st es. download_run recording_env (init_download newDataCounters sample_download []) es n st \<and> download_done st \<and> n \<le> 11"
proof -
  obtain n st es where run: "download_run recording_env (init_download newDataCounters sample_download []) es n st" "download_done st"
    using recording_run by blast
  from conjunct1 [OF download_finishes [OF run(1)]] have "n \<le> 11" by (simp add: sample_download_def)
  then show ?thesis using run by blast
qed

end
