(* ===== verification/FileRoundtrip.thy ===== *)
theory FileRoundtrip
  imports DownloadSpec
begin

text \<open>
  Upload and download of a file put together. \<open>network_serves\<close> says what the nodes have to do: answer for every chunk with
  its blocks and serve the bytes they were given. Then \<open>Download\<close> writes the bytes that were read by the upload, and
  \<open>Download2\<close> those of an upload in the second format, under every interleaving of the goroutines of both.
\<close>

section \<open>What the nodes serve\<close>

text \<open>\<open>bss\<close> are the blocks of the chunks of a file; \<open>out\<close> is what has been written so far, which no answer
  changes. Both are asked for in states where \<open>I\<close> holds, which calls keep.\<close>

definition network_serves ::
  "('s, 'c) api \<Rightarrow> ('s \<Rightarrow> bool) \<Rightarrow> ('s \<Rightarrow> byte list) \<Rightarrow> IPCFileDownload \<Rightarrow> FileBlockUpload list list \<Rightarrow> bool" where
  "network_serves A I out fd bss \<longleftrightarrow>
     (\<forall>s. I s \<longrightarrow> ctx_err A s = None) \<and> map ch_Index (fd_Chunks fd) = map int [0..<length bss] \<and>
     (\<forall>i < length bss. \<forall>s. I s \<longrightarrow> (\<exists>res s'. rpc_FileDownloadChunkCreate A (fd_BucketName fd) (fd_Name fd)
         (ch_CID (fd_Chunks fd ! i)) (int i) (st_From A) s = (Ok res, s') \<and> I s' \<and> out s' = out s \<and>
       map bdl_Cid res = map bu_CID (bss ! i) \<and> (\<forall>b \<in> set res. bdl_NodeAddress b \<noteq> []))) \<and>
     (\<forall>i < length bss. \<forall>k < length (bss ! i). \<forall>block s. I s \<longrightarrow> bd_CID block = bu_CID (bss ! i ! k) \<longrightarrow> bd_NodeAddress block \<noteq> [] \<longrightarrow>
       (\<exists>s'. fetchBlockData A (ch_CID (fd_Chunks fd ! i)) (fd_BucketName fd) (fd_Name fd) (st_From A) (int i) (int k) block s =
          (Ok (bu_Data (bss ! i ! k)), s') \<and> I s' \<and> out s' = out s))"

definition writes_to :: "('s \<Rightarrow> bool) \<Rightarrow> ('s \<Rightarrow> byte list) \<Rightarrow> (byte list \<Rightarrow> ('s, unit) act) \<Rightarrow> bool" where
  "writes_to I out writer \<longleftrightarrow> (\<forall>bs s. I s \<longrightarrow> (\<exists>s'. writer bs s = (Ok (), s') \<and> I s' \<and> out s' = out s @ bs))"

abbreviation node_download ::
  "wire_lib \<Rightarrow> cid_lib \<Rightarrow> ('s, 'c) api \<Rightarrow> IPCFileDownload \<Rightarrow> (FileChunkDownload \<Rightarrow> nat list) \<Rightarrow>
   (int \<Rightarrow> byte list list \<Rightarrow> byte list outcome) \<Rightarrow> (byte list \<Rightarrow> ('s, unit) act) \<Rightarrow> FileChunkDownload \<Rightarrow> ('s counted, unit) act" where
  "node_download w clib A fd blockSched assemble writer dl \<equiv>
     get_chunk w clib A (\<lambda>k. fetchBlockData A (cdl_CID dl) (fd_BucketName fd) (fd_Name fd) (st_From A) (cdl_Index dl) (int k)
       (cdl_Blocks dl ! k)) (cdl_Blocks dl) (blockSched dl) (assemble (cdl_Index dl)) writer"

definition right_answer :: "IPCFileDownload \<Rightarrow> FileBlockUpload list list \<Rightarrow> Chunk \<Rightarrow> FileChunkDownload \<Rightarrow> bool" where
  "right_answer fd bss c dl \<longleftrightarrow>
     (\<exists>i < length bss. c = fd_Chunks fd ! i \<and> cdl_CID dl = ch_CID c \<and> cdl_Index dl = int i \<and>
        map bd_CID (cdl_Blocks dl) = map bu_CID (bss ! i) \<and> (\<forall>b \<in> set (cdl_Blocks dl). bd_NodeAddress b \<noteq> []))"

lemma network_indices:
  assumes "network_serves A I out fd bss"
  shows "length (fd_Chunks fd) = length bss" "i < length bss \<Longrightarrow> ch_Index (fd_Chunks fd ! i) = int i"
proof -
  have m: "map ch_Index (fd_Chunks fd) = map int [0..<length bss]" using assms by (simp add: network_serves_def)
  from arg_cong [OF m, of length] show len: "length (fd_Chunks fd) = length bss" by simp
  assume "i < length bss"
  then show "ch_Index (fd_Chunks fd ! i) = int i" using arg_cong [OF m, of "\<lambda>xs. xs ! i"] len by simp
qed

lemma network_servesD:
  assumes "network_serves A I out fd bss" and "i < length bss" and "I s"
  shows "\<exists>res s'. rpc_FileDownloadChunkCreate A (fd_BucketName fd) (fd_Name fd)
         (ch_CID (fd_Chunks fd ! i)) (int i) (st_From A) s = (Ok res, s') \<and> I s' \<and> out s' = out s \<and>
       map bdl_Cid res = map bu_CID (bss ! i) \<and> (\<forall>b \<in> set res. bdl_NodeAddress b \<noteq> [])"
    and "k < length (bss ! i) \<Longrightarrow> bd_CID block = bu_CID (bss ! i ! k) \<Longrightarrow> bd_NodeAddress block \<noteq> [] \<Longrightarrow>
       \<exists>s'. fetchBlockData A (ch_CID (fd_Chunks fd ! i)) (fd_BucketName fd) (fd_Name fd) (st_From A) (int i) (int k) block s =
          (Ok (bu_Data (bss ! i ! k)), s') \<and> I s' \<and> out s' = out s"
  using assms unfolding network_serves_def by simp_all

lemma network_create:
  assumes "network_serves A I out fd bss" and "c \<in> set (fd_Chunks fd)" and "I s"
  shows "\<exists>dl s'. createChunkDownload A (fd_BucketName fd) (fd_Name fd) c s = (Ok dl, s') \<and> I s' \<and> out s' = out s \<and> right_answer fd bss c dl"
proof -
  obtain i where i: "i < length bss" "c = fd_Chunks fd ! i"
    using assms network_indices(1) [OF assms(1)] by (metis in_set_conv_nth)
  obtain res s' where res: "rpc_FileDownloadChunkCreate A (fd_BucketName fd) (fd_Name fd) (ch_CID c) (int i) (st_From A) s = (Ok res, s')"
    "I s'" "out s' = out s" "map bdl_Cid res = map bu_CID (bss ! i)" "\<forall>b \<in> set res. bdl_NodeAddress b \<noteq> []"
    using network_servesD(1) [OF assms(1) i(1) assms(3)] unfolding i(2) by (elim exE conjE)
  let ?dl = "\<lparr>cdl_CID = ch_CID c, cdl_Index = ch_Index c, cdl_EncodedSize = ch_EncodedSize c, cdl_Size = ch_Size c,
     cdl_Blocks = map (\<lambda>b. \<lparr>bd_CID = bdl_Cid b, bd_Permit = bdl_Permit b, bd_NodeAddress = bdl_NodeAddress b, bd_NodeID = bdl_NodeId b\<rparr>) res\<rparr>"
  have index: "ch_Index c = int i" using network_indices(2) [OF assms(1) i(1)] i(2) by simp
  have "map bd_CID (cdl_Blocks ?dl) = map bu_CID (bss ! i)" using res(4) by (simp add: comp_def)
  then have "right_answer fd bss c ?dl"
    using res(5) i index unfolding right_answer_def by (intro exI [of _ i]) simp
  moreover have "createChunkDownload A (fd_BucketName fd) (fd_Name fd) c s = (Ok ?dl, s')"
    using res(1) by (simp add: createChunkDownload_def abind_def amap_err_def aret_def index)
  ultimately show ?thesis using res(2,3) by blast
qed

lemma network_process:
  assumes "wire_laws w" and "cid_laws clib P" and "cid_text_law clib" and "network_serves A I out fd bss"
    and "\<forall>i < length bss. chunk_blocks P clib (assemble (int i)) (pieces ! i) (bss ! i)"
    and "\<forall>dl. complete_schedule (length (cdl_Blocks dl)) (blockSched dl)" and "writes_to I out writer" and "right_answer fd bss c dl" and "I (snd t)"
  shows "\<exists>t'. node_download w clib A fd blockSched assemble writer dl t = (Ok (), t') \<and> I (snd t') \<and>
    out (snd t') = out (snd t) @ pieces ! nat (ch_Index c)"
proof -
  obtain i where i: "i < length bss" "c = fd_Chunks fd ! i" "cdl_CID dl = ch_CID c" "cdl_Index dl = int i"
    "map bd_CID (cdl_Blocks dl) = map bu_CID (bss ! i)" "\<forall>b \<in> set (cdl_Blocks dl). bd_NodeAddress b \<noteq> []"
    using assms(8) by (auto simp: right_answer_def)
  have len: "length (cdl_Blocks dl) = length (bss ! i)" using i(5) by (metis length_map)
  have sched: "complete_schedule (length (bss ! i)) (blockSched dl)" using assms(6) len by metis
  have "\<exists>u'. fetchBlockData A (cdl_CID dl) (fd_BucketName fd) (fd_Name fd) (st_From A) (cdl_Index dl) (int k) (cdl_Blocks dl ! k) u =
      (Ok (bu_Data (bss ! i ! k)), u') \<and> I u' \<and> out u' = out (snd t)"
    if k: "k < length (bss ! i)" and u: "I u \<and> out u = out (snd t)" for k u
  proof -
    have "bd_CID (cdl_Blocks dl ! k) = bu_CID (bss ! i ! k)" using arg_cong [OF i(5), of "\<lambda>xs. xs ! k"] k len by simp
    moreover have "bd_NodeAddress (cdl_Blocks dl ! k) \<noteq> []" using i(6) k len by simp
    ultimately show ?thesis using network_servesD(2) [OF assms(4) i(1) _ k, of u "cdl_Blocks dl ! k"] u i(2-4) by simp
  qed
  from get_chunk_served [where J = "\<lambda>s. I s \<and> out s = out (snd t)" and st = t and
      fetch = "\<lambda>k. fetchBlockData A (cdl_CID dl) (fd_BucketName fd) (fd_Name fd) (st_From A) (cdl_Index dl) (int k) (cdl_Blocks dl ! k)", OF assms(1-3) assms(5) [rule_format, OF i(1)] i(5) sched this,
      where A = A and writer = writer] assms(9)
  obtain st' where st': "node_download w clib A fd blockSched assemble writer dl t = sdk_wrap (world (writer (pieces ! i))) st'"
    "I (snd st')" "out (snd st') = out (snd t)" unfolding i(4) by auto
  obtain d s where "st' = (d, s)" by fastforce
  moreover from this st'(2) obtain s' where "writer (pieces ! i) s = (Ok (), s')" "I s'" "out s' = out s @ pieces ! i"
    using assms(7) unfolding writes_to_def by auto
  ultimately show ?thesis using st' i(1,2) network_indices(2) [OF assms(4)] by (simp add: world_def amap_err_def)
qed

lemma network_download:
  fixes sdk :: "('cl, 'conn, 'http) IPC"
  assumes "wire_laws w" and "cid_laws clib P" and "cid_text_law clib" and "network_serves A I out fd bss"
    and "\<forall>i < length bss. chunk_blocks P clib (assemble (int i)) (pieces ! i) (bss ! i)" and "length pieces = length bss"
    and "\<forall>dl. complete_schedule (length (cdl_Blocks dl)) (blockSched dl)" and "writes_to I out writer" and "I s"
  defines "E \<equiv> download_env A sdk fd (node_download w clib A fd blockSched assemble writer)"
  shows "run_download E sched fd s = None \<or> (\<exists>d s'. run_download E sched fd s = Some (Ok (), d, s') \<and> I s' \<and> out s' = out s @ concat pieces)"
    and "4 * length bss + 3 \<le> k \<Longrightarrow> run_download E (concat (replicate k download_round)) fd s \<noteq> None"
proof -
  have "serves E I out (right_answer fd bss) (\<lambda>c. pieces ! nat (ch_Index c)) (fd_Chunks fd)"
    unfolding serves_def
  proof (intro conjI allI ballI impI)
    show "de_ctx E t = None" if "I t" for t using that assms(4) by (simp add: E_def download_env_def network_serves_def)
    show "\<exists>dl s'. de_create E c t = (Ok dl, s') \<and> I s' \<and> out s' = out t \<and> right_answer fd bss c dl"
      if "c \<in> set (fd_Chunks fd)" and "I t" for c t
      using network_create [OF assms(4) that] by (simp add: E_def download_env_def)
    show "\<exists>t'. de_process E dl t = (Ok (), t') \<and> I (snd t') \<and> out (snd t') = out (snd t) @ pieces ! nat (ch_Index c)"
      if "right_answer fd bss c dl" and "I (snd t)" for c dl t
      using network_process [OF assms(1-5,7,8) that] by (simp add: E_def download_env_def)
  qed
  note served = served_download [OF this assms(9)]
  have "map (\<lambda>c. pieces ! nat (ch_Index c)) (fd_Chunks fd) = pieces"
    using network_indices [OF assms(4)] assms(6) by (intro nth_equalityI) auto
  with served(1) show "run_download E sched fd s = None \<or>
      (\<exists>d s'. run_download E sched fd s = Some (Ok (), d, s') \<and> I s' \<and> out s' = out s @ concat pieces)" by simp
  show "4 * length bss + 3 \<le> k \<Longrightarrow> run_download E (concat (replicate k download_round)) fd s \<noteq> None"
    using served(2) network_indices(1) [OF assms(4)] by simp
qed

section \<open>What an upload has stored\<close>

lemma uploaded_holds:
  assumes "pipeline_run E (init_pipeline fu reader s) es n st" and "all_done st" and "pl_result st = Ok ()"
    and "\<forall>ls l. AddRawLink (pe_lib E) ls l = Ok ()" and "\<not> pe_resuming E" and "0 < pe_bufSize E"
    and "\<And>i t cd t'. i < length (chunks (pe_bufSize E) (rd_rest reader)) \<Longrightarrow>
      pe_create E (int i) (chunks (pe_bufSize E) (rd_rest reader) ! i) t = (Ok cd, t') \<Longrightarrow>
      chunk_blocks P clib (assemble (int i)) (chunks (pe_bufSize E) (rd_rest reader) ! i) (cu_Blocks (cdt_ChunkUpload cd))"
  shows "length (uploaded es) = length (chunks (pe_bufSize E) (rd_rest reader))"
    and "\<forall>i < length (uploaded es). chunk_blocks P clib (assemble (int i)) (chunks (pe_bufSize E) (rd_rest reader) ! i)
      (map cu_Blocks (uploaded es) ! i)"
proof -
  obtain cds :: "ChunkData list" where cds: "uploaded es = map cdt_ChunkUpload cds"
    "length cds = length (chunks (pe_bufSize E) (rd_rest reader))"
    "\<forall>i < length cds. \<exists>s s'. pe_create E (int i) (chunks (pe_bufSize E) (rd_rest reader) ! i) s = (Ok (cds ! i), s')"
    using complete_run [OF assms(1-6)] by blast
  then show "length (uploaded es) = length (chunks (pe_bufSize E) (rd_rest reader))" by simp
  show "\<forall>i < length (uploaded es). chunk_blocks P clib (assemble (int i)) (chunks (pe_bufSize E) (rd_rest reader) ! i)
      (map cu_Blocks (uploaded es) ! i)"
  proof (intro allI impI)
    fix i
    assume "i < length (uploaded es)"
    then have i: "i < length cds" using cds(1) by simp
    then obtain t t' where "pe_create E (int i) (chunks (pe_bufSize E) (rd_rest reader) ! i) t = (Ok (cds ! i), t')" using cds(3) by blast
    from assms(7) [OF _ this] i cds(1,2)
    show "chunk_blocks P clib (assemble (int i)) (chunks (pe_bufSize E) (rd_rest reader) ! i) (map cu_Blocks (uploaded es) ! i)"
      by simp
  qed
qed

lemma uploaded_download:
  fixes sdk :: "('cl, 'conn, 'http) IPC"
  assumes "wire_laws w" and "cid_laws clib P" and "cid_text_law clib"
    and "pipeline_run E (init_pipeline fu reader s) es n st" and "all_done st" and "pl_result st = Ok ()"
    and "\<forall>ls l. AddRawLink (pe_lib E) ls l = Ok ()" and "\<not> pe_resuming E" and "0 < pe_bufSize E"
    and "\<And>i t cd t'. i < length (chunks (pe_bufSize E) (rd_rest reader)) \<Longrightarrow>
      pe_create E (int i) (chunks (pe_bufSize E) (rd_rest reader) ! i) t = (Ok cd, t') \<Longrightarrow>
      chunk_blocks P clib (assemble (int i)) (chunks (pe_bufSize E) (rd_rest reader) ! i) (cu_Blocks (cdt_ChunkUpload cd))"
    and "network_serves A I out fd (map cu_Blocks (uploaded es))" and "writes_to I out writer" and "I s2"
    and "\<forall>dl. complete_schedule (length (cdl_Blocks dl)) (getSched dl)"
  defines "D \<equiv> download_env A sdk fd (node_download w clib A fd getSched assemble writer)"
  shows "(run_download D sched fd s2 = None \<or>
      (\<exists>d s'. run_download D sched fd s2 = Some (Ok (), d, s') \<and> out s' = out s2 @ rd_rest reader)) \<and>
    (4 * length (uploaded es) + 3 \<le> k \<longrightarrow> run_download D (concat (replicate k download_round)) fd s2 \<noteq> None)"
proof (intro conjI impI)
  note up = uploaded_holds [where assemble = assemble and P = P and clib = clib, OF assms(4-9) assms(10)]
  note get = network_download [where assemble = assemble and pieces = "chunks (pe_bufSize E) (rd_rest reader)" and sdk = sdk,
      OF assms(1-3,11) _ _ assms(14,12,13), folded D_def]
  show "run_download D sched fd s2 = None \<or> (\<exists>d s'. run_download D sched fd s2 = Some (Ok (), d, s') \<and> out s' = out s2 @ rd_rest reader)"
    using get(1) [where sched = sched] up assms(9) by auto
  show "4 * length (uploaded es) + 3 \<le> k \<Longrightarrow> run_download D (concat (replicate k download_round)) fd s2 \<noteq> None"
    using get(2) [where k = k] up by simp
qed

text \<open>Chunks of the first format: no two different pieces of one chunk have leaves of the same digest.\<close>

definition leaves_apart :: "prims \<Rightarrow> ('s, 'c) api \<Rightarrow> ErasureCode option \<Rightarrow> byte list \<Rightarrow> nat \<Rightarrow> byte list list \<Rightarrow> bool" where
  "leaves_apart P A ec key cap pieces \<longleftrightarrow>
     (\<forall>i < length pieces. \<forall>t ps. chunk_pieces P (fst (rand_Reader A t)) ec key (int i) (filled_buffer cap (pieces ! i)) = Ok ps \<longrightarrow>
        \<not> leaves_collide P ps)"

definition leaves_apart2 :: "prims \<Rightarrow> ('s, 'c) api \<Rightarrow> ErasureCode \<Rightarrow> byte list \<Rightarrow> nat \<Rightarrow> byte list list \<Rightarrow> bool" where
  "leaves_apart2 P A e key cap pieces \<longleftrightarrow>
     (\<forall>i < length pieces. \<forall>t bs n. coded_chunk2 P (fst (rand_Reader A t)) e key (int i) (filled_buffer cap (pieces ! i)) = Ok (bs, n) \<longrightarrow>
        \<not> leaves_collide P (chunks (nat n) bs))"

lemma filled_buffer_slice:
  "contents (filled_buffer cap bs) = bs" "valid_slice (filled_buffer cap bs)" "scap (filled_buffer cap bs) = max cap (length bs)"
  by (simp_all add: contents_def valid_slice_def scap_def)

lemma chunk_pieces_exist:
  assumes "createChunkUpload P lib clib A sdk index key data bucketID name s = (Ok cu, s')"
  shows "\<exists>ps. chunk_pieces P (fst (rand_Reader A s)) (ipc_ec sdk) key index data = Ok ps"
  using assms
  by (auto simp: createChunkUpload_def Let_def abind_Ok_iff chunk_pieces_def with_rand_def amap_err_def split: if_splits prod.splits)

lemma sealed_length_bound:
  assumes "ec_laws (ipc_ec sdk)" and "ipc_maxBlocksInChunk sdk \<le> 1024" and "0 < n" and "n \<le> nat (fst (calculateBufferSizeAndCapacity sdk key))"
  shows "sealed_length key n \<le> 1024000000"
  using assms
  by (auto simp: calculateBufferSizeAndCapacity_def Let_def BlockSize_def MB_def Overhead_def sealed_length_def ec_laws_def
      split: option.splits if_splits)

lemma create_chunk_holds:
  assumes "dag_laws lib P" and "ec_laws (ipc_ec sdk)" and "ipc_maxBlocksInChunk sdk \<le> 1024"
    and "leaves_apart P A (ipc_ec sdk) key cap (chunks n data)" and "n = nat (fst (calculateBufferSizeAndCapacity sdk key))"
    and "i < length (chunks n data)" and "create_chunk P lib clib A sdk key cap bucketId name (int i) (chunks n data ! i) t = (Ok cd, t')"
  shows "chunk_blocks P clib (assemble_chunk P (ipc_ec sdk) key (int i)) (chunks n data ! i) (cu_Blocks (cdt_ChunkUpload cd))"
proof -
  let ?p = "chunks n data ! i"
  obtain t1 where cu: "createChunkUpload P lib clib A sdk (int i) key (filled_buffer cap ?p) bucketId name t = (Ok (cdt_ChunkUpload cd), t1)"
    using assms(7) by (auto simp: create_chunk_def abind_Ok_iff)
  obtain ps where ps: "chunk_pieces P (fst (rand_Reader A t)) (ipc_ec sdk) key (int i) (filled_buffer cap ?p) = Ok ps"
    using chunk_pieces_exist [OF cu] by blast
  have "?p \<in> set (chunks n data)" using assms(6) by simp
  then have p: "0 < length ?p" "length ?p \<le> n" using chunks_member by blast+
  have "\<not> leaves_collide P ps" using assms(4,6) ps by (simp add: leaves_apart_def)
  moreover have "sealed_length key (length ?p) \<le> 1024000000" using sealed_length_bound [OF assms(2,3) p(1)] p(2) assms(5) by simp
  ultimately show ?thesis
    using createChunkUpload_blocks [OF assms(1,2) filled_buffer_slice(2) _ _ cu ps] p(1) by (simp add: filled_buffer_slice)
qed

lemma create_chunk2_holds:
  assumes "dag_laws lib P" and "rs_laws (ec_enc e) d p par" and "DataBlocks e = int d" and "ParityBlocks e = int p" and "d dvd 16"
    and "d + p \<le> 1024" and "leaves_apart2 P A e key (nat targetCiphertextSize) (chunks n data)"
    and "MaxPlaintextSizeForTarget targetCiphertextSize = Ok (int n)" and "i < length (chunks n data)"
    and "createChunkUpload2 P lib clib A e (int i) key (filled_buffer (nat targetCiphertextSize) (chunks n data ! i)) bucketId name t = (Ok cd, t')"
  shows "chunk_blocks P clib (assemble_chunk2 P e key (int i)) (chunks n data ! i) (cu_Blocks (cdt_ChunkUpload cd))"
proof -
  let ?p = "chunks n data ! i" and ?cap = "nat targetCiphertextSize"
  obtain bs m where ps: "coded_chunk2 P (fst (rand_Reader A t)) e key (int i) (filled_buffer ?cap ?p) = Ok (bs, m)"
    using assms(10) by (auto simp: createChunkUpload2_def Let_def abind_Ok_iff with_rand_def amap_err_def split: if_splits prod.splits)
  obtain u where u: "targetCiphertextSize = int u" "u mod 16 = 0" "48 \<le> u" "n = max_plaintext u"
    using MaxPlaintextSizeForTarget_Ok [OF assms(8)] by (metis of_nat_eq_iff)
  have "?p \<in> set (chunks n data)" using assms(9) by simp
  then have p: "0 < length ?p" "length ?p \<le> n" using chunks_member by blast+
  then have "csize (length ?p) \<le> u" using csize_le_iff [OF u(2,3) p(1)] u(4) by simp
  then have fit: "csize (slen (filled_buffer ?cap ?p)) \<le> scap (filled_buffer ?cap ?p)" using u(1) by (simp add: filled_buffer_slice)
  have "length ?p < u" using le_csize [OF p(1)] \<open>csize (length ?p) \<le> u\<close> by simp
  moreover have "u < 2 ^ 32" using u(1) by (simp add: targetCiphertextSize_def ToInt64_def MB_def)
  ultimately have "slen (filled_buffer ?cap ?p) < 2 ^ 32" by simp
  moreover have "\<not> leaves_collide P (chunks (nat m) bs)" using assms(7,9) ps by (simp add: leaves_apart2_def)
  ultimately show ?thesis
    using createChunkUpload2_holds [OF assms(1-6) filled_buffer_slice(2) _ _ fit assms(10) ps] p(1) by (simp add: filled_buffer_slice)
qed

section \<open>Properties\<close>

text \<open>C1: A file that was uploaded is downloaded unchanged. For every interleaving of the upload's goroutines that ends without
  error, and every interleaving of the download's: if the nodes answer with the blocks that were uploaded, \<open>Download\<close> writes
  exactly the bytes the upload read (and with enough rounds of the scheduler it does finish). All chunk sizes up to 1024
  blocks, encrypted or not, with erasure coding or without; the only escape are two leaves of one chunk with the same digest.\<close>

theorem file_roundtrip:
  assumes "wire_laws w" and "cid_laws clib P" and "cid_text_law clib" and "dag_laws lib P" and "ec_laws (ipc_ec sdk)"
    and "2 \<le> ipc_maxBlocksInChunk sdk" and "ipc_maxBlocksInChunk sdk \<le> 1024" and "\<forall>ls l. AddRawLink lib ls l = Ok ()"
    and "NewIPCFileUpload lib b name = Ok fu" and "encryptionKey P (ipc_encryptionKey sdk) [b, name] = Ok key"
    and "calculateBufferSizeAndCapacity sdk key = (bufSize, cap)"
    and "pipeline_run (upload_env A lib clib K sdk blockSched (create_chunk P lib clib A sdk key (nat cap) bucketId name) (nat bufSize) bucketId fu)
      (init_pipeline fu reader s) es n st" and "all_done st" and "pl_result st = Ok ()"
    and "leaves_apart P A (ipc_ec sdk) key (nat cap) (chunks (nat bufSize) (rd_rest reader))"
    and "fd_BucketName fd = b" and "fd_Name fd = name" and "network_serves A' I out fd (map cu_Blocks (uploaded es))"
    and "writes_to I out writer" and "I s2" and "\<forall>dl. complete_schedule (length (cdl_Blocks dl)) (getSched dl)"
  shows "(Download P w clib A' sdk getSched sched fd writer s2 = None \<or>
      (\<exists>d s'. Download P w clib A' sdk getSched sched fd writer s2 = Some (Ok (), d, s') \<and> out s' = out s2 @ rd_rest reader)) \<and>
    (4 * length (uploaded es) + 3 \<le> k \<longrightarrow>
      Download P w clib A' sdk getSched (concat (replicate k download_round)) fd writer s2 \<noteq> None)"
proof -
  let ?E = "upload_env A lib clib K sdk blockSched (create_chunk P lib clib A sdk key (nat cap) bucketId name) (nat bufSize) bucketId fu"
  have bs: "nat bufSize = nat (fst (calculateBufferSizeAndCapacity sdk key))" by (simp add: assms(11))
  have "0 < DataBlocks ec" if "ipc_ec sdk = Some ec" for ec
    using assms(5) that rs_lawsD(1) by (fastforce simp: ec_laws_def)
  then have pos: "0 < nat bufSize" using bufferSize_pos [OF assms(6), of key] bs by simp
  have hold: "chunk_blocks P clib (assemble_chunk P (ipc_ec sdk) key (int i)) (chunks (nat bufSize) (rd_rest reader) ! i) (cu_Blocks (cdt_ChunkUpload cd))"
    if "i < length (chunks (nat bufSize) (rd_rest reader))" and "pe_create ?E (int i) (chunks (nat bufSize) (rd_rest reader) ! i) t = (Ok cd, t')" for i t cd t'
    using create_chunk_holds [OF assms(4,5,7,15) bs that(1)] that(2) by simp
  have E: "\<forall>ls l. AddRawLink (pe_lib ?E) ls l = Ok ()" "\<not> pe_resuming ?E" "0 < pe_bufSize ?E"
    using assms(8) new_upload_fresh [OF assms(9)] pos by simp_all
  have "Download P w clib A' sdk getSched sch fd writer s2 = run_download (download_env A' sdk fd
      (node_download w clib A' fd getSched (\<lambda>i. assemble_chunk P (ipc_ec sdk) key i) writer)) sch fd s2" for sch
    using assms(10,16,17) by (simp add: Download_def with_file_key_def downloadChunkBlocks_eq)
  then show ?thesis
    using uploaded_download [where assemble = "\<lambda>i. assemble_chunk P (ipc_ec sdk) key i" and sdk = sdk and sched = sched and k = k,
        OF assms(1-3,12-14) E _ assms(18-21), simplified upload_env_simps, OF hold] by simp
qed

text \<open>C2: A file uploaded in the second format is downloaded unchanged when the number of data blocks divides 16: \<open>Download2\<close> writes
  exactly the bytes that the upload has read, for every interleaving of the upload that ends without error and every interleaving of
  the download, and with enough rounds it ends, provided that no two blocks of one chunk have leaves with the same digest.\<close>

theorem file2_roundtrip:
  assumes "wire_laws w" and "cid_laws clib P" and "cid_text_law clib" and "dag_laws lib P"
    and "ipc_ec sdk = Some e" and "rs_laws (ec_enc e) d p par" and "DataBlocks e = int d" and "ParityBlocks e = int p"
    and "d dvd 16" and "d + p \<le> 1024" and "ipc_encryptionKey sdk \<noteq> []" and "\<forall>ls l. AddRawLink lib ls l = Ok ()"
    and "NewIPCFileUpload lib b name = Ok fu" and "encryptionKey P (ipc_encryptionKey sdk) [b, name] = Ok key"
    and "MaxPlaintextSizeForTarget targetCiphertextSize = Ok (int bufSize)"
    and "pipeline_run (upload_env A lib clib K sdk blockSched (create_chunk2 P lib clib A e key bucketId name) bufSize bucketId fu)
      (init_pipeline fu reader s) es n st" and "all_done st" and "pl_result st = Ok ()"
    and "leaves_apart2 P A e key (nat targetCiphertextSize) (chunks bufSize (rd_rest reader))"
    and "fd_BucketName fd = b" and "fd_Name fd = name" and "network_serves A' I out fd (map cu_Blocks (uploaded es))"
    and "writes_to I out writer" and "I s2" and "\<forall>dl. complete_schedule (length (cdl_Blocks dl)) (getSched dl)"
  shows "(Download2 P w clib A' sdk getSched sched fd writer s2 = None \<or>
      (\<exists>d s'. Download2 P w clib A' sdk getSched sched fd writer s2 = Some (Ok (), d, s') \<and> out s' = out s2 @ rd_rest reader)) \<and>
    (4 * length (uploaded es) + 3 \<le> k \<longrightarrow>
      Download2 P w clib A' sdk getSched (concat (replicate k download_round)) fd writer s2 \<noteq> None)"
proof -
  let ?E = "upload_env A lib clib K sdk blockSched (create_chunk2 P lib clib A e key bucketId name) bufSize bucketId fu"
  obtain u where "bufSize = max_plaintext u" "48 \<le> u" "u mod 16 = 0" using MaxPlaintextSizeForTarget_Ok [OF assms(15)] by (metis of_nat_eq_iff)
  then have E: "\<forall>ls l. AddRawLink (pe_lib ?E) ls l = Ok ()" "\<not> pe_resuming ?E" "0 < pe_bufSize ?E"
    using assms(12) new_upload_fresh [OF assms(13)] max_plaintext_pos by simp_all
  have hold: "chunk_blocks P clib (assemble_chunk2 P e key (int i)) (chunks bufSize (rd_rest reader) ! i) (cu_Blocks (cdt_ChunkUpload cd))"
    if "i < length (chunks bufSize (rd_rest reader))" and
      "create_chunk2 P lib clib A e key bucketId name (int i) (chunks bufSize (rd_rest reader) ! i) t = (Ok cd, t')" for i t cd t'
    using create_chunk2_holds [OF assms(4,6-10,19,15) that(1)] that(2) by (simp add: create_chunk2_def)
  have "Download2 P w clib A' sdk getSched sch fd writer s2 = run_download (download_env A' sdk fd
      (node_download w clib A' fd getSched (\<lambda>i. assemble_chunk2 P e key i) writer)) sch fd s2" for sch
    using assms(5,11,14,20,21) by (simp add: Download2_def with_file_key_def downloadChunkBlocksV2_eq)
  then show ?thesis
    using uploaded_download [where assemble = "\<lambda>i. assemble_chunk2 P e key i" and sdk = sdk and sched = sched and k = k,
        OF assms(1-3,16-18) E _ assms(22-25), simplified upload_env_simps, OF hold] by simp
qed

section \<open>Examples\<close>

text \<open>Three bytes uploaded to a world that accepts everything, downloaded from a node that keeps the blocks it was given:
  \<open>n\<close> blocks, all with the same bytes \<open>x\<close> under a leaf.\<close>

definition keeping_api :: "byte list \<Rightarrow> nat \<Rightarrow> (byte list, unit) api" where
  "keeping_api x n = serving_api\<lparr>
     rpc_FileDownloadChunkCreate := (\<lambda>_ _ _ _ _. aret (replicate n
       \<lparr>bdl_Cid = string_of (sha256_cid sample_prims (leaf_bytes x)), bdl_Size = 11, bdl_NodeId = ''i'', bdl_NodeAddress = ''n'', bdl_Permit = []\<rparr>)),
     cl_FileDownloadBlock := (\<lambda>_ _. aret ([leaf_bytes x], reader_EOF))\<rparr>"

definition sample_file :: IPCFileDownload where
  "sample_file = \<lparr>fd_counters = newDataCounters, fd_BucketName = ''b'', fd_Name = ''f'',
     fd_Chunks = [\<lparr>ch_CID = ''c'', ch_EncodedSize = 0, ch_Size = 3, ch_Index = 0\<rparr>]\<rparr>"

lemma sample_file_sel [simp]: "fd_BucketName sample_file = ''b''" "fd_Name sample_file = ''f''"
  by (simp_all add: sample_file_def)

lemma keeping_serves:
  assumes "\<forall>b \<in> set bs. bu_Data b = leaf_bytes x \<and> bu_CID b = string_of (sha256_cid sample_prims (leaf_bytes x))"
  shows "network_serves (keeping_api x (length bs)) (\<lambda>_. True) (\<lambda>s. s) sample_file [bs]"
proof -
  have "map bu_CID bs = replicate (length bs) (string_of (sha256_cid sample_prims (leaf_bytes x)))"
    using assms by (intro replicate_eqI) auto
  then show ?thesis using assms
    by (simp add: network_serves_def keeping_api_def serving_api_def failing_api_def sample_file_def fetchBlockData_def abind_def aret_def
        reader_EOF_def)
qed

abbreviation "all_blocks \<equiv> (\<lambda>dl :: FileChunkDownload. [0..<length (cdl_Blocks dl)])"
abbreviation "append_writer \<equiv> (\<lambda>bs s. (Ok (), s @ bs)) :: byte list \<Rightarrow> (byte list, unit) act"

lemma sample_setting:
  "NewIPCFileUpload (sample_dag_lib sample_prims) ''b'' ''f'' = Ok sample_upload" "rd_rest three_bytes = [1, 2, 3]"
  "\<forall>ls l. AddRawLink (sample_dag_lib sample_prims) ls l = Ok ()" "writes_to (\<lambda>_. True) (\<lambda>s. s) append_writer"
  "\<forall>dl. complete_schedule (length (cdl_Blocks dl)) (all_blocks dl)"
  by (simp_all add: NewIPCFileUpload_def NewDAGRoot_def sample_dag_lib_def sample_upload_def rd_rest_def writes_to_def
      complete_schedule_def atLeast0LessThan)

lemma sample_chunks: "3 < n \<Longrightarrow> chunks n [1, 2, 3] = [[1, 2, 3 :: byte]]"
  by (simp add: chunks.simps)

theorem file_roundtrip_witness:
  "\<exists>es c. uploaded es = [c] \<and> network_serves (keeping_api [1, 2, 3] 1) (\<lambda>_. True) (\<lambda>s. s) sample_file (map cu_Blocks (uploaded es)) \<and>
    (\<exists>d. Download sample_prims sample_wire (sample_cid_lib sample_prims) (keeping_api [1, 2, 3] 1) (sample_ipc [] None) all_blocks
      (concat (replicate 7 download_round)) sample_file append_writer [9] = Some (Ok (), d, [9, 1, 2, 3]))"
proof -
  obtain st es c b where run: "run_schedule accepting_env sample_schedule (init_pipeline sample_upload three_bytes []) = (st, es)"
    and st: "all_done st" "pl_result st = Ok ()" and c: "uploaded es = [c]" "cu_Blocks c = [b]"
    "bu_Data b = leaf_bytes [1, 2, 3]" "bu_CID b = string_of (sha256_cid sample_prims (leaf_bytes [1, 2, 3]))"
    by (rule accepted_sample)
  obtain n where "pipeline_run accepting_env (init_pipeline sample_upload three_bytes []) es n st"
    using schedule_runs [OF runs.start run] by auto
  then have pr: "pipeline_run (upload_env accepting_api (sample_dag_lib sample_prims) (sample_cid_lib sample_prims) sample_key_lib
      (sample_ipc [] None) (\<lambda>c. [0..<length (cu_Blocks c)]) (create_chunk sample_prims (sample_dag_lib sample_prims)
        (sample_cid_lib sample_prims) accepting_api (sample_ipc [] None) [] (nat 2000000) [9] ''f'')
      (nat 2000000) [9] sample_upload) (init_pipeline sample_upload three_bytes []) es n st" by simp
  have ipc: "ipc_maxBlocksInChunk (sample_ipc [] None) = 2" by (simp add: sample_ipc_def)
  have buf: "calculateBufferSizeAndCapacity (sample_ipc [] None) [] = (2000000, 2000000)"
    by (simp add: calculateBufferSizeAndCapacity_def Let_def BlockSize_def MB_def ipc)
  have key: "encryptionKey sample_prims (ipc_encryptionKey (sample_ipc [] None)) [''b'', ''f''] = Ok []" by (simp add: encryptionKey_def)
  have pieces: "ps = [[1, 2, 3]]" if "chunk_pieces P rnd None [] index (filled_buffer k bs) = Ok ps" "bs = [1, 2, 3]" for P rnd index k bs ps
    using that by (simp add: chunk_pieces_def coded_chunk_def contents_def chunks.simps BlockSize_def MB_def ToInt64_def)
  have cut: "chunks (nat 2000000) (rd_rest three_bytes) = [[1, 2, 3]]" by (simp add: sample_setting(2) sample_chunks)
  have apart: "leaves_apart sample_prims accepting_api (ipc_ec (sample_ipc [] None)) [] (nat 2000000) (chunks (nat 2000000) (rd_rest three_bytes))"
    unfolding leaves_apart_def cut sample_ipc_sel
  proof (intro allI impI)
    fix i t ps
    assume "i < length [[1, 2, 3 :: byte]]" and
      "chunk_pieces sample_prims (fst (rand_Reader accepting_api t)) None [] (int i) (filled_buffer (nat 2000000) ([[1, 2, 3]] ! i)) = Ok ps"
    then show "\<not> leaves_collide sample_prims ps" using pieces sample_leaves by fastforce
  qed
  have net: "network_serves (keeping_api [1, 2, 3] 1) (\<lambda>_. True) (\<lambda>s. s) sample_file (map cu_Blocks (uploaded es))"
    using keeping_serves [of "[b]" "[1, 2, 3]"] c by simp
  have "ec_laws (ipc_ec (sample_ipc [] None))" "2 \<le> ipc_maxBlocksInChunk (sample_ipc [] None)" "ipc_maxBlocksInChunk (sample_ipc [] None) \<le> 1024"
    by (simp_all add: ec_laws_def ipc)
  from file_roundtrip [OF sample_wire_laws sample_cid_laws sample_cid_text sample_dag_laws this sample_setting(3,1) key buf pr st apart
      sample_file_sel net sample_setting(4) TrueI sample_setting(5), of "concat (replicate 7 download_round)" "[9]" 7]
  have "\<exists>d. Download sample_prims sample_wire (sample_cid_lib sample_prims) (keeping_api [1, 2, 3] 1) (sample_ipc [] None) all_blocks
      (concat (replicate 7 download_round)) sample_file append_writer [9] = Some (Ok (), d, [9, 1, 2, 3])"
    by (auto simp: c(1) sample_setting(2))
  then show ?thesis using c(1) net by blast
qed

theorem file2_roundtrip_witness:
  "\<exists>x es c. uploaded es = [c] \<and> length (cu_Blocks c) = 2 \<and>
    network_serves (keeping_api x 2) (\<lambda>_. True) (\<lambda>s. s) sample_file (map cu_Blocks (uploaded es)) \<and>
    (\<exists>d. Download2 sample_prims sample_wire (sample_cid_lib sample_prims) (keeping_api x 2) (sample_ipc [7] (Some mirror_code)) all_blocks
      (concat (replicate 7 download_round)) sample_file append_writer [9] = Some (Ok (), d, [9, 1, 2, 3]))"
proof -
  let ?sdk = "sample_ipc [7] (Some mirror_code)" and ?dl = "sample_dag_lib sample_prims" and ?cl = "sample_cid_lib sample_prims"
  let ?buf = "filled_buffer (nat targetCiphertextSize) [1, 2, 3]" and ?n = "max_plaintext 16000000"
  have target: "targetCiphertextSize = int 16000000" by (simp add: targetCiphertextSize_def ToInt64_def MB_def)
  have size: "MaxPlaintextSizeForTarget targetCiphertextSize = Ok (int ?n)" unfolding target by (rule MaxPlaintextSizeForTarget_nat) simp_all
  have small: "csize 3 = 48" "csize 4 = 48" by (simp_all add: csize_def nblocks_def cend_def coff_def plen_def bsize_def)
  have fit: "csize 3 \<le> 16000000" "3 < ?n" using csize_le_iff [of 16000000 4] small by simp_all
  have len: "slen ?buf = 3" by simp
  have cap: "scap ?buf = 16000000" by (subst filled_buffer_slice(3)) (simp add: target)
  have room: "csize (slen ?buf) \<le> scap ?buf" unfolding len cap by (rule fit(1))
  obtain key where key: "encryptionKey sample_prims (ipc_encryptionKey ?sdk) [''b'', ''f''] = Ok key" by (auto simp: encryptionKey_def DeriveKey_def)
  have coded: "\<exists>bytes m b. coded_chunk2 sample_prims (Ok (\<lambda>_. 0)) mirror_code key i ?buf = Ok (bytes, int m) \<and> 0 < m \<and>
     bytes \<noteq> [] \<and> chunks m bytes = [b, b]" for i
    by (rule sample_coded2 [OF filled_buffer_slice(2) _ _ room]) simp_all
  obtain bytes m x where "coded_chunk2 sample_prims (Ok (\<lambda>_. 0)) mirror_code key 0 ?buf = Ok (bytes, int m)" "0 < m"
     "bytes \<noteq> []" "chunks m bytes = [x, x]" using coded by blast
  from sample_chunk_upload2 [OF this, of accepting_api "[]"] obtain cd b1 b2 where
    cd: "create_chunk2 sample_prims ?dl ?cl accepting_api mirror_code key [9] ''f'' 0 [1, 2, 3] [] = (Ok cd, [])" "cu_Index (cdt_ChunkUpload cd) = 0"
    and bs: "cu_Blocks (cdt_ChunkUpload cd) = [b1, b2]"
      "\<forall>y \<in> {b1, b2}. bu_Data y = leaf_bytes x \<and> bu_CID y = string_of (sha256_cid sample_prims (leaf_bytes x))"
    by (auto simp: create_chunk2_def accepting_api_def serving_api_def failing_api_def)
  let ?E = "upload_env accepting_api ?dl ?cl sample_key_lib ?sdk (\<lambda>c. [0..<length (cu_Blocks c)])
    (create_chunk2 sample_prims ?dl ?cl accepting_api mirror_code key [9] ''f'') ?n [9] sample_upload"
  obtain st es where run: "run_schedule ?E sample_schedule (init_pipeline sample_upload three_bytes []) = (st, es)" by fastforce
  moreover have "case run_schedule ?E sample_schedule (init_pipeline sample_upload three_bytes []) of (st, es) \<Rightarrow>
    all_done st \<and> pl_result st = Ok () \<and> fu_Name (pl_upload st) = ''f'' \<and>
    pl_world st = concat (map bu_Data (cu_Blocks (cdt_ChunkUpload cd))) \<and>
    root_links (us_dagRoot (fu_state (pl_upload st))) \<noteq> [] \<and> uploaded es = [cdt_ChunkUpload cd]"
    by (rule accepted_env [where create = "create_chunk2 sample_prims ?dl ?cl accepting_api mirror_code key [9] ''f''", OF cd fit(2)])
      (use bs in auto)
  ultimately have st: "all_done st" "pl_result st = Ok ()" and c: "uploaded es = [cdt_ChunkUpload cd]" by simp_all
  obtain k where pr: "pipeline_run ?E (init_pipeline sample_upload three_bytes []) es k st"
    using schedule_runs [OF runs.start run] by auto
  have apart: "leaves_apart2 sample_prims accepting_api mirror_code key (nat targetCiphertextSize) (chunks ?n (rd_rest three_bytes))"
    unfolding leaves_apart2_def sample_setting(2) sample_chunks [OF fit(2)]
  proof (intro allI impI)
    fix i t bs n
    assume i: "i < length [[1, 2, 3 :: byte]]" and "coded_chunk2 sample_prims (fst (rand_Reader accepting_api t)) mirror_code key (int i)
      (filled_buffer (nat targetCiphertextSize) ([[1, 2, 3]] ! i)) = Ok (bs, n)"
    then have "coded_chunk2 sample_prims (Ok (\<lambda>_. 0)) mirror_code key 0 ?buf = Ok (bs, n)"
      by (simp add: accepting_api_def serving_api_def failing_api_def)
    then show "\<not> leaves_collide sample_prims (chunks (nat n) bs)" using coded [of 0] by (auto simp: leaves_collide_def)
  qed
  have two: "length [b1, b2] = 2" "map cu_Blocks (uploaded es) = [[b1, b2]]" by (simp_all add: c bs(1))
  have net: "network_serves (keeping_api x 2) (\<lambda>_. True) (\<lambda>s. s) sample_file (map cu_Blocks (uploaded es))"
    unfolding two(2) two(1) [symmetric] by (rule keeping_serves) (use bs(2) in simp)
  have mirror: "rs_laws (ec_enc mirror_code) 1 1 (\<lambda>D. D)" "DataBlocks mirror_code = int 1" "ParityBlocks mirror_code = int 1"
    using mirror_laws by (simp_all add: mirror_code_def)
  have "ipc_ec ?sdk = Some mirror_code" "ipc_encryptionKey ?sdk \<noteq> []" "(1::nat) dvd 16" "(1::nat) + 1 \<le> 1024" by simp_all
  from file2_roundtrip [OF sample_wire_laws sample_cid_laws sample_cid_text sample_dag_laws this(1) mirror this(3,4,2) sample_setting(3,1) key size pr st apart
      sample_file_sel net sample_setting(4) TrueI sample_setting(5), of "concat (replicate 7 download_round)" "[9]" 7]
  have "\<exists>d. Download2 sample_prims sample_wire ?cl (keeping_api x 2) ?sdk all_blocks
      (concat (replicate 7 download_round)) sample_file append_writer [9] = Some (Ok (), d, [9, 1, 2, 3])"
    by (auto simp: c sample_setting(2))
  then show ?thesis using c bs net by (intro exI [of _ x] exI [of _ es]) simp
qed

end
