(* ===== verification/Paths.thy ===== *)
theory Paths
  imports SdkConfig
begin

text \<open>
  What the command line uses of the packages \<open>strings\<close> and \<open>path/filepath\<close> (on Unix): prefixes and suffixes,
  \<open>TrimSpace\<close>, \<open>Clean\<close>, \<open>Join\<close>, \<open>Base\<close>; and the directory a path leads to, as a list of names.
\<close>

section \<open>Text\<close>

definition HasPrefix :: "string \<Rightarrow> string \<Rightarrow> bool" where
  "HasPrefix s p \<longleftrightarrow> take (length p) s = p"

definition HasSuffix :: "string \<Rightarrow> string \<Rightarrow> bool" where
  "HasSuffix s p \<longleftrightarrow> length p \<le> length s \<and> drop (length s - length p) s = p"

definition TrimPrefix :: "string \<Rightarrow> string \<Rightarrow> string" where
  "TrimPrefix s p = (if HasPrefix s p then drop (length p) s else s)"

definition TrimSuffix :: "string \<Rightarrow> string \<Rightarrow> string" where
  "TrimSuffix s p = (if HasSuffix s p then take (length s - length p) s else s)"

text \<open>\<open>strings.TrimRight(s, cutset)\<close> for a cutset of one character.\<close>

definition TrimRight :: "string \<Rightarrow> char \<Rightarrow> string" where
  "TrimRight s c = rev (dropWhile (\<lambda>x. x = c) (rev s))"

lemma HasPrefix_append [simp]: "HasPrefix (p @ s) p"
  by (simp add: HasPrefix_def)

lemma HasPrefixE: "HasPrefix s p \<Longrightarrow> \<exists>t. s = p @ t"
  unfolding HasPrefix_def by (metis append_take_drop_id)

lemma TrimPrefix_append [simp]: "TrimPrefix (p @ s) p = s"
  by (simp add: TrimPrefix_def)

lemma HasSuffix_append [simp]: "HasSuffix (s @ p) p"
  by (simp add: HasSuffix_def)

lemma TrimSuffix_append [simp]: "TrimSuffix (s @ p) p = s"
  by (simp add: TrimSuffix_def)

lemma HasSuffixE: "HasSuffix s p \<Longrightarrow> s = TrimSuffix s p @ p"
  unfolding HasSuffix_def TrimSuffix_def by (metis append_take_drop_id HasSuffix_def)

text \<open>
  \<open>strings.TrimSpace\<close>: the white space of Unicode, by its encodings in UTF-8, is cut off at both ends. From the right
  the encodings are read backwards.
\<close>

definition space_runes :: "byte list list" where
  "space_runes = [[9], [10], [11], [12], [13], [32], [194, 133], [194, 160], [225, 154, 128]] @
     map (\<lambda>d. [226, 128, d]) [128, 129, 130, 131, 132, 133, 134, 135, 136, 137, 138, 168, 169, 175] @
     [[226, 129, 159], [227, 128, 128]]"

definition starts_with :: "byte list list \<Rightarrow> byte list \<Rightarrow> byte list option" where
  "starts_with runes bs = find (\<lambda>r. take (length r) bs = r) runes"

function strip :: "byte list list \<Rightarrow> byte list \<Rightarrow> byte list" where
  "strip runes [] = []"
| "strip runes (b # bs) =
     (case starts_with runes (b # bs) of None \<Rightarrow> b # bs | Some r \<Rightarrow> strip runes (drop (length r - 1) bs))"
  by pat_completeness auto
termination
  by (relation "measure (\<lambda>(runes, bs). length bs)") auto

definition TrimSpace :: "string \<Rightarrow> string" where
  "TrimSpace s = string_of (rev (strip (map rev space_runes) (rev (strip space_runes (bytes_of s)))))"

definition stripped :: "byte list list \<Rightarrow> byte list \<Rightarrow> bool" where
  "stripped runes bs \<longleftrightarrow> (\<forall>r \<in> set runes. take (length r) bs \<noteq> r)"

lemma strip_suffix: "[] \<notin> set runes \<Longrightarrow> \<exists>xs. bs = xs @ strip runes bs \<and> stripped runes (strip runes bs)"
proof (induction runes bs rule: strip.induct)
  case (1 runes)
  then show ?case by (auto simp: stripped_def)
next
  case (2 runes b bs)
  show ?case
  proof (cases "starts_with runes (b # bs)")
    case None
    then have "stripped runes (b # bs)" by (auto simp: starts_with_def stripped_def find_None_iff)
    with None show ?thesis by (intro exI [of _ "[]"]) simp
  next
    case (Some r)
    have "\<exists>xs. drop (length r - 1) bs = xs @ strip runes (drop (length r - 1) bs) \<and>
        stripped runes (strip runes (drop (length r - 1) bs))" by (rule "2.IH" [OF Some "2.prems"])
    then obtain xs where xs: "drop (length r - 1) bs = xs @ strip runes (drop (length r - 1) bs)"
      "stripped runes (strip runes (drop (length r - 1) bs))" by blast
    let ?tl = "strip runes (drop (length r - 1) bs)"
    have "bs = take (length r - 1) bs @ drop (length r - 1) bs" by simp
    then have "b # bs = (b # take (length r - 1) bs @ xs) @ ?tl" using xs(1) by (metis append_Cons append_assoc)
    moreover have "strip runes (b # bs) = ?tl" using Some by simp
    ultimately show ?thesis using xs(2) by (metis (no_types))
  qed
qed

lemma strip_stripped: "stripped runes bs \<Longrightarrow> strip runes bs = bs"
proof (cases bs)
  case (Cons b bs')
  assume "stripped runes bs"
  then have "starts_with runes bs = None" by (simp add: stripped_def starts_with_def find_None_iff)
  with Cons show ?thesis by simp
qed simp

lemma stripped_prefix: "stripped runes (xs @ ys) \<Longrightarrow> stripped runes xs"
  unfolding stripped_def
proof
  fix r
  assume s: "\<forall>r \<in> set runes. take (length r) (xs @ ys) \<noteq> r" and r: "r \<in> set runes"
  show "take (length r) xs \<noteq> r"
  proof
    assume "take (length r) xs = r"
    then have "length r \<le> length xs" by (metis length_take min.cobounded1 min_def)
    with \<open>take (length r) xs = r\<close> have "take (length r) (xs @ ys) = r" by simp
    with s r show False by blast
  qed
qed

lemma space_runes_nonempty: "[] \<notin> set space_runes" "[] \<notin> set (map rev space_runes)"
  by (auto simp: space_runes_def)

lemma TrimSpace_stripped:
  "stripped space_runes (bytes_of (TrimSpace s))" "stripped (map rev space_runes) (rev (bytes_of (TrimSpace s)))"
proof -
  let ?l = "strip space_runes (bytes_of s)" and ?rr = "map rev space_runes"
  obtain ys where ys: "rev ?l = ys @ strip ?rr (rev ?l)" "stripped ?rr (strip ?rr (rev ?l))"
    using strip_suffix [OF space_runes_nonempty(2), of "rev ?l"] by blast
  show "stripped ?rr (rev (bytes_of (TrimSpace s)))" using ys(2) by (simp add: TrimSpace_def)
  have "?l = rev (strip ?rr (rev ?l)) @ rev ys" using ys(1) by (metis rev_append rev_rev_ident)
  moreover have "stripped space_runes ?l" using strip_suffix [OF space_runes_nonempty(1)] by blast
  ultimately show "stripped space_runes (bytes_of (TrimSpace s))"
    using stripped_prefix [of space_runes "rev (strip ?rr (rev ?l))" "rev ys"] by (simp add: TrimSpace_def)
qed

lemma TrimSpace_idem [simp]: "TrimSpace (TrimSpace s) = TrimSpace s"
  using TrimSpace_stripped [of s] by (subst TrimSpace_def) (simp add: strip_stripped)

section \<open>Paths\<close>

fun split_on :: "char \<Rightarrow> string \<Rightarrow> string list" where
  "split_on c [] = [[]]"
| "split_on c (x # xs) =
     (if x = c then [] # split_on c xs else case split_on c xs of w # ws \<Rightarrow> (x # w) # ws | [] \<Rightarrow> [[x]])"

abbreviation slash :: char where "slash \<equiv> CHR ''/''"

text \<open>One name of a path is put behind those before it; at the root, \<open>..\<close> stays there.\<close>

definition clean_step :: "bool \<Rightarrow> string list \<Rightarrow> string \<Rightarrow> string list" where
  "clean_step rooted out c =
     (if c = [] \<or> c = ''.'' then out
      else if c = ''..'' then
        (if out \<noteq> [] \<and> last out \<noteq> ''..'' then butlast out else if rooted then out else out @ [c])
      else out @ [c])"

definition is_rooted :: "string \<Rightarrow> bool" where
  "is_rooted p \<longleftrightarrow> p \<noteq> [] \<and> hd p = slash"

definition Clean :: "string \<Rightarrow> string" where
  "Clean p =
     (let out = foldl (clean_step (is_rooted p)) [] (split_on slash p)
      in if is_rooted p then slash # join_slash out else if out = [] then ''.'' else join_slash out)"

definition Join :: "string \<Rightarrow> string \<Rightarrow> string" where
  "Join dir name =
     (if dir \<noteq> [] then Clean (dir @ slash # name) else if name \<noteq> [] then Clean name else [])"

definition Base :: "string \<Rightarrow> string" where
  "Base p =
     (let q = TrimRight p slash
      in if p = [] then ''.'' else if q = [] then [slash] else rev (takeWhile (\<lambda>c. c \<noteq> slash) (rev q)))"

text \<open>The names a path leads through, from the root.\<close>

definition resolve :: "string list \<Rightarrow> string \<Rightarrow> string list" where
  "resolve cwd p = foldl (clean_step True) (if is_rooted p then [] else cwd) (split_on slash p)"

definition plain :: "string \<Rightarrow> bool" where
  "plain c \<longleftrightarrow> c \<noteq> [] \<and> c \<noteq> ''.'' \<and> c \<noteq> ''..'' \<and> slash \<notin> set c"

lemma split_on_nonempty [simp]: "split_on c s \<noteq> []"
  by (induction s) (auto split: list.splits)

lemma split_on_append: "split_on c (a @ c # b) = split_on c a @ split_on c b"
  by (induction a) (auto split: list.splits)

lemma split_on_none: "c \<notin> set s \<Longrightarrow> split_on c s = [s]"
  by (induction s) auto

lemma split_on_parts: "w \<in> set (split_on c s) \<Longrightarrow> c \<notin> set w"
  by (induction s arbitrary: w) (auto split: if_splits list.splits)

lemma split_join: "ws \<noteq> [] \<Longrightarrow> \<forall>w \<in> set ws. slash \<notin> set w \<Longrightarrow> split_on slash (join_slash ws) = ws"
  by (induction ws rule: join_slash.induct) (auto simp: split_on_none split_on_append)

text \<open>The names that \<open>clean_step\<close> keeps.\<close>

definition kept :: "string \<Rightarrow> bool" where
  "kept c \<longleftrightarrow> c \<noteq> [] \<and> c \<noteq> ''.'' \<and> slash \<notin> set c"

lemma kept_hd: "kept c \<Longrightarrow> c \<noteq> [] \<and> hd c \<noteq> slash"
  unfolding kept_def by (metis hd_in_set)

lemma plain_kept: "plain c \<longleftrightarrow> kept c \<and> c \<noteq> ''..''"
  by (auto simp: plain_def kept_def)

lemma butlast_all: "\<forall>w \<in> set ws. Q w \<Longrightarrow> \<forall>w \<in> set (butlast ws). Q w"
  by (auto dest: in_set_butlastD)

lemma clean_kept:
  "\<forall>w \<in> set cs. slash \<notin> set w \<Longrightarrow> \<forall>w \<in> set out. kept w \<Longrightarrow> \<forall>w \<in> set (foldl (clean_step r) out cs). kept w"
proof (induction cs arbitrary: out)
  case (Cons c cs)
  have "\<forall>w \<in> set (clean_step r out c). kept w"
    using Cons.prems butlast_all [of out kept] by (auto simp: clean_step_def kept_def)
  with Cons show ?case by simp
qed simp

lemma clean_plain:
  "\<forall>w \<in> set cs. slash \<notin> set w \<Longrightarrow> list_all plain out \<Longrightarrow> list_all plain (foldl (clean_step True) out cs)"
proof (induction cs arbitrary: out)
  case (Cons c cs)
  have "list_all plain (clean_step True out c)"
    using Cons.prems butlast_all [of out plain] by (auto simp: clean_step_def plain_def list_all_iff)
  with Cons show ?case by simp
qed simp

lemma clean_plain_id: "list_all plain ws \<Longrightarrow> foldl (clean_step True) out ws = out @ ws"
  by (induction ws arbitrary: out) (auto simp: clean_step_def plain_def)

text \<open>Cleaning a path does not change where it leads.\<close>

lemma clean_twice:
  assumes "\<forall>w \<in> set cs. slash \<notin> set w" and "list_all plain start"
  shows "foldl (clean_step True) start (foldl (clean_step False) [] cs) = foldl (clean_step True) start cs"
  using assms(1)
proof (induction cs rule: rev_induct)
  case (snoc c cs)
  let ?out = "foldl (clean_step False) [] cs"
  have ih: "foldl (clean_step True) start ?out = foldl (clean_step True) start cs" using snoc by simp
  have "foldl (clean_step True) start (clean_step False ?out c) = clean_step True (foldl (clean_step True) start ?out) c"
  proof (cases "c = ''..'' \<and> ?out \<noteq> [] \<and> last ?out \<noteq> ''..''")
    case True
    let ?b = "foldl (clean_step True) start (butlast ?out)"
    have k: "\<forall>w \<in> set ?out. kept w" by (rule clean_kept) (use snoc.prems in auto)
    then have l: "plain (last ?out)" using True by (auto simp: plain_kept)
    have "?out = butlast ?out @ [last ?out]" using True by simp
    then have "foldl (clean_step True) start ?out = clean_step True ?b (last ?out)" by (metis foldl_append foldl_Cons foldl_Nil)
    then have "foldl (clean_step True) start ?out = ?b @ [last ?out]" using l by (auto simp: clean_step_def plain_def)
    moreover have "clean_step False ?out c = butlast ?out" "clean_step True (?b @ [last ?out]) c = ?b"
      using True l by (auto simp: clean_step_def plain_def)
    ultimately show ?thesis by simp
  qed (auto simp: clean_step_def)
  then show ?case using ih by simp
qed simp

lemma join_kept: "ws \<noteq> [] \<Longrightarrow> \<forall>w \<in> set ws. kept w \<Longrightarrow> join_slash ws \<noteq> [] \<and> hd (join_slash ws) \<noteq> slash"
  by (induction ws rule: join_slash.induct) (simp_all add: kept_hd)

lemma Clean_nonempty: "Clean p \<noteq> []"
proof -
  let ?out = "foldl (clean_step (is_rooted p)) [] (split_on slash p)"
  have "\<forall>w \<in> set ?out. kept w" by (rule clean_kept) (use split_on_parts in auto)
  then show ?thesis using join_kept [of ?out] by (auto simp: Clean_def Let_def)
qed

lemma resolve_Clean:
  assumes "p \<noteq> []" and "list_all plain cwd"
  shows "resolve cwd (Clean p) = resolve cwd p"
proof -
  let ?cs = "split_on slash p" and ?r = "is_rooted p"
  let ?out = "foldl (clean_step ?r) [] ?cs"
  have parts: "\<forall>w \<in> set ?cs. slash \<notin> set w" using split_on_parts by blast
  have k: "\<forall>w \<in> set ?out. kept w" by (rule clean_kept [OF parts]) simp
  then have no_slash: "\<forall>w \<in> set ?out. slash \<notin> set w" by (simp add: kept_def)
  show ?thesis
  proof (cases ?r)
    case True
    then have pl: "list_all plain ?out" using clean_plain [OF parts, of "[]"] by simp
    have "is_rooted (Clean p)" using True by (simp add: Clean_def Let_def is_rooted_def)
    moreover have "split_on slash (Clean p) = [] # (if ?out = [] then [[]] else ?out)"
      using True split_join [OF _ no_slash] by (simp add: Clean_def Let_def)
    ultimately have "resolve cwd (Clean p) = ?out"
      using clean_plain_id [OF pl, of "[]"] by (auto simp: resolve_def clean_step_def)
    then show ?thesis using True by (simp add: resolve_def)
  next
    case False
    have "\<not> is_rooted (Clean p)" using False join_kept [OF _ k] by (auto simp: Clean_def Let_def is_rooted_def)
    moreover have "split_on slash (Clean p) = (if ?out = [] then [''.''] else ?out)"
      using False split_join [OF _ no_slash] by (simp add: Clean_def Let_def)
    ultimately have "resolve cwd (Clean p) = foldl (clean_step True) cwd ?out"
      using False by (auto simp: resolve_def clean_step_def)
    then show ?thesis using clean_twice [OF parts assms(2)] False by (simp add: resolve_def)
  qed
qed

lemma resolve_plain: "list_all plain cwd \<Longrightarrow> list_all plain (resolve cwd p)"
  using split_on_parts by (auto simp: resolve_def intro!: clean_plain)

lemma resolve_Join:
  assumes "dir \<noteq> []" and "list_all plain cwd" and "plain name"
  shows "resolve cwd (Join dir name) = resolve cwd dir @ [name]"
proof -
  have "is_rooted (dir @ slash # name) = is_rooted dir" using assms(1) by (simp add: is_rooted_def)
  moreover have "split_on slash name = [name]" using assms(3) by (simp add: split_on_none plain_def)
  ultimately show ?thesis
    using assms resolve_Clean [of "dir @ slash # name" cwd]
    by (auto simp: Join_def resolve_def split_on_append clean_step_def plain_def)
qed

end
