(* ===== verification/FileSystem.thy ===== *)
theory FileSystem
  imports Paths Actions "HOL-Library.AList" "HOL-Library.List_Lexorder" "HOL-Library.Char_ord"
begin

text \<open>
  The calls of package \<open>os\<close> that the command line makes, on a tree of files and directories. A node of the tree is
  named by the names on the way to it from the root. There are no symbolic links: a path leads where its names lead.

  Any call can fail for other reasons (permissions, a broken disk): \<open>fs_fault\<close> is the error that a call on a path
  reports, if any, and \<open>fs_short\<close> how many bytes of a write reach the disk before it fails. Permission bits are left out.
\<close>

datatype fs_node = File "byte list" | Dir

record file_system =
  fs_nodes :: "(string list \<times> fs_node) list"
  fs_cwd :: "string list"
  fs_fault :: "string \<Rightarrow> string \<Rightarrow> go_error option"
  fs_short :: "string \<Rightarrow> (nat \<times> go_error) option"

definition os_ErrNotExist :: go_error where "os_ErrNotExist = ErrNew ''file does not exist''"
definition os_ErrNotDir :: go_error where "os_ErrNotDir = ErrNew ''not a directory''"
definition os_ErrIsDir :: go_error where "os_ErrIsDir = ErrNew ''is a directory''"

definition IsNotExist :: "go_error \<Rightarrow> bool" where
  "IsNotExist e \<longleftrightarrow> err_is e os_ErrNotExist"

definition PathError :: "string \<Rightarrow> string \<Rightarrow> go_error \<Rightarrow> go_error" where
  "PathError op path e = ErrWrap (op @ '' '' @ path @ '': '') e []"

definition node :: "file_system \<Rightarrow> string list \<Rightarrow> fs_node option" where
  "node fs k = (if k = [] then Some Dir else map_of (fs_nodes fs) k)"

definition set_node :: "string list \<Rightarrow> fs_node \<Rightarrow> file_system \<Rightarrow> file_system" where
  "set_node k n fs = fs\<lparr>fs_nodes := AList.update k n (fs_nodes fs)\<rparr>"

definition target :: "file_system \<Rightarrow> string \<Rightarrow> string list" where
  "target fs path = resolve (fs_cwd fs) path"

text \<open>Nothing is there: a name on the way is missing, or is a file.\<close>

definition missing_error :: "file_system \<Rightarrow> string list \<Rightarrow> go_error" where
  "missing_error fs k =
     (if list_ex (\<lambda>i. case node fs (take i k) of Some (File _) \<Rightarrow> True | _ \<Rightarrow> False) [0..<length k]
      then os_ErrNotDir else os_ErrNotExist)"

type_synonym 'a os_call = "(file_system, 'a) act"

text \<open>A call on a path that finds a node there.\<close>

definition at_node :: "string \<Rightarrow> string \<Rightarrow> (fs_node \<Rightarrow> 'a os_call) \<Rightarrow> 'a os_call" where
  "at_node op path f fs =
     (case fs_fault fs op path of
        Some e \<Rightarrow> (Err e, fs)
      | None \<Rightarrow>
          if path = [] then (Err (PathError op path os_ErrNotExist), fs)
          else (case node fs (target fs path) of
                  None \<Rightarrow> (Err (PathError op path (missing_error fs (target fs path))), fs)
                | Some n \<Rightarrow> f n fs))"

definition os_Stat :: "string \<Rightarrow> fs_node os_call" where
  "os_Stat path = at_node ''stat'' path aret"

definition os_ReadFile :: "string \<Rightarrow> byte list os_call" where
  "os_ReadFile path = at_node ''open'' path (\<lambda>n.
     case n of File bs \<Rightarrow> aret bs | Dir \<Rightarrow> afail (PathError ''read'' path os_ErrIsDir))"

definition dir_entries :: "file_system \<Rightarrow> string list \<Rightarrow> string list" where
  "dir_entries fs k = sort (map last (filter (\<lambda>j. j \<noteq> [] \<and> butlast j = k) (remdups (map fst (fs_nodes fs)))))"

text \<open>Entries come sorted by name.\<close>

definition os_ReadDir :: "string \<Rightarrow> string list os_call" where
  "os_ReadDir path = at_node ''open'' path (\<lambda>n fs.
     case n of Dir \<Rightarrow> (Ok (dir_entries fs (target fs path)), fs)
     | File _ \<Rightarrow> (Err (PathError ''readdirent'' path os_ErrNotDir), fs))"

fun make_dirs :: "string \<Rightarrow> string list \<Rightarrow> string list \<Rightarrow> unit os_call" where
  "make_dirs path cur [] fs = (Ok (), fs)"
| "make_dirs path cur (c # cs) fs =
     (case node fs (cur @ [c]) of
        Some Dir \<Rightarrow> make_dirs path (cur @ [c]) cs fs
      | Some (File _) \<Rightarrow> (Err (PathError ''mkdir'' path os_ErrNotDir), fs)
      | None \<Rightarrow> make_dirs path (cur @ [c]) cs (set_node (cur @ [c]) Dir fs))"

definition os_MkdirAll :: "string \<Rightarrow> unit os_call" where
  "os_MkdirAll path fs =
     (case fs_fault fs ''mkdir'' path of
        Some e \<Rightarrow> (Err e, fs)
      | None \<Rightarrow>
          if path = [] then (Err (PathError ''mkdir'' path os_ErrNotExist), fs)
          else make_dirs path [] (target fs path) fs)"

text \<open>
  Opening for writing: the file is there afterwards, and empty. A write appends to what was written.
\<close>

definition os_Create :: "string \<Rightarrow> unit os_call" where
  "os_Create path fs =
     (let k = target fs path in
      case fs_fault fs ''create'' path of
        Some e \<Rightarrow> (Err e, fs)
      | None \<Rightarrow>
          if path = [] then (Err (PathError ''open'' path os_ErrNotExist), fs)
          else if node fs k = Some Dir then (Err (PathError ''open'' path os_ErrIsDir), fs)
          else if node fs (butlast k) \<noteq> Some Dir then (Err (PathError ''open'' path (missing_error fs k)), fs)
          else (Ok (), set_node k (File []) fs))"

definition file_Write :: "string \<Rightarrow> byte list \<Rightarrow> unit os_call" where
  "file_Write path bs fs =
     (let k = target fs path;
          old = (case node fs k of Some (File old) \<Rightarrow> old | _ \<Rightarrow> [])
      in case fs_short fs path of
           Some (n, e) \<Rightarrow> (Err e, set_node k (File (old @ take n bs)) fs)
         | None \<Rightarrow> (Ok (), set_node k (File (old @ bs)) fs))"

definition os_WriteFile :: "string \<Rightarrow> byte list \<Rightarrow> unit os_call" where
  "os_WriteFile path bs = abind (os_Create path) (\<lambda>_. file_Write path bs)"

section \<open>What the calls change\<close>

lemma node_set_node [simp]: "k \<noteq> [] \<Longrightarrow> node (set_node k n fs) j = (if j = k then Some n else node fs j)"
  by (simp add: node_def set_node_def update_conv')

lemma set_node_sel [simp]:
  "fs_cwd (set_node k n fs) = fs_cwd fs" "fs_fault (set_node k n fs) = fs_fault fs" "fs_short (set_node k n fs) = fs_short fs"
  "target (set_node k n fs) p = target fs p"
  by (simp_all add: set_node_def target_def)

text \<open>The same tree above an old one: what was there is still there, as it was.\<close>

definition fs_extends :: "file_system \<Rightarrow> file_system \<Rightarrow> bool" where
  "fs_extends fs fs' \<longleftrightarrow>
     (\<forall>k n. node fs k = Some n \<longrightarrow> node fs' k = Some n) \<and> fs_cwd fs' = fs_cwd fs \<and> fs_fault fs' = fs_fault fs \<and> fs_short fs' = fs_short fs"

lemma fs_extends_refl [simp]: "fs_extends fs fs"
  by (simp add: fs_extends_def)

lemma fs_extends_trans: "fs_extends a b \<Longrightarrow> fs_extends b c \<Longrightarrow> fs_extends a c"
  by (simp add: fs_extends_def)

lemma fs_extends_target: "fs_extends fs fs' \<Longrightarrow> target fs' p = target fs p"
  by (simp add: fs_extends_def target_def)

lemma fs_extends_set_node: "node fs k = None \<Longrightarrow> k \<noteq> [] \<Longrightarrow> fs_extends fs (set_node k n fs)"
  by (auto simp: fs_extends_def)

lemma at_node_state:
  assumes "at_node op path f fs = (r, fs')" and "\<And>n r fs'. f n fs = (r, fs') \<Longrightarrow> fs' = fs"
  shows "fs' = fs"
  using assms by (auto simp: at_node_def split: option.splits if_splits)

lemma os_reads_state:
  "os_Stat path fs = (r1, fs') \<Longrightarrow> fs' = fs"
  "os_ReadFile path fs = (r2, fs') \<Longrightarrow> fs' = fs"
  "os_ReadDir path fs = (r3, fs') \<Longrightarrow> fs' = fs"
  unfolding os_Stat_def os_ReadFile_def os_ReadDir_def
  by (erule at_node_state; simp split: fs_node.splits)+

lemma make_dirs_extends: "make_dirs path cur cs fs = (r, fs') \<Longrightarrow> fs_extends fs fs'"
proof (induction path cur cs fs arbitrary: r fs' rule: make_dirs.induct)
  case (2 path cur c cs fs)
  show ?case
  proof (cases "node fs (cur @ [c])")
    case None
    have "fs_extends fs (set_node (cur @ [c]) Dir fs)" by (rule fs_extends_set_node [OF None]) simp
    moreover have "fs_extends (set_node (cur @ [c]) Dir fs) fs'" using "2.IH"(1) [OF None] "2.prems" None by simp
    ultimately show ?thesis by (rule fs_extends_trans)
  next
    case (Some n)
    then show ?thesis using 2 by (cases n) auto
  qed
qed simp

lemma make_dirs_Ok:
  "make_dirs path cur cs fs = (Ok (), fs') \<Longrightarrow> node fs cur = Some Dir \<Longrightarrow> node fs' (cur @ cs) = Some Dir"
proof (induction path cur cs fs arbitrary: fs' rule: make_dirs.induct)
  case (1 path cur fs)
  then show ?case by simp
next
  case (2 path cur c cs fs)
  show ?case
  proof (cases "node fs (cur @ [c])")
    case None
    then have "node fs' ((cur @ [c]) @ cs) = Some Dir" using "2.prems" by (intro "2.IH"(1)) auto
    then show ?thesis by simp
  next
    case (Some n)
    then have "node fs' ((cur @ [c]) @ cs) = Some Dir" using 2 by (cases n) auto
    then show ?thesis by simp
  qed
qed

lemma os_MkdirAll_extends: "os_MkdirAll path fs = (r, fs') \<Longrightarrow> fs_extends fs fs'"
  by (auto simp: os_MkdirAll_def dest: make_dirs_extends split: option.splits if_splits)

lemma os_MkdirAll_Ok: "os_MkdirAll path fs = (Ok (), fs') \<Longrightarrow> path \<noteq> [] \<and> node fs' (target fs path) = Some Dir"
  using make_dirs_Ok [of path "[]" "target fs path" fs fs'] by (auto simp: os_MkdirAll_def node_def split: option.splits if_splits)

text \<open>Where the directory is there, nothing is made.\<close>

definition dir_chain :: "file_system \<Rightarrow> string list \<Rightarrow> bool" where
  "dir_chain fs k \<longleftrightarrow> (\<forall>i \<le> length k. node fs (take i k) = Some Dir)"

lemma make_dirs_id: "dir_chain fs (cur @ cs) \<Longrightarrow> make_dirs path cur cs fs = (Ok (), fs)"
proof (induction cs arbitrary: cur)
  case (Cons c cs)
  have "node fs (take (Suc (length cur)) (cur @ c # cs)) = Some Dir"
    using Cons.prems unfolding dir_chain_def by (metis add_Suc_right le_add1 length_Cons length_append add_Suc)
  then have "node fs (cur @ [c]) = Some Dir" by simp
  with Cons.IH [of "cur @ [c]"] Cons.prems show ?case by simp
qed simp

lemma make_dirs_chain:
  "make_dirs path cur cs fs = (Ok (), fs') \<Longrightarrow> dir_chain fs cur \<Longrightarrow> dir_chain fs' (cur @ cs)"
proof (induction path cur cs fs arbitrary: fs' rule: make_dirs.induct)
  case (2 path cur c cs fs)
  have step: "dir_chain fs'' (cur @ [c])" if "fs_extends fs fs''" "node fs'' (cur @ [c]) = Some Dir" for fs''
    using that "2.prems"(2) by (auto simp: dir_chain_def fs_extends_def le_Suc_eq)
  show ?case
  proof (cases "node fs (cur @ [c])")
    case None
    have "fs_extends fs (set_node (cur @ [c]) Dir fs)" by (rule fs_extends_set_node [OF None]) simp
    then have "dir_chain (set_node (cur @ [c]) Dir fs) (cur @ [c])" by (rule step) simp
    then have "dir_chain fs' ((cur @ [c]) @ cs)" using "2.prems" None by (intro "2.IH"(1)) auto
    then show ?thesis by simp
  next
    case (Some n)
    then have "dir_chain fs' ((cur @ [c]) @ cs)" using 2 step by (cases n) auto
    then show ?thesis by simp
  qed
qed simp

lemma os_MkdirAll_again:
  assumes "os_MkdirAll path fs = (Ok (), fs')" and "fs_extends fs' fs''"
  shows "os_MkdirAll path fs'' = (Ok (), fs'')"
proof -
  have ext: "fs_extends fs fs''" using os_MkdirAll_extends [OF assms(1)] assms(2) fs_extends_trans by blast
  have m: "make_dirs path [] (target fs path) fs = (Ok (), fs')" "path \<noteq> []" "fs_fault fs ''mkdir'' path = None"
    using assms(1) by (auto simp: os_MkdirAll_def split: option.splits if_splits)
  have "dir_chain fs' ([] @ target fs path)" by (rule make_dirs_chain [OF m(1)]) (simp add: dir_chain_def node_def)
  then have "dir_chain fs'' (target fs path)" using assms(2) by (auto simp: dir_chain_def fs_extends_def)
  then show ?thesis
    using m(2,3) ext make_dirs_id [of fs'' "[]" "target fs path" path]
    by (simp add: os_MkdirAll_def fs_extends_target [OF ext]) (simp add: fs_extends_def target_def)
qed

lemma os_Create_Ok:
  "os_Create path fs = (Ok (), fs') \<longleftrightarrow>
   fs_fault fs ''create'' path = None \<and> path \<noteq> [] \<and> node fs (target fs path) \<noteq> Some Dir \<and>
   node fs (butlast (target fs path)) = Some Dir \<and> fs' = set_node (target fs path) (File []) fs"
  by (auto simp: os_Create_def Let_def split: option.splits)

lemma not_Dir_nonempty: "node fs k \<noteq> Some Dir \<Longrightarrow> k \<noteq> []"
  by (auto simp: node_def)

text \<open>A file that is written where there was nothing.\<close>

lemma os_WriteFile_extends:
  assumes "os_WriteFile path bs fs = (r, fs')" and "node fs (target fs path) = None"
  shows "fs_extends fs fs'"
proof (cases "\<exists>fs1. os_Create path fs = (Ok (), fs1)")
  case True
  have k: "target fs path \<noteq> []" using assms(2) by (auto simp: node_def)
  moreover obtain fs1 where fs1: "os_Create path fs = (Ok (), fs1)" using True by blast
  moreover have "file_Write path bs fs1 = (r, fs')" "fs1 = set_node (target fs path) (File []) fs"
    using assms(1) fs1 by (simp_all add: os_WriteFile_def abind_def) (simp add: os_Create_Ok)
  ultimately have "\<exists>bs'. fs' = set_node (target fs path) (File bs') fs1"
    by (auto simp: file_Write_def Let_def split: option.splits)
  then obtain bs' where "\<forall>j. node fs' j = (if j = target fs path then Some (File bs') else node fs j)"
    "fs_cwd fs' = fs_cwd fs" "fs_fault fs' = fs_fault fs" "fs_short fs' = fs_short fs"
    using k \<open>fs1 = _\<close> by auto
  then show ?thesis using assms(2) by (auto simp: fs_extends_def)
next
  case False
  then have "fs' = fs" using assms(1)
    by (auto simp: os_WriteFile_def abind_def os_Create_def Let_def split: option.splits if_splits)
  then show ?thesis by simp
qed

lemma os_WriteFile_Ok:
  assumes "os_WriteFile path bs fs = (Ok (), fs')"
  shows "node fs' (target fs path) = Some (File bs)" and "path \<noteq> []"
    and "\<And>k. k \<noteq> target fs path \<Longrightarrow> node fs' k = node fs k"
    and "fs_cwd fs' = fs_cwd fs" and "fs_fault fs' = fs_fault fs"
proof -
  obtain fs1 where fs1: "os_Create path fs = (Ok (), fs1)" "file_Write path bs fs1 = (Ok (), fs')"
    using assms by (auto simp: os_WriteFile_def abind_Ok_iff)
  have k: "target fs path \<noteq> []" using fs1(1) not_Dir_nonempty by (auto simp: os_Create_Ok)
  have fs': "fs' = set_node (target fs path) (File bs) (set_node (target fs path) (File []) fs)" "path \<noteq> []"
    using fs1 k by (auto simp: os_Create_Ok file_Write_def Let_def split: option.splits)
  then show "node fs' (target fs path) = Some (File bs)" "path \<noteq> []"
    "\<And>k. k \<noteq> target fs path \<Longrightarrow> node fs' k = node fs k" "fs_cwd fs' = fs_cwd fs" "fs_fault fs' = fs_fault fs"
    using k by simp_all
qed

lemma os_ReadFile_Ok:
  "os_ReadFile path fs = (Ok bs, fs') \<longleftrightarrow>
   fs_fault fs ''open'' path = None \<and> path \<noteq> [] \<and> node fs (target fs path) = Some (File bs) \<and> fs' = fs"
  by (auto simp: os_ReadFile_def at_node_def split: option.splits fs_node.splits)

lemma set_dir_entries: "n \<in> set (dir_entries fs k) \<longleftrightarrow> node fs (k @ [n]) \<noteq> None"
proof -
  have "n \<in> set (dir_entries fs k) \<longleftrightarrow> (\<exists>j \<in> set (map fst (fs_nodes fs)). j \<noteq> [] \<and> butlast j = k \<and> n = last j)"
    by (auto simp: dir_entries_def)
  also have "\<dots> \<longleftrightarrow> k @ [n] \<in> set (map fst (fs_nodes fs))"
    by (metis append_butlast_last_id butlast_snoc last_snoc snoc_eq_iff_butlast)
  also have "\<dots> \<longleftrightarrow> node fs (k @ [n]) \<noteq> None" by (auto simp: node_def map_of_eq_None_iff)
  finally show ?thesis .
qed

end
