(* ===== verification/Wallet.thy ===== *)
theory Wallet
  imports FileSystem
begin

text \<open>
  \<open>cmd/akavecli/wallet.go\<close>: the wallets of the command line, one JSON file each in the directory given by the flag
  \<open>--keystore\<close>.

  The state of a command is the file system, what was printed, and the rest of the world. Keys, addresses,
  \<open>hexutil.Decode\<close>, the JSON coder and the Ethereum node are parameters. Text is taken to be valid UTF-8.
\<close>

section \<open>The state of a command\<close>

datatype printed = Printed string | PrintedErr string

record 's cli =
  cw_fs :: file_system
  cw_out :: "printed list"
  cw_world :: 's

definition in_fs :: "'a os_call \<Rightarrow> ('s cli, 'a) act" where
  "in_fs f c = (case f (cw_fs c) of (r, fs) \<Rightarrow> (r, c\<lparr>cw_fs := fs\<rparr>))"

lemma in_fs_iff: "in_fs f c = (r, c') \<longleftrightarrow> f (cw_fs c) = (r, cw_fs c') \<and> c' = c\<lparr>cw_fs := cw_fs c'\<rparr>"
  by (cases "f (cw_fs c)"; cases c; cases c') (auto simp: in_fs_def)

definition in_world :: "('s, 'a) act \<Rightarrow> ('s cli, 'a) act" where
  "in_world m c = (case m (cw_world c) of (r, w) \<Rightarrow> (r, c\<lparr>cw_world := w\<rparr>))"

definition Printf :: "string \<Rightarrow> ('s cli, unit) act" where
  "Printf s c = (Ok (), c\<lparr>cw_out := cw_out c @ [Printed s]\<rparr>)"

definition PrintErrf :: "string \<Rightarrow> ('s cli, unit) act" where
  "PrintErrf s c = (Ok (), c\<lparr>cw_out := cw_out c @ [PrintedErr s]\<rparr>)"

text \<open>\<open>fmt.Errorf("...: %w", err)\<close> around an error.\<close>

definition failing :: "string \<Rightarrow> ('w, 'a) act \<Rightarrow> ('w, 'a) act" where
  "failing what = amap_err (\<lambda>e. ErrWrap (what @ '': '') e [])"

definition quoted :: "string \<Rightarrow> string" where
  "quoted s = CHR 0x27 # s @ [CHR 0x27]"

abbreviation newline :: string where "newline \<equiv> [CHR 0x0A]"
abbreviation tabulator :: string where "tabulator \<equiv> [CHR 0x09]"

text \<open>\<open>%-20s\<close>: padded on the right to 20 characters, counted without the continuation bytes of UTF-8.\<close>

definition rune_count :: "string \<Rightarrow> nat" where
  "rune_count s = length (filter (\<lambda>b. \<not> (128 \<le> b \<and> b < 192)) (bytes_of s))"

definition pad20 :: "string \<Rightarrow> string" where
  "pad20 s = s @ replicate (20 - rune_count s) CHR '' ''"

section \<open>Wallet files\<close>

definition walletFileExt :: string where "walletFileExt = ''.json''"

record WalletInfo =
  wi_Address :: string
  wi_PrivateKey :: string

record ('s, 'key, 'conn, 'eth) wallet_lib =
  GenerateKey :: "('s, 'key) act"
  FromECDSA :: "'key \<Rightarrow> byte list"
  ToECDSA :: "byte list \<Rightarrow> 'key outcome"
  key_address :: "'key \<Rightarrow> string"
  hexutil_Decode :: "string \<Rightarrow> byte list outcome"
  json_Marshal :: "WalletInfo \<Rightarrow> byte list outcome"
  json_Unmarshal :: "byte list \<Rightarrow> WalletInfo outcome"
  wl_NewClient :: "string \<Rightarrow> 'conn outcome"
  wl_ConnectionParams :: "'conn \<Rightarrow> ('s, string) act"
  wl_close :: "'conn \<Rightarrow> ('s, unit) act"
  wl_Dial :: "string \<Rightarrow> ('s, 'eth) act"
  wl_BalanceAt :: "'eth \<Rightarrow> string \<Rightarrow> ('s, int) act"
  in_ether :: "int \<Rightarrow> string"

definition WalletPath :: "string \<Rightarrow> string \<Rightarrow> ('s cli, string) act" where
  "WalletPath keystoreDir walletName =
     abind (failing ''failed to create keystore directory'' (in_fs (os_MkdirAll keystoreDir))) (\<lambda>_.
     aret (Join keystoreDir (walletName @ walletFileExt)))"

definition write_wallet :: "('s, 'key, 'conn, 'eth) wallet_lib \<Rightarrow> string \<Rightarrow> WalletInfo \<Rightarrow> ('s cli, unit) act" where
  "write_wallet W walletPath walletInfo =
     abind (failing ''failed to marshal wallet info'' (alift (json_Marshal W walletInfo))) (\<lambda>jsonData.
     failing ''failed to write wallet file'' (in_fs (os_WriteFile walletPath jsonData)))"

definition wallet_exists :: "string \<Rightarrow> go_error" where
  "wallet_exists walletName = ErrNew (''wallet with name '' @ quoted walletName @ '' already exists'')"

definition cmdCreateWallet ::
  "('s, 'key, 'conn, 'eth) wallet_lib \<Rightarrow> string \<Rightarrow> string \<Rightarrow> ('s cli, unit) act" where
  "cmdCreateWallet W keystoreDir walletName =
     abind (WalletPath keystoreDir walletName) (\<lambda>walletPath c.
     case in_fs (os_Stat walletPath) c of
       (Ok _, c) \<Rightarrow> (Err (wallet_exists walletName), c)
     | (Panic, c) \<Rightarrow> (Panic, c)
     | (Err e, c) \<Rightarrow>
         if \<not> IsNotExist e then (Err (ErrWrap ''failed to check if wallet exists: '' e []), c)
         else
           abind (failing ''failed to generate private key'' (in_world (GenerateKey W))) (\<lambda>privateKey.
           let walletInfo = \<lparr>wi_Address = key_address W privateKey,
                 wi_PrivateKey = drop 2 (''0x'' @ hex_encode (FromECDSA W privateKey))\<rparr>
           in abind (write_wallet W walletPath walletInfo) (\<lambda>_.
              Printf (''Wallet ('' @ walletName @ '') created successfully at '' @ walletPath @ newline @
                '' Fund your wallet with AKVF at https://faucet.akave.ai/ '' @ newline))) c)"

text \<open>The loop of the listing, over the entries with the extension.\<close>

fun list_wallets :: "('s, 'key, 'conn, 'eth) wallet_lib \<Rightarrow> string \<Rightarrow> string list \<Rightarrow> ('s cli, unit) act" where
  "list_wallets W keystoreDir [] c = (Ok (), c)"
| "list_wallets W keystoreDir (entry # entries) c =
     (if \<not> HasSuffix entry walletFileExt then list_wallets W keystoreDir entries c
      else
        (case in_fs (os_ReadFile (Join keystoreDir entry)) c of
           (Err e, c) \<Rightarrow>
             abind (PrintErrf (''Failed to read wallet '' @ entry @ '': '' @ err_text e @ newline))
               (\<lambda>_. list_wallets W keystoreDir entries) c
         | (Panic, c) \<Rightarrow> (Panic, c)
         | (Ok data, c) \<Rightarrow>
             (case json_Unmarshal W data of
                Err e \<Rightarrow>
                  abind (PrintErrf (''Failed to parse wallet '' @ entry @ '': '' @ err_text e @ newline))
                    (\<lambda>_. list_wallets W keystoreDir entries) c
              | Panic \<Rightarrow> (Panic, c)
              | Ok walletInfo \<Rightarrow>
                  abind (Printf (pad20 (TrimSuffix entry walletFileExt) @ tabulator @ wi_Address walletInfo @ newline))
                    (\<lambda>_. list_wallets W keystoreDir entries) c)))"

definition cmdListWallets :: "('s, 'key, 'conn, 'eth) wallet_lib \<Rightarrow> string \<Rightarrow> ('s cli, unit) act" where
  "cmdListWallets W keystoreDir =
     abind (amap_err (\<lambda>e. if IsNotExist e then ErrNew (''no wallets found in '' @ keystoreDir)
                          else ErrWrap ''failed to read directory: '' e []) (in_fs (os_ReadDir keystoreDir))) (\<lambda>entries.
     abind (Printf (pad20 ''NAME'' @ tabulator @ ''ADDRESS'' @ newline)) (\<lambda>_.
     abind (Printf (pad20 ''----'' @ tabulator @ ''-------'' @ newline)) (\<lambda>_.
     list_wallets W keystoreDir entries)))"

definition read_wallet :: "('s, 'key, 'conn, 'eth) wallet_lib \<Rightarrow> string \<Rightarrow> string \<Rightarrow> ('s cli, WalletInfo) act" where
  "read_wallet W keystoreDir walletName =
     abind (WalletPath keystoreDir walletName) (\<lambda>walletPath.
     abind (failing ''failed to read wallet file'' (in_fs (os_ReadFile walletPath))) (\<lambda>jsonBytes.
     failing ''failed to parse wallet file'' (alift (json_Unmarshal W jsonBytes))))"

definition cmdGetWalletKey :: "('s, 'key, 'conn, 'eth) wallet_lib \<Rightarrow> string \<Rightarrow> string \<Rightarrow> ('s cli, unit) act" where
  "cmdGetWalletKey W keystoreDir walletName =
     abind (read_wallet W keystoreDir walletName) (\<lambda>walletInfo.
     Printf (''Private key: '' @ wi_PrivateKey walletInfo @ newline))"

definition cmdImportWallet ::
  "('s, 'key, 'conn, 'eth) wallet_lib \<Rightarrow> string \<Rightarrow> string \<Rightarrow> string \<Rightarrow> ('s cli, unit) act" where
  "cmdImportWallet W keystoreDir walletName keyArg =
     (let privateKeyHex = (if HasPrefix keyArg ''0x'' then keyArg else ''0x'' @ keyArg) in
      abind (failing ''invalid private key format'' (alift (hexutil_Decode W privateKeyHex))) (\<lambda>privateKeyBytes.
      abind (failing ''invalid private key'' (alift (ToECDSA W privateKeyBytes))) (\<lambda>privateKey.
      let address = key_address W privateKey in
      abind (WalletPath keystoreDir walletName) (\<lambda>walletPath c.
      case in_fs (os_Stat walletPath) c of
        (Ok _, c) \<Rightarrow> (Err (wallet_exists walletName), c)
      | (Panic, c) \<Rightarrow> (Panic, c)
      | (Err _, c) \<Rightarrow>
          abind (write_wallet W walletPath \<lparr>wi_Address = address, wi_PrivateKey = TrimPrefix privateKeyHex ''0x''\<rparr>) (\<lambda>_.
          Printf (''Wallet imported successfully:'' @ newline @ ''Name: '' @ walletName @ newline @
            ''Address: '' @ address @ newline)) c))))"

definition no_wallet :: go_error where "no_wallet = ErrNew ''invalid length, need 256 bits''"

text \<open>Without a name, the first file with the extension gives the name.\<close>

definition default_wallet :: "string \<Rightarrow> ('s cli, string) act" where
  "default_wallet keystoreDir =
     abind (amap_err (\<lambda>_. no_wallet) (in_fs (os_ReadDir keystoreDir))) (\<lambda>entries.
     let walletName = (case find (\<lambda>e. HasSuffix e walletFileExt) entries of
                         Some entry \<Rightarrow> TrimSuffix entry walletFileExt | None \<Rightarrow> [])
     in if walletName = [] then afail no_wallet else aret walletName)"

definition PrivateKeyFromWallet ::
  "('s, 'key, 'conn, 'eth) wallet_lib \<Rightarrow> string \<Rightarrow> string \<Rightarrow> ('s cli, string \<times> string \<times> string) act" where
  "PrivateKeyFromWallet W keystoreDir walletName =
     abind (if walletName = [] then default_wallet keystoreDir else aret walletName) (\<lambda>walletName.
     abind (read_wallet W keystoreDir walletName) (\<lambda>walletInfo.
     aret (wi_PrivateKey walletInfo, wi_Address walletInfo, walletName)))"

text \<open>
  The balance: \<open>in_ether\<close> is the amount divided by \<open>params.Ether\<close> as \<open>Text('f', 4)\<close> prints it. The connection is
  closed whatever happens.
\<close>

definition closing_conn :: "('s, 'key, 'conn, 'eth) wallet_lib \<Rightarrow> 'conn \<Rightarrow> ('s cli, 'a) act \<Rightarrow> ('s cli, 'a) act" where
  "closing_conn W conn m c =
     (case m c of (r, c) \<Rightarrow>
        (case in_world (wl_close W conn) c of
           (Ok _, c) \<Rightarrow> (r, c)
         | (Err e, c) \<Rightarrow> (r, snd (PrintErrf (''failed to close gRPC connection: '' @ err_text e) c))
         | (Panic, c) \<Rightarrow> (Panic, c)))"

definition balance_text :: "string \<Rightarrow> string" where
  "balance_text akvt = TrimRight (TrimRight akvt CHR ''0'') CHR ''.''"

definition cmdWalletBalance ::
  "('s, 'key, 'conn, 'eth) wallet_lib \<Rightarrow> string \<Rightarrow> string \<Rightarrow> string list \<Rightarrow> ('s cli, unit) act" where
  "cmdWalletBalance W keystoreDir nodeRPCAddress args =
     (let walletNameArg = (case args of a # _ \<Rightarrow> TrimSpace a | [] \<Rightarrow> []) in
      abind (failing ''failed to get wallet'' (PrivateKeyFromWallet W keystoreDir walletNameArg)) (\<lambda>(_, walletAddress, name).
      abind (failing ''failed to connect to akavenode'' (alift (wl_NewClient W nodeRPCAddress))) (\<lambda>conn.
      closing_conn W conn (
        abind (failing ''failed to get connection parameters'' (in_world (wl_ConnectionParams W conn))) (\<lambda>dialUri.
        abind (failing ''failed to dial node'' (in_world (wl_Dial W dialUri))) (\<lambda>ethClient.
        abind (failing ''failed to get wallet balance'' (in_world (wl_BalanceAt W ethClient walletAddress))) (\<lambda>balance.
        Printf (''Wallet:  '' @ name @ newline @ ''Address: '' @ walletAddress @ newline @
          ''Balance: '' @ balance_text (in_ether W balance) @ '' AKVT'' @ newline))))))))"

section \<open>The commands\<close>

text \<open>Arguments: an error of the command line itself, which makes it print the usage, or one of the flag library.\<close>

datatype args_error = CmdParamsError string | CobraError string

datatype wallet_cmd = WalletCreate | WalletList | WalletExportKey | WalletImport | WalletBalance

definition expects :: "string \<Rightarrow> nat \<Rightarrow> string list \<Rightarrow> args_error + string list" where
  "expects what n args =
     (if length args \<noteq> n
      then Inl (CmdParamsError (what @ ''; got '' @ format_int (int (length args)))) else Inr args)"

definition walletCreate_Args :: "string list \<Rightarrow> args_error + string list" where
  "walletCreate_Args = expects ''create wallet command expects exactly 1 argument [wallet name]'' 1"

definition walletGetKey_Args :: "string list \<Rightarrow> args_error + string list" where
  "walletGetKey_Args = expects ''export-key command expects exactly 1 argument [wallet name]'' 1"

definition walletImport_Args :: "string list \<Rightarrow> args_error + string list" where
  "walletImport_Args = expects ''import command expects exactly 2 arguments [wallet name] [private key]'' 2"

text \<open>\<open>cobra.NoArgs\<close> and \<open>cobra.MaximumNArgs\<close>, with the text of their errors as an argument.\<close>

definition NoArgs :: "(string list \<Rightarrow> string) \<Rightarrow> string list \<Rightarrow> args_error + string list" where
  "NoArgs msg args = (if args \<noteq> [] then Inl (CobraError (msg args)) else Inr args)"

definition MaximumNArgs :: "(string list \<Rightarrow> string) \<Rightarrow> nat \<Rightarrow> string list \<Rightarrow> args_error + string list" where
  "MaximumNArgs msg n args = (if n < length args then Inl (CobraError (msg args)) else Inr args)"

definition wallet_Args :: "(string list \<Rightarrow> string) \<Rightarrow> wallet_cmd \<Rightarrow> string list \<Rightarrow> args_error + string list" where
  "wallet_Args msg cmd =
     (case cmd of WalletCreate \<Rightarrow> walletCreate_Args | WalletList \<Rightarrow> NoArgs msg | WalletExportKey \<Rightarrow> walletGetKey_Args
      | WalletImport \<Rightarrow> walletImport_Args | WalletBalance \<Rightarrow> MaximumNArgs msg 1)"

definition wallet_RunE ::
  "('s, 'key, 'conn, 'eth) wallet_lib \<Rightarrow> string \<Rightarrow> string \<Rightarrow> wallet_cmd \<Rightarrow> string list \<Rightarrow> ('s cli, unit) act" where
  "wallet_RunE W keystoreDir nodeRPCAddress cmd args =
     (case cmd of
        WalletCreate \<Rightarrow> cmdCreateWallet W keystoreDir (args ! 0)
      | WalletList \<Rightarrow> cmdListWallets W keystoreDir
      | WalletExportKey \<Rightarrow> cmdGetWalletKey W keystoreDir (args ! 0)
      | WalletImport \<Rightarrow> cmdImportWallet W keystoreDir (args ! 0) (args ! 1)
      | WalletBalance \<Rightarrow> cmdWalletBalance W keystoreDir nodeRPCAddress args)"

text \<open>\<open>initWalletCommands\<close>: the default of the flag.\<close>

definition default_keystore :: "string outcome \<Rightarrow> string" where
  "default_keystore homeDir = (case homeDir of Ok h \<Rightarrow> Join h ''.akave_wallets'' | _ \<Rightarrow> ''.akave_wallets'')"

end
