(* ===== verification/Commands.thy ===== *)
theory Commands
  imports Wallet DownloadPipeline
begin

text \<open>
  \<open>cmd/akavecli\<close>: the commands on buckets and files (\<open>storage.go\<close>), the flags and the end of a run (\<open>main.go\<close>), and the
  progress bar (\<open>progress.go\<close>).

  A command runs on the state of \<open>Wallet\<close>; what it uses of the node, the chain, the libraries and the schedules of
  upload and download is the record \<open>cli_env\<close>. A result \<open>None\<close> means that the schedules did not suffice, as in the
  theories of upload and download. The parsing of flags and the choice of the command are the library's.
\<close>

section \<open>Flags\<close>

record cli_flags =
  f_nodeRPCAddress :: string
  f_privateKey :: string
  f_encryptionKey :: string
  f_maxConcurrency :: int
  f_blockPartSize :: int
  f_disableErasureCoding :: bool
  f_enableSDKMonkitStats :: bool
  f_accountName :: string
  f_useMetadataEncryption :: bool
  f_chunkBuffer :: int
  f_chunkBatch :: int
  f_bucketListOffset :: "64 word"
  f_bucketListLimit :: "64 word"
  f_fileListOffset :: "64 word"
  f_fileListLimit :: "64 word"
  f_archivalMetadataVerbose :: bool
  f_archivalDownload :: bool
  f_keystoreDir :: string

definition default_flags :: "string outcome \<Rightarrow> cli_flags" where
  "default_flags homeDir =
     \<lparr>f_nodeRPCAddress = ''127.0.0.1:5000'', f_privateKey = [], f_encryptionKey = [], f_maxConcurrency = 32,
      f_blockPartSize = sint (ToInt64 (MulInt64 KiB 128)), f_disableErasureCoding = False, f_enableSDKMonkitStats = False,
      f_accountName = [], f_useMetadataEncryption = False, f_chunkBuffer = 4, f_chunkBatch = 4, f_bucketListOffset = 0,
      f_bucketListLimit = 20, f_fileListOffset = 0, f_fileListLimit = 20, f_archivalMetadataVerbose = False,
      f_archivalDownload = False, f_keystoreDir = default_keystore homeDir\<rparr>"

definition parityBlocks :: "cli_flags \<Rightarrow> int" where
  "parityBlocks F = (if \<not> f_disableErasureCoding F then 16 else 0)"

section \<open>Arguments\<close>

fun require :: "string list \<Rightarrow> string list \<Rightarrow> args_error + string list" where
  "require (m # ms) (a # as) =
     (if a = [] then Inl (CmdParamsError m) else case require ms as of Inl e \<Rightarrow> Inl e | Inr as \<Rightarrow> Inr (a # as))"
| "require ms as = Inr as"

definition checked :: "string \<Rightarrow> string list \<Rightarrow> string list \<Rightarrow> args_error + string list" where
  "checked what required args =
     (case expects what (length required) args of Inl e \<Rightarrow> Inl e | Inr args \<Rightarrow> require required args)"

definition bucketCreate_Args :: "string list \<Rightarrow> args_error + string list" where
  "bucketCreate_Args = checked ''create bucket command expects exactly 1 argument [bucket name]'' [''bucket name is required'']"

definition bucketDelete_Args :: "string list \<Rightarrow> args_error + string list" where
  "bucketDelete_Args = checked ''create bucket command expects exactly 1 argument [bucket name]'' [''bucket name is required'']"

definition bucketView_Args :: "string list \<Rightarrow> args_error + string list" where
  "bucketView_Args args =
     checked ''create bucket command expects exactly 1 argument [bucket name]'' [''bucket name is required''] (map TrimSpace args)"

definition fileList_Args :: "string list \<Rightarrow> args_error + string list" where
  "fileList_Args args =
     checked ''create bucket command expects exactly 1 argument [bucket name]'' [''bucket name is required''] (map TrimSpace args)"

definition fileInfo_Args :: "string list \<Rightarrow> args_error + string list" where
  "fileInfo_Args args =
     checked ''file info command expects exactly 2 arguments [bucket name] [file name]''
       [''bucket name is required'', ''file name is required''] (map TrimSpace args)"

definition fileUpload_Args :: "string list \<Rightarrow> args_error + string list" where
  "fileUpload_Args args =
     checked ''file upload command expects exactly 2 arguments [bucket name] [file path]''
       [''bucket name is required'', ''file path is required''] (map TrimSpace args)"

definition fileDownload_Args :: "string list \<Rightarrow> args_error + string list" where
  "fileDownload_Args args =
     checked ''file download command expects exactly 3 arguments [bucket name] [file name] [destination path]''
       [''bucket name is required'', ''file name is required'', ''destination path is required''] (map TrimSpace args)"

definition fileDelete_Args :: "string list \<Rightarrow> args_error + string list" where
  "fileDelete_Args args =
     checked ''file delete command expects exactly 2 arguments [bucket name] [file name]''
       [''bucket name is required'', ''file name is required''] (map TrimSpace args)"

definition archivalMetadata_Args :: "string list \<Rightarrow> args_error + string list" where
  "archivalMetadata_Args args =
     checked ''archival-metadata command expects exactly 2 arguments [bucket name] [file name]''
       [''bucket name is required'', ''file name is required''] (map TrimSpace args)"

section \<open>The environment of a command\<close>

record ('s, 'c, 'conn, 'http, 'eth, 'key, 'auth, 'con, 'k) cli_env =
  ce_NewClient :: "string \<Rightarrow> 'conn outcome"
  ce_BlockSizeLimit :: int
  ce_rs_New :: "int \<Rightarrow> int \<Rightarrow> rs_encoder outcome"
  ce_DefaultClient :: 'http
  ce_conn_Close :: "'conn \<Rightarrow> ('s cli, unit) act"
  ce_ConnectionParams :: "'conn \<Rightarrow> ('s cli, connection_params) act"
  ce_chain :: "('s cli, 'eth, 'key, 'auth, 'con) chain_env"
  ce_pool :: "'s cli \<Rightarrow> 'conn connectionPool"
  ce_api :: "(('eth, 'auth, 'con) Client, 'conn, 'http) IPC \<Rightarrow> ('s cli, 'c) api"
  ce_prims :: prims
  ce_wire :: wire_lib
  ce_dag :: dag_lib
  ce_cid :: cid_lib
  ce_keys :: "'k key_lib"
  ce_blockSched :: "IPCFileChunkUploadV2 \<Rightarrow> nat list"
  ce_uploadSched :: "choice list"
  ce_fuel :: nat
  ce_getSched :: "FileChunkDownload \<Rightarrow> nat list"
  ce_downloadSched :: "download_choice list"
  ce_metaSched :: "nat \<Rightarrow> nat list"
  ce_trackProgress :: "int \<Rightarrow> string \<Rightarrow> ('s cli, unit) act"
  ce_bar_Finish :: "('s cli, unit) act"
  ce_bar_Clear :: "('s cli, unit) act"
  ce_time_String :: "int \<Rightarrow> string"

text \<open>Steps of a command, which may not end.\<close>

type_synonym ('s, 'a) command = "'s cli \<Rightarrow> ('a outcome \<times> 's cli) option"

definition now :: "('s cli, 'a) act \<Rightarrow> ('s, 'a) command" where
  "now m c = Some (m c)"

definition cbind :: "('s, 'a) command \<Rightarrow> ('a \<Rightarrow> ('s, 'b) command) \<Rightarrow> ('s, 'b) command" where
  "cbind m f c =
     (case m c of
        None \<Rightarrow> None
      | Some (Ok x, c') \<Rightarrow> f x c'
      | Some (Err e, c') \<Rightarrow> Some (Err e, c')
      | Some (Panic, c') \<Rightarrow> Some (Panic, c'))"

definition cfailing :: "string \<Rightarrow> ('s, 'a) command \<Rightarrow> ('s, 'a) command" where
  "cfailing what m c =
     (case m c of None \<Rightarrow> None | Some (r, c') \<Rightarrow> Some (map_err (\<lambda>e. ErrWrap (what @ '': '') e []) r, c'))"

definition getWalletPrivateKey ::
  "('s, 'wk, 'wc, 'we) wallet_lib \<Rightarrow> cli_flags \<Rightarrow> ('s cli, string) act" where
  "getWalletPrivateKey W F =
     (if f_privateKey F \<noteq> [] then aret (f_privateKey F)
      else
        abind (amap_err (\<lambda>e. ErrWrap [] e []) (PrivateKeyFromWallet W (f_keystoreDir F) (f_accountName F)))
          (\<lambda>(privKey, walletAddress, name).
        abind (PrintErrf (''Using wallet account: '' @ name @ '' ('' @ walletAddress @ '')'' @ newline)) (\<lambda>_.
        aret privKey)))"

definition defaultParameters ::
  "('s, 'wk, 'wc, 'we) wallet_lib \<Rightarrow> cli_flags \<Rightarrow> ('s cli, string \<times> ('conn, 'http) sdk_option list) act" where
  "defaultParameters W F =
     abind (getWalletPrivateKey W F) (\<lambda>privateKey.
     abind (if f_encryptionKey F \<noteq> []
            then failing ''failed to decode encryption key'' (alift (hex_decode (f_encryptionKey F)))
            else aret []) (\<lambda>encryptionKeyBytes.
     aret (privateKey, [WithEncryptionKey encryptionKeyBytes] @
       (if f_useMetadataEncryption F then [WithMetadataEncryption] else []))))"

text \<open>\<open>defer akaveSDK.Close()\<close>: an error of it is printed only.\<close>

definition closing ::
  "('s, 'c, 'conn, 'http, 'eth, 'key, 'auth, 'con, 'k) cli_env \<Rightarrow> ('conn, 'http) SDK \<Rightarrow> ('s, 'a) command \<Rightarrow> ('s, 'a) command" where
  "closing E sdk m c =
     (case m c of
        None \<Rightarrow> None
      | Some (r, c) \<Rightarrow>
          (case Close (ce_conn_Close E) (sdk\<lparr>sdk_pool := ce_pool E c\<rparr>) c of
             (Ok _, _, c) \<Rightarrow> Some (r, c)
           | (Err e, _, c) \<Rightarrow> Some (r, snd (PrintErrf (''failed to close SDK: '' @ err_text e) c))
           | (Panic, _, c) \<Rightarrow> Some (Panic, c)))"

text \<open>What all commands begin with: the parameters, the SDK, and its IPC API.\<close>

definition with_ipc ::
  "('s, 'wk, 'wc, 'we) wallet_lib \<Rightarrow> ('s, 'c, 'conn, 'http, 'eth, 'key, 'auth, 'con, 'k) cli_env \<Rightarrow> cli_flags \<Rightarrow>
   ('conn, 'http) sdk_option list \<Rightarrow>
   ((('eth, 'auth, 'con) Client, 'conn, 'http) IPC \<Rightarrow> ('s, 'a) command) \<Rightarrow> ('s, 'a) command" where
  "with_ipc W E F options body =
     cbind (now (defaultParameters W F)) (\<lambda>(privateKey, sdkOptions).
     cbind (now (alift (New (ce_NewClient E) (ce_BlockSizeLimit E) (ce_rs_New E) (ce_DefaultClient E) (f_nodeRPCAddress F)
        (f_maxConcurrency F) (f_blockPartSize F) privateKey (sdkOptions @ options)))) (\<lambda>akaveSDK.
     closing E akaveSDK (
       cbind (now (IPC_of (ce_ConnectionParams E (sdk_conn akaveSDK)) (ce_chain E) akaveSDK)) body)))"

section \<open>Buckets\<close>

definition print_err :: "string \<Rightarrow> ('s, unit) command" where
  "print_err s = now (PrintErrf s)"

definition cmdCreateBucket ::
  "('s, 'wk, 'wc, 'we) wallet_lib \<Rightarrow> ('s, 'c, 'conn, 'http, 'eth, 'key, 'auth, 'con, 'k) cli_env \<Rightarrow> cli_flags \<Rightarrow>
   string \<Rightarrow> ('s, unit) command" where
  "cmdCreateBucket W E F bucketName =
     with_ipc W E F [] (\<lambda>ipc.
     cbind (cfailing ''failed to create bucket'' (now (CreateBucket (ce_prims E) (ce_api E ipc) ipc bucketName))) (\<lambda>result.
     print_err (''Bucket created: ID='' @ bcr_ID result @ '', Name='' @ bcr_Name result @ '', CreatedAt='' @
       ce_time_String E (bcr_CreatedAt result) @ newline)))"

definition cmdDeleteBucket ::
  "('s, 'wk, 'wc, 'we) wallet_lib \<Rightarrow> ('s, 'c, 'conn, 'http, 'eth, 'key, 'auth, 'con, 'k) cli_env \<Rightarrow> cli_flags \<Rightarrow>
   string \<Rightarrow> ('s, unit) command" where
  "cmdDeleteBucket W E F bucketName =
     with_ipc W E F [] (\<lambda>ipc.
     cbind (cfailing ''failed to delete bucket'' (now (DeleteBucket (ce_prims E) (ce_api E ipc) ipc bucketName))) (\<lambda>_.
     print_err (''Bucket deleted: Name='' @ bucketName @ newline)))"

definition cmdViewBucket ::
  "('s, 'wk, 'wc, 'we) wallet_lib \<Rightarrow> ('s, 'c, 'conn, 'http, 'eth, 'key, 'auth, 'con, 'k) cli_env \<Rightarrow> cli_flags \<Rightarrow>
   string \<Rightarrow> ('s, unit) command" where
  "cmdViewBucket W E F bucketName =
     with_ipc W E F [] (\<lambda>ipc.
     cbind (cfailing ''failed to get bucket'' (now (ViewBucket (ce_prims E) (ce_api E ipc) ipc bucketName))) (\<lambda>result.
     print_err (''Bucket: ID='' @ bk_ID result @ '', Name='' @ bk_Name result @ '', CreatedAt='' @
       ce_time_String E (bk_CreatedAt result) @ newline)))"

text \<open>A loop that prints a line for each element.\<close>

fun print_each :: "('a \<Rightarrow> string) \<Rightarrow> 'a list \<Rightarrow> ('s, unit) command" where
  "print_each line [] = now (aret ())"
| "print_each line (x # xs) = cbind (print_err (line x)) (\<lambda>_. print_each line xs)"

definition cmdListBuckets ::
  "('s, 'wk, 'wc, 'we) wallet_lib \<Rightarrow> ('s, 'c, 'conn, 'http, 'eth, 'key, 'auth, 'con, 'k) cli_env \<Rightarrow> cli_flags \<Rightarrow>
   ('s, unit) command" where
  "cmdListBuckets W E F =
     with_ipc W E F [] (\<lambda>ipc.
     cbind (cfailing ''failed to list buckets''
       (now (ListBuckets (ce_prims E) (ce_api E ipc) ipc (f_bucketListOffset F) (f_bucketListLimit F)))) (\<lambda>buckets.
     if buckets = [] then print_err (''No buckets'' @ newline)
     else print_each (\<lambda>bucket. ''Bucket: Name='' @ bk_Name bucket @ '', CreatedAt='' @
            ce_time_String E (bk_CreatedAt bucket) @ newline) buckets))"

section \<open>Files\<close>

abbreviation decimal :: "64 word \<Rightarrow> string" where
  "decimal w \<equiv> format_int (sint w)"

definition cmdListFiles ::
  "('s, 'wk, 'wc, 'we) wallet_lib \<Rightarrow> ('s, 'c, 'conn, 'http, 'eth, 'key, 'auth, 'con, 'k) cli_env \<Rightarrow> cli_flags \<Rightarrow>
   string \<Rightarrow> ('s, unit) command" where
  "cmdListFiles W E F bucketName =
     with_ipc W E F [] (\<lambda>ipc.
     cbind (cfailing ''failed to list files''
       (now (ListFiles (ce_prims E) (ce_api E ipc) ipc bucketName (f_fileListOffset F) (f_fileListLimit F)))) (\<lambda>files.
     if files = [] then print_err (''No files'' @ newline)
     else print_each (\<lambda>file. ''File: Name='' @ fl_Name file @ '', RootCID='' @ fl_RootCID file @ '', EncodedSize='' @
            decimal (fl_EncodedSize file) @ '', ActualSize='' @ decimal (fl_ActualSize file) @ '', CreatedAt='' @
            ce_time_String E (fl_CreatedAt file) @ newline) files))"

definition cmdFileInfo ::
  "('s, 'wk, 'wc, 'we) wallet_lib \<Rightarrow> ('s, 'c, 'conn, 'http, 'eth, 'key, 'auth, 'con, 'k) cli_env \<Rightarrow> cli_flags \<Rightarrow>
   string \<Rightarrow> string \<Rightarrow> ('s, unit) command" where
  "cmdFileInfo W E F bucketName fileName =
     with_ipc W E F [] (\<lambda>ipc.
     cbind (cfailing ''failed to get file info'' (now (FileInfo (ce_prims E) (ce_api E ipc) ipc bucketName fileName))) (\<lambda>file.
     print_err (''File: Name='' @ fm_Name file @ '', RootCID='' @ fm_RootCID file @ '', EncodedSize='' @
       decimal (fm_EncodedSize file) @ '', ActualSize='' @ decimal (fm_ActualSize file) @ '' CreatedAt='' @
       ce_time_String E (fm_CreatedAt file) @ newline)))"

text \<open>
  An open file as a reader; reading a directory fails. \<open>os.Open\<close> and \<open>Stat\<close> of the open file can each fail; errors of
  closing a file are left out.
\<close>

definition os_Open :: "string \<Rightarrow> fs_node os_call" where
  "os_Open path = at_node ''open'' path aret"

definition file_Stat :: "string \<Rightarrow> fs_node os_call" where
  "file_Stat path = at_node ''fstat'' path aret"

definition file_reader :: "string \<Rightarrow> fs_node \<Rightarrow> byte_reader" where
  "file_reader path n =
     (case n of
        File bs \<Rightarrow> \<lparr>rd_data = bs, rd_pos = 0, rd_end = reader_EOF, rd_seek = Some (\<lambda>_. None)\<rparr>
      | Dir \<Rightarrow> \<lparr>rd_data = [], rd_pos = 0, rd_end = PathError ''read'' path os_ErrIsDir, rd_seek = Some (\<lambda>_. None)\<rparr>)"

definition node_size :: "fs_node \<Rightarrow> int" where
  "node_size n = (case n of File bs \<Rightarrow> int (length bs) | Dir \<Rightarrow> 4096)"

definition upload_options :: "cli_flags \<Rightarrow> ('conn, 'http) sdk_option list" where
  "upload_options F = [WithErasureCoding (parityBlocks F), WithChunkBuffer (f_chunkBuffer F), WithChunkBatchSize (f_chunkBatch F)]"

definition run_upload ::
  "('s, 'c, 'conn, 'http, 'eth, 'key, 'auth, 'con, 'k) cli_env \<Rightarrow> (('eth, 'auth, 'con) Client, 'conn, 'http) IPC \<Rightarrow>
   IPCFileUpload \<Rightarrow> byte_reader \<Rightarrow> ('s, IPCFileMetaV2) command" where
  "run_upload E ipc fileUpload reader =
     IPC_Upload (uploadSingleFile (ce_prims E) (ce_dag E) (ce_cid E) (ce_keys E) (ce_api E ipc) ipc (ce_blockSched E)
       (ce_uploadSched E) (ce_fuel E)) (Some fileUpload) (Some reader)"

definition cmdFileUpload ::
  "('s, 'wk, 'wc, 'we) wallet_lib \<Rightarrow> ('s, 'c, 'conn, 'http, 'eth, 'key, 'auth, 'con, 'k) cli_env \<Rightarrow> cli_flags \<Rightarrow>
   string \<Rightarrow> string \<Rightarrow> ('s, unit) command" where
  "cmdFileUpload W E F bucketName filePath =
     (let fileName = Base filePath in
      cbind (cfailing ''failed to open file'' (now (in_fs (os_Open filePath)))) (\<lambda>file.
      cbind (cfailing ''failed to get file info'' (now (in_fs (file_Stat filePath)))) (\<lambda>fi.
      with_ipc W E F (upload_options F) (\<lambda>ipc.
      cbind (cfailing ''failed to create file upload''
        (now (CreateFileUpload (ce_prims E) (ce_dag E) (ce_api E ipc) ipc bucketName fileName))) (\<lambda>fileUpload.
      let size = (if f_disableErasureCoding F then node_size fi else node_size fi * 2) in
      cbind (now (ce_trackProgress E size ''Uploading'')) (\<lambda>_.
      cbind (cfailing ''failed to upload file'' (run_upload E ipc fileUpload (file_reader filePath file))) (\<lambda>fileMeta.
      cbind (cfailing ''failed to finish progress bar'' (now (ce_bar_Finish E))) (\<lambda>_.
      cbind (cfailing ''failed to clear progress bar'' (now (ce_bar_Clear E))) (\<lambda>_.
      print_err (''File uploaded successfully: Name='' @ fileName @ '', RootCID='' @ fm2_RootCID fileMeta @ '', ActualSize='' @
        decimal (fm2_Size fileMeta) @ '', EncodedSize='' @ decimal (fm2_EncodedSize fileMeta) @ newline))))))))))"

definition download_options :: "cli_flags \<Rightarrow> ('conn, 'http) sdk_option list" where
  "download_options F = [WithErasureCoding (parityBlocks F), WithChunkBuffer (f_chunkBuffer F)]"

text \<open>The download with its counters, into a file.\<close>

definition cfailed :: "string \<Rightarrow> 's download_result \<Rightarrow> 's download_result" where
  "cfailed what res =
     (case res of None \<Rightarrow> None | Some (r, d, c) \<Rightarrow> Some (map_err (\<lambda>e. ErrWrap (what @ '': '') e []) r, d, c))"

definition run_download_to ::
  "('s, 'c, 'conn, 'http, 'eth, 'key, 'auth, 'con, 'k) cli_env \<Rightarrow> (('eth, 'auth, 'con) Client, 'conn, 'http) IPC \<Rightarrow>
   bool \<Rightarrow> IPCFileDownload \<Rightarrow> string \<Rightarrow> ('s, int \<times> int \<times> int) command" where
  "run_download_to E ipc archival fileDownload path c =
     (case (if archival
            then cfailed ''failed to download file from pdp'' (DownloadArchival (ce_prims E) (ce_wire E) (ce_cid E) (ce_api E ipc) ipc
              (ce_getSched E) (ce_downloadSched E) fileDownload (\<lambda>bs. in_fs (file_Write path bs)) c)
            else cfailed ''failed to download file'' (Download (ce_prims E) (ce_wire E) (ce_cid E) (ce_api E ipc) ipc
              (ce_getSched E) (ce_downloadSched E) fileDownload (\<lambda>bs. in_fs (file_Write path bs)) c)) of
        None \<Rightarrow> None
      | Some (r, d, c) \<Rightarrow> Some (obind r (\<lambda>_. Ok (Stats d)), c))"

definition cmdFileDownload ::
  "('s, 'wk, 'wc, 'we) wallet_lib \<Rightarrow> ('s, 'c, 'conn, 'http, 'eth, 'key, 'auth, 'con, 'k) cli_env \<Rightarrow> cli_flags \<Rightarrow>
   string \<Rightarrow> string \<Rightarrow> string \<Rightarrow> ('s, unit) command" where
  "cmdFileDownload W E F bucketName fileName destPath =
     with_ipc W E F (download_options F) (\<lambda>ipc.
     cbind (cfailing ''failed to create file download''
       (now (CreateFileDownload (ce_prims E) (ce_api E ipc) ipc bucketName fileName))) (\<lambda>fileDownload.
     cbind (cfailing ''failed to create destination file'' (now (in_fs (os_Create (Join destPath fileName))))) (\<lambda>_.
     cbind (cfailing ''failed to get file info''
       (now (FileInfo (ce_prims E) (ce_api E ipc) ipc bucketName fileName))) (\<lambda>info.
     cbind (now (ce_trackProgress E (sint (fm_EncodedSize info)) ''Downloading'')) (\<lambda>_.
     cbind (run_download_to E ipc (f_archivalDownload F) fileDownload (Join destPath fileName)) (\<lambda>(chunkCount, blocks, finalBytes).
     cbind (cfailing ''failed to finish progress bar'' (now (ce_bar_Finish E))) (\<lambda>_.
     cbind (cfailing ''failed to clear progress bar'' (now (ce_bar_Clear E))) (\<lambda>_.
     print_err (''File downloaded successfully: Name='' @ fm_Name info @ '', Path='' @ Join destPath fileName @ '', Size='' @
       format_int finalBytes @ '', Chunks='' @ format_int chunkCount @ '', Blocks='' @ format_int blocks @ newline)))))))))"

definition cmdFileDelete ::
  "('s, 'wk, 'wc, 'we) wallet_lib \<Rightarrow> ('s, 'c, 'conn, 'http, 'eth, 'key, 'auth, 'con, 'k) cli_env \<Rightarrow> cli_flags \<Rightarrow>
   string \<Rightarrow> string \<Rightarrow> ('s, unit) command" where
  "cmdFileDelete W E F bucketName fileName =
     with_ipc W E F [WithErasureCoding (parityBlocks F)] (\<lambda>ipc.
     cbind (now (FileDelete (ce_prims E) (ce_api E ipc) ipc bucketName fileName)) (\<lambda>_.
     print_err (''File successfully deleted: Name='' @ fileName @ newline)))"

definition all_blocks_have_PDP :: "ArchivalMetadata \<Rightarrow> bool" where
  "all_blocks_have_PDP metadata \<longleftrightarrow> list_all (\<lambda>chunk. list_all (\<lambda>block. ab_PDPData block \<noteq> None) (ac_Blocks chunk)) (am_Chunks metadata)"

definition printSimpleArchivalMetadata :: "ArchivalMetadata \<Rightarrow> ('s, unit) command" where
  "printSimpleArchivalMetadata metadata =
     cbind (print_err (''Bucket: '' @ am_BucketName metadata @ '', File: '' @ am_Name metadata @ newline)) (\<lambda>_.
     if all_blocks_have_PDP metadata
     then print_err (''Status: Available for download from archival storage (all blocks have PDP data)'' @ newline)
     else print_err (''Status: Not fully available in archival storage (some blocks are missing PDP data)'' @ newline))"

definition block_line :: "ArchivalBlock \<Rightarrow> string" where
  "block_line block =
     (case ab_PDPData block of
        Some pdp \<Rightarrow> ''    Block CID: '' @ ab_CID block @ '', URL: '' @ pdp_URL pdp @ '', Offset: '' @ decimal (pdp_Offset pdp) @
          '', Size: '' @ decimal (pdp_Size pdp) @ '', Dataset ID: '' @ format_int (uint (pdp_DataSetID pdp)) @ newline
      | None \<Rightarrow> ''    Block CID: '' @ ab_CID block @ '', Size: '' @ decimal (ab_Size block) @ '' (No PDP data)'' @ newline)"

fun print_chunks :: "ArchivalChunk list \<Rightarrow> ('s, unit) command" where
  "print_chunks [] = now (aret ())"
| "print_chunks (chunk # rest) =
     cbind (print_err (''  Chunk CID: '' @ ch_CID (ac_Chunk chunk) @ '', Size: '' @ decimal (ch_Size (ac_Chunk chunk)) @ newline)) (\<lambda>_.
     cbind (print_each block_line (ac_Blocks chunk)) (\<lambda>_.
     cbind (print_err newline) (\<lambda>_. print_chunks rest)))"

definition printVerboseArchivalMetadata :: "ArchivalMetadata \<Rightarrow> ('s, unit) command" where
  "printVerboseArchivalMetadata metadata =
     cbind (print_err (''Bucket: '' @ am_BucketName metadata @ '', File: '' @ am_Name metadata @ newline)) (\<lambda>_.
     cbind (print_err (''Total Chunks: '' @ format_int (int (length (am_Chunks metadata))) @ newline @ newline)) (\<lambda>_.
     print_chunks (am_Chunks metadata)))"

definition cmdArchivalMetadata ::
  "('s, 'wk, 'wc, 'we) wallet_lib \<Rightarrow> ('s, 'c, 'conn, 'http, 'eth, 'key, 'auth, 'con, 'k) cli_env \<Rightarrow> cli_flags \<Rightarrow>
   string \<Rightarrow> string \<Rightarrow> ('s, unit) command" where
  "cmdArchivalMetadata W E F bucketName fileName =
     with_ipc W E F [] (\<lambda>ipc.
     cbind (cfailing ''failed to get archival metadata''
       (now (ArchivalMetadata_of (ce_prims E) (ce_api E ipc) ipc (ce_metaSched E) bucketName fileName))) (\<lambda>metadata.
     if f_archivalMetadataVerbose F then printVerboseArchivalMetadata metadata else printSimpleArchivalMetadata metadata))"

section \<open>Version and statistics\<close>

text \<open>\<open>private/version\<close>: \<open>debug.ReadBuildInfo\<close> gives the version of the module and the settings of the build, if known.\<close>

record VersionInfo =
  v_Commit :: string
  v_Timestamp :: string

definition Version_Format :: "VersionInfo \<Rightarrow> string" where
  "Version_Format v = ''commit: '' @ v_Commit v @ newline @ ''timestamp: '' @ v_Timestamp v @ newline"

definition Version_Info :: "(string \<times> (string \<times> string) list) option \<Rightarrow> VersionInfo" where
  "Version_Info info =
     (case info of
        None \<Rightarrow> \<lparr>v_Commit = ''unknown'', v_Timestamp = ''unknown''\<rparr>
      | Some (version, settings) \<Rightarrow>
          \<lparr>v_Commit = version,
           v_Timestamp = foldl (\<lambda>timestamp (key, val). if key = ''vcs.time'' then val else timestamp) ''unknown'' settings\<rparr>)"

text \<open>Counts and durations, in milliseconds, as monkit has them; the errors of a function come in any order.\<close>

record duration_dist =
  dd_Count :: int
  dd_FullAverage :: int
  dd_Low :: int
  dd_High :: int

record MonkitStats =
  ms_Name :: string
  ms_Successes :: int
  ms_Errors :: "(string \<times> int) list"
  ms_Highwater :: int
  ms_SuccessTimes :: "duration_dist option"
  ms_FailureTimes :: "duration_dist option"

definition GetMonkitStats :: "MonkitStats list \<Rightarrow> MonkitStats list" where
  "GetMonkitStats funcs = filter (\<lambda>f. 0 < ms_Successes f \<or> 0 < length (ms_Errors f)) funcs"

text \<open>\<open>%.2f\<close> of a whole number of milliseconds.\<close>

definition milliseconds :: "int \<Rightarrow> string" where
  "milliseconds n = format_int n @ ''.00ms''"

definition print_times :: "string \<Rightarrow> duration_dist option \<Rightarrow> string" where
  "print_times what dist =
     (case dist of
        Some d \<Rightarrow>
          if 0 < dd_Count d
          then ''  '' @ what @ '' timing (avg): '' @ milliseconds (dd_FullAverage d) @ newline @
               ''  '' @ what @ '' timing (low/high): '' @ milliseconds (dd_Low d) @ '' / '' @ milliseconds (dd_High d) @ newline
          else []
      | None \<Rightarrow> [])"

definition printMonkitStats :: "MonkitStats list \<Rightarrow> string" where
  "printMonkitStats stats =
     newline @ ''=== SDK Monkit Task Statistics ==='' @ newline @
     concat (map (\<lambda>stat.
       ''Function: '' @ ms_Name stat @ newline @
       ''  Success calls: '' @ format_int (ms_Successes stat) @ newline @
       ''  Highwater (max concurrent): '' @ format_int (ms_Highwater stat) @ newline @
       (if 0 < length (ms_Errors stat)
        then ''  Errors:'' @ newline @
             concat (map (\<lambda>(errType, count). ''    '' @ errType @ '': '' @ format_int count @ newline) (ms_Errors stat))
        else []) @
       print_times ''Success'' (ms_SuccessTimes stat) @ print_times ''Failure'' (ms_FailureTimes stat) @ newline) stats) @
     ''=== End SDK Monkit Statistics ==='' @ newline @ newline"

section \<open>The commands\<close>

datatype storage_cmd =
    BucketCreateCmd | BucketDeleteCmd | BucketViewCmd | BucketListCmd | FileListCmd | FileInfoCmd | FileUploadCmd
  | FileDownloadCmd | FileDeleteCmd | ArchivalMetadataCmd

datatype cli_cmd = Wallet wallet_cmd | Storage storage_cmd

definition storage_Args :: "(string list \<Rightarrow> string) \<Rightarrow> storage_cmd \<Rightarrow> string list \<Rightarrow> args_error + string list" where
  "storage_Args msg cmd =
     (case cmd of BucketCreateCmd \<Rightarrow> bucketCreate_Args | BucketDeleteCmd \<Rightarrow> bucketDelete_Args | BucketViewCmd \<Rightarrow> bucketView_Args
      | BucketListCmd \<Rightarrow> NoArgs msg | FileListCmd \<Rightarrow> fileList_Args | FileInfoCmd \<Rightarrow> fileInfo_Args
      | FileUploadCmd \<Rightarrow> fileUpload_Args | FileDownloadCmd \<Rightarrow> fileDownload_Args | FileDeleteCmd \<Rightarrow> fileDelete_Args
      | ArchivalMetadataCmd \<Rightarrow> archivalMetadata_Args)"

definition storage_RunE ::
  "('s, 'wk, 'wc, 'we) wallet_lib \<Rightarrow> ('s, 'c, 'conn, 'http, 'eth, 'key, 'auth, 'con, 'k) cli_env \<Rightarrow> cli_flags \<Rightarrow>
   storage_cmd \<Rightarrow> string list \<Rightarrow> ('s, unit) command" where
  "storage_RunE W E F cmd args =
     (case cmd of
        BucketCreateCmd \<Rightarrow> cmdCreateBucket W E F (args ! 0)
      | BucketDeleteCmd \<Rightarrow> cmdDeleteBucket W E F (args ! 0)
      | BucketViewCmd \<Rightarrow> cmdViewBucket W E F (args ! 0)
      | BucketListCmd \<Rightarrow> cmdListBuckets W E F
      | FileListCmd \<Rightarrow> cmdListFiles W E F (args ! 0)
      | FileInfoCmd \<Rightarrow> cmdFileInfo W E F (args ! 0) (args ! 1)
      | FileUploadCmd \<Rightarrow> cmdFileUpload W E F (args ! 0) (args ! 1)
      | FileDownloadCmd \<Rightarrow> cmdFileDownload W E F (args ! 0) (args ! 1) (args ! 2)
      | FileDeleteCmd \<Rightarrow> cmdFileDelete W E F (args ! 0) (args ! 1)
      | ArchivalMetadataCmd \<Rightarrow> cmdArchivalMetadata W E F (args ! 0) (args ! 1))"

text \<open>
  The end of \<open>run\<close> and \<open>main\<close>, once the command is known and its flags are parsed: the arguments are checked, the command
  runs, an error is printed (with the usage when the arguments were wrong) and makes the exit status 1. \<open>usage\<close> is the
  text that \<open>cmd.Usage()\<close> prints, \<open>funcs\<close> what monkit has measured.
\<close>

datatype exec_error = ArgsFailed args_error | RunFailed go_error

definition Execute ::
  "('s, 'wk, 'wc, 'we) wallet_lib \<Rightarrow> ('s, 'c, 'conn, 'http, 'eth, 'key, 'auth, 'con, 'k) cli_env \<Rightarrow> cli_flags \<Rightarrow>
   (string list \<Rightarrow> string) \<Rightarrow> cli_cmd \<Rightarrow> string list \<Rightarrow> 's cli \<Rightarrow> (exec_error option outcome \<times> 's cli) option" where
  "Execute W E F msg cmd args c =
     (case (case cmd of Wallet w \<Rightarrow> wallet_Args msg w args | Storage s \<Rightarrow> storage_Args msg s args) of
        Inl e \<Rightarrow> Some (Ok (Some (ArgsFailed e)), c)
      | Inr args \<Rightarrow>
          (case (case cmd of
               Wallet w \<Rightarrow> now (wallet_RunE W (f_keystoreDir F) (f_nodeRPCAddress F) w args) c
             | Storage s \<Rightarrow> storage_RunE W E F s args c) of
             None \<Rightarrow> None
           | Some (Ok _, c) \<Rightarrow> Some (Ok None, c)
           | Some (Err e, c) \<Rightarrow> Some (Ok (Some (RunFailed e)), c)
           | Some (Panic, c) \<Rightarrow> Some (Panic, c)))"

definition exec_text :: "exec_error \<Rightarrow> string" where
  "exec_text e = (case e of ArgsFailed (CmdParamsError m) \<Rightarrow> m | ArgsFailed (CobraError m) \<Rightarrow> m | RunFailed e \<Rightarrow> err_text e)"

definition run ::
  "('s, 'wk, 'wc, 'we) wallet_lib \<Rightarrow> ('s, 'c, 'conn, 'http, 'eth, 'key, 'auth, 'con, 'k) cli_env \<Rightarrow> cli_flags \<Rightarrow>
   (string list \<Rightarrow> string) \<Rightarrow> string \<Rightarrow> MonkitStats list \<Rightarrow> cli_cmd \<Rightarrow> string list \<Rightarrow> ('s, nat) command" where
  "run W E F msg usage funcs cmd args c =
     (case Execute W E F msg cmd args c of
        None \<Rightarrow> None
      | Some (Panic, c) \<Rightarrow> Some (Panic, c)
      | Some (Err e, c) \<Rightarrow> Some (Err e, c)
      | Some (Ok (Some e), c) \<Rightarrow>
          (let c = snd (PrintErrf (''Error: '' @ exec_text e @ newline) c);
               c = (case e of ArgsFailed (CmdParamsError _) \<Rightarrow> snd (PrintErrf usage c) | _ \<Rightarrow> c)
           in Some (Ok 1, c))
      | Some (Ok None, c) \<Rightarrow>
          Some (Ok 0, if f_enableSDKMonkitStats F then snd (PrintErrf (printMonkitStats (GetMonkitStats funcs)) c) else c))"

section \<open>The progress bar\<close>

text \<open>
  One tick: the bytes that were transferred since the last one are added to the bar. Its texts and the average speed are
  arguments; the bar refuses to go beyond its end, which is not reported.
\<close>

definition pad_left :: "nat \<Rightarrow> string \<Rightarrow> string" where
  "pad_left n s = replicate (n - length s) CHR '' '' @ s"

definition handleProgressUpdates ::
  "(64 word \<Rightarrow> ('w cli, unit) act) \<Rightarrow> (string \<Rightarrow> ('w cli, unit) act) \<Rightarrow> (64 word \<Rightarrow> 'w cli \<Rightarrow> string) \<Rightarrow> string \<Rightarrow>
   64 word \<Rightarrow> 64 word \<Rightarrow> 64 word \<Rightarrow> 64 word \<Rightarrow> ('w cli, 64 word) act" where
  "handleProgressUpdates bar_Add64 bar_Describe speedStr operation chunkCount blocks bytes lastBytes =
     (let bytesIncrement = bytes - lastBytes in
      abind (if 0 < sint bytesIncrement
             then (\<lambda>c. case bar_Add64 bytesIncrement c of
                     (Ok _, c) \<Rightarrow> (Ok bytes, c)
                   | (Err e, c) \<Rightarrow>
                       (Ok bytes, if \<not> contains (err_text e) ''current number exceeds max''
                                  then snd (PrintErrf (''failed to add bytes to progress: '' @ err_text e) c) else c)
                   | (Panic, c) \<Rightarrow> (Panic, c))
             else aret lastBytes) (\<lambda>lastBytes c.
      abind (bar_Describe (operation @ ''... Chunks: '' @ pad_left 3 (decimal chunkCount) @ '', Blocks: '' @
        pad_left 4 (decimal blocks) @ speedStr bytes c)) (\<lambda>_. aret lastBytes) c))"

end
