(* ===== verification/WalletSpec.thy ===== *)
theory WalletSpec
  imports Wallet
begin

text \<open>
  What the wallet commands promise. \<open>wallets\<close> is the keystore as a map from names to the contents of wallets; import
  and create update it at one new name, reading looks it up. Names are single file names; what a name with a slash does
  is shown at the end, as is what import does when it cannot look.
\<close>

section \<open>Commands that only add to the file system\<close>

text \<open>Where looking at a file fails for no other reason than that it is not there, nothing is overwritten.\<close>

definition adds :: "'s cli \<Rightarrow> 's cli \<Rightarrow> bool" where
  "adds c c' \<longleftrightarrow> ((\<forall>p. fs_fault (cw_fs c) ''stat'' p = None) \<longrightarrow> fs_extends (cw_fs c) (cw_fs c'))"

definition only_adds :: "('s cli, 'a) act \<Rightarrow> bool" where
  "only_adds m \<longleftrightarrow> (\<forall>c r c'. m c = (r, c') \<longrightarrow> adds c c')"

named_theorems adding \<open>actions that only add to the file system\<close>

lemma adds_refl: "adds c c"
  by (simp add: adds_def)

lemma adds_same: "cw_fs c' = cw_fs c \<Longrightarrow> adds c c'"
  by (simp add: adds_def)

lemma adds_trans: "adds a b \<Longrightarrow> adds b c \<Longrightarrow> adds a c"
  by (simp add: adds_def fs_extends_def)

lemma only_addsD: "only_adds m \<Longrightarrow> m c = (r, c') \<Longrightarrow> adds c c'"
  by (simp add: only_adds_def)

lemma only_adds_bind [adding]: "only_adds m \<Longrightarrow> (\<And>x. only_adds (f x)) \<Longrightarrow> only_adds (abind m f)"
proof -
  assume m: "only_adds m" and f: "\<And>x. only_adds (f x)"
  have "adds c c'" if "abind m f c = (r, c')" for c r c'
  proof -
    obtain r1 c1 where c1: "m c = (r1, c1)" by (cases "m c")
    then have a: "adds c c1" using m only_addsD by blast
    show ?thesis
    proof (cases r1)
      case (Ok x)
      then have "f x c1 = (r, c')" using that c1 by (simp add: abind_def)
      then show ?thesis using a only_addsD [OF f] adds_trans by blast
    qed (use that c1 a in \<open>simp_all add: abind_def\<close>)
  qed
  then show ?thesis by (simp add: only_adds_def)
qed

lemma only_adds_basic [adding]:
  "only_adds (aret x)" "only_adds (afail e)" "only_adds (alift r)" "only_adds (Printf s)" "only_adds (PrintErrf s)"
  "only_adds (in_world w)"
  by (auto simp: only_adds_def Printf_def PrintErrf_def in_world_def intro: adds_refl adds_same split: prod.splits)

lemma only_adds_map_err [adding]: "only_adds m \<Longrightarrow> only_adds (amap_err w m)"
  by (auto simp: only_adds_def amap_err_def split: prod.splits)

lemma only_adds_failing [adding]: "only_adds m \<Longrightarrow> only_adds (failing what m)"
  by (simp add: failing_def adding)

lemma only_adds_in_fs:
  assumes "\<And>fs r fs'. f fs = (r, fs') \<Longrightarrow> fs_extends fs fs'"
  shows "only_adds (in_fs f)"
  using assms by (fastforce simp: only_adds_def in_fs_def adds_def split: prod.splits)

lemma only_adds_reads [adding]:
  "only_adds (in_fs (os_Stat p))" "only_adds (in_fs (os_ReadFile p))" "only_adds (in_fs (os_ReadDir p))"
  "only_adds (in_fs (os_MkdirAll p))"
  using os_reads_state os_MkdirAll_extends by (intro only_adds_in_fs; fastforce)+

lemma WalletPath_adds [adding]: "only_adds (WalletPath dir name)"
  by (simp add: WalletPath_def adding)

lemma in_fs_reads:
  "in_fs (os_Stat p) c = (r1, c') \<Longrightarrow> c' = c" "in_fs (os_ReadFile p) c = (r2, c') \<Longrightarrow> c' = c"
  "in_fs (os_ReadDir p) c = (r3, c') \<Longrightarrow> c' = c"
  using os_reads_state by (fastforce simp: in_fs_def split: prod.splits)+

text \<open>The write that follows a look at a name where nothing was.\<close>

lemma write_after_stat:
  assumes "os_Stat p fs = (Err e, fs1)" and "fs_fault fs ''stat'' p = None" and "os_WriteFile p bs fs = (r, fs')"
  shows "fs_extends fs fs'"
proof (cases "p = []")
  case True
  then have "fs' = fs" using assms(3)
    by (auto simp: os_WriteFile_def abind_def os_Create_def Let_def split: option.splits)
  then show ?thesis by simp
next
  case False
  then have "node fs (target fs p) = None" using assms(1,2) by (auto simp: os_Stat_def at_node_def split: option.splits)
  then show ?thesis using os_WriteFile_extends [OF assms(3)] by simp
qed

lemma write_wallet_adds:
  assumes "write_wallet W p w c = (r, c')" and "in_fs (os_Stat p) c0 = (Err e, c1)" and "cw_fs c = cw_fs c0"
  shows "adds c c'"
proof -
  have s: "os_Stat p (cw_fs c) = (Err e, cw_fs c1)" using assms(2,3) by (auto simp: in_fs_def split: prod.splits)
  show ?thesis
  proof (cases "json_Marshal W w")
    case (Ok bs)
    then obtain r2 where w: "in_fs (os_WriteFile p bs) c = (r2, c')"
      using assms(1) by (auto simp: write_wallet_def failing_def amap_err_def abind_def split: prod.splits)
    then obtain fs' where "os_WriteFile p bs (cw_fs c) = (r2, fs')" "cw_fs c' = fs'"
      by (auto simp: in_fs_def split: prod.splits)
    then show ?thesis using write_after_stat [OF s] by (auto simp: adds_def)
  qed (use assms(1) in \<open>auto simp: write_wallet_def failing_def amap_err_def abind_def intro: adds_refl\<close>)
qed

lemma stat_branch:
  assumes "in_fs (os_Stat p) c = (r, c1)"
  shows "c1 = c \<and> r \<noteq> Panic"
  using assms in_fs_reads(1) [OF assms]
  by (auto simp: in_fs_def os_Stat_def at_node_def split: option.splits if_splits prod.splits)

lemma in_world_fs: "in_world m c = (r, c') \<Longrightarrow> cw_fs c' = cw_fs c"
  by (auto simp: in_world_def split: prod.splits)

lemma cmdImportWallet_adds [adding]: "only_adds (cmdImportWallet W dir name key)"
proof -
  have "adds c c'" if "(case in_fs (os_Stat p) c of (Ok _, c) \<Rightarrow> (Err (wallet_exists name), c) | (Panic, c) \<Rightarrow> (Panic, c)
      | (Err _, c) \<Rightarrow> abind (write_wallet W p w) (\<lambda>_. Printf s) c) = (r, c')" for p w s c r c'
  proof (cases "in_fs (os_Stat p) c")
    case (Pair r1 c1)
    show ?thesis
    proof (cases r1)
      case (Err e)
      obtain r2 c2 where w: "write_wallet W p w c = (r2, c2)" by (cases "write_wallet W p w c")
      then have "cw_fs c' = cw_fs c2" using that Pair Err stat_branch [OF Pair]
        by (cases r2) (auto simp: abind_def Printf_def)
      then show ?thesis using write_wallet_adds [OF w, of c e c1] Pair Err by (simp add: adds_def)
    qed (use that Pair stat_branch [OF Pair] in \<open>auto intro: adds_refl\<close>)
  qed
  then show ?thesis
    unfolding cmdImportWallet_def Let_def
    by (intro adding) (auto simp: only_adds_def)
qed

lemma cmdCreateWallet_adds [adding]: "only_adds (cmdCreateWallet W dir name)"
proof -
  have "adds c c'" if
    "(case in_fs (os_Stat p) c of (Ok _, c) \<Rightarrow> (Err (wallet_exists name), c) | (Panic, c) \<Rightarrow> (Panic, c)
      | (Err e, c) \<Rightarrow> if \<not> IsNotExist e then (Err (wrap e), c)
          else abind (failing f (in_world (GenerateKey W))) (\<lambda>k. abind (write_wallet W p (info k)) (\<lambda>_. Printf s)) c) = (r, c')"
    for p wrap f info s c r c'
  proof (cases "in_fs (os_Stat p) c")
    case (Pair r1 c1)
    show ?thesis
    proof (cases "\<exists>e. r1 = Err e \<and> IsNotExist e")
      case True
      then obtain e where e: "r1 = Err e" "IsNotExist e" by blast
      obtain r2 c2 where g: "failing f (in_world (GenerateKey W)) c = (r2, c2)"
        by (cases "failing f (in_world (GenerateKey W)) c")
      then have fs: "cw_fs c2 = cw_fs c" by (auto simp: failing_def amap_err_def dest: in_world_fs split: prod.splits)
      show ?thesis
      proof (cases r2)
        case (Ok k)
        obtain r3 c3 where w: "write_wallet W p (info k) c2 = (r3, c3)" by (cases "write_wallet W p (info k) c2")
        then have "cw_fs c' = cw_fs c3" using that Pair e Ok g stat_branch [OF Pair]
          by (cases r3) (auto simp: abind_def Printf_def)
        then show ?thesis using write_wallet_adds [OF w, of c e c1] Pair e fs by (simp add: adds_def)
      qed (use that Pair e g fs stat_branch [OF Pair] in \<open>auto simp: abind_def intro: adds_same\<close>)
    qed (use that Pair stat_branch [OF Pair] in \<open>auto intro: adds_refl split: outcome.splits if_splits\<close>)
  qed
  then show ?thesis
    unfolding cmdCreateWallet_def Let_def
    by (intro adding) (auto simp: only_adds_def)
qed

lemma read_wallet_adds [adding]: "only_adds (read_wallet W dir name)"
  by (simp add: read_wallet_def adding)

lemma PrivateKeyFromWallet_adds [adding]: "only_adds (PrivateKeyFromWallet W dir name)"
  unfolding PrivateKeyFromWallet_def default_wallet_def Let_def
  by (auto intro!: adding split: prod.splits)

lemma list_wallets_adds [adding]: "only_adds (list_wallets W dir entries)"
proof (induction entries)
  case Nil
  then show ?case by (auto simp: only_adds_def intro: adds_refl)
next
  case (Cons entry entries)
  have ih: "only_adds (abind (Printf s) (\<lambda>_. list_wallets W dir entries))"
    "only_adds (abind (PrintErrf s) (\<lambda>_. list_wallets W dir entries))" for s
    by (intro adding Cons)+
  have "adds c c'" if "list_wallets W dir (entry # entries) c = (r, c')" for c r c'
  proof (cases "HasSuffix entry walletFileExt")
    case True
    obtain r1 c1 where rd: "in_fs (os_ReadFile (Join dir entry)) c = (r1, c1)" by (metis prod.collapse)
    then have "c1 = c" by (rule in_fs_reads(2))
    then show ?thesis using that True rd ih [THEN only_addsD] adds_refl
      by (cases r1) (auto split: outcome.splits)
  qed (use that Cons only_addsD in auto)
  then show ?case by (simp add: only_adds_def)
qed

lemma closing_conn_adds [adding]: "only_adds m \<Longrightarrow> only_adds (closing_conn W conn m)"
proof -
  assume m: "only_adds m"
  have "adds c c'" if "closing_conn W conn m c = (r, c')" for c r c'
  proof -
    obtain r1 c1 where c1: "m c = (r1, c1)" by (cases "m c")
    obtain r2 c2 where c2: "in_world (wl_close W conn) c1 = (r2, c2)" by (metis prod.collapse)
    have "cw_fs c' = cw_fs c1"
      using that c1 c2 in_world_fs [OF c2] by (cases r2) (auto simp: closing_conn_def PrintErrf_def)
    then show ?thesis using only_addsD [OF m c1] by (simp add: adds_def)
  qed
  then show ?thesis by (simp add: only_adds_def)
qed

lemma wallet_RunE_adds: "only_adds (wallet_RunE W dir addr cmd args)"
  by (cases cmd)
    (auto simp: wallet_RunE_def cmdListWallets_def cmdGetWalletKey_def cmdWalletBalance_def Let_def intro!: adding split: prod.splits)

section \<open>The keystore as a map\<close>

definition wallet_key :: "file_system \<Rightarrow> string \<Rightarrow> string \<Rightarrow> string list" where
  "wallet_key fs dir name = target fs dir @ [name @ walletFileExt]"

definition wallets :: "('s, 'key, 'conn, 'eth) wallet_lib \<Rightarrow> string \<Rightarrow> file_system \<Rightarrow> string \<Rightarrow> WalletInfo option" where
  "wallets W dir fs name =
     (case node fs (wallet_key fs dir name) of
        Some (File bs) \<Rightarrow> (case json_Unmarshal W bs of Ok w \<Rightarrow> Some w | _ \<Rightarrow> None)
      | _ \<Rightarrow> None)"

text \<open>What is needed of the libraries: JSON keeps ASCII text, and \<open>hexutil.Decode\<close> reads hexadecimal text behind \<open>0x\<close>.\<close>

definition ascii :: "string \<Rightarrow> bool" where
  "ascii s \<longleftrightarrow> (\<forall>c \<in> set s. of_char c < (128 :: nat))"

definition ascii_wallet :: "WalletInfo \<Rightarrow> bool" where
  "ascii_wallet w \<longleftrightarrow> ascii (wi_Address w) \<and> ascii (wi_PrivateKey w)"

definition wallet_laws :: "('s, 'key, 'conn, 'eth) wallet_lib \<Rightarrow> bool" where
  "wallet_laws W \<longleftrightarrow>
     codec (json_Marshal W) (json_Unmarshal W) ascii_wallet \<and> (\<forall>k. ascii (key_address W k)) \<and>
     (\<forall>s bs. hexutil_Decode W s = Ok bs \<longrightarrow> (\<exists>t. s = ''0x'' @ t \<and> hex_decode t = Ok bs))"

definition single_name :: "string \<Rightarrow> bool" where
  "single_name name \<longleftrightarrow> slash \<notin> set name"

lemma wallet_target:
  assumes "dir \<noteq> []" and "list_all plain (fs_cwd fs)" and "single_name name"
  shows "target fs (Join dir (name @ walletFileExt)) = wallet_key fs dir name"
proof -
  have "plain (name @ walletFileExt)"
    using assms(3) by (auto simp: plain_def walletFileExt_def single_name_def append_eq_Cons_conv)
  then show ?thesis using resolve_Join [OF assms(1,2)] by (simp add: target_def wallet_key_def)
qed

lemma wallet_key_inj [simp]: "wallet_key fs dir n = wallet_key fs dir n' \<longleftrightarrow> n = n'"
  by (simp add: wallet_key_def)

lemma unhex_ascii: "unhex c = Some n \<Longrightarrow> of_char c < (128 :: nat)"
  by (auto simp: unhex_def Let_def split: if_splits)

lemma hex_decode_ascii: "hex_decode t = Ok bs \<Longrightarrow> ascii t"
  by (induction t arbitrary: bs rule: hex_decode.induct)
    (auto simp: ascii_def unhex_ascii obind_Ok_iff split: option.splits if_splits)

lemma hex_encode_ascii: "ascii (hex_encode bs)"
  using hex_decode_ascii hex_decode_encode by blast

text \<open>Making the keystore directory leaves its files alone.\<close>

lemma make_dirs_deeper:
  "make_dirs path cur cs fs = (r, fs') \<Longrightarrow> length (cur @ cs) < length k \<Longrightarrow> node fs' k = node fs k"
proof (induction path cur cs fs arbitrary: r fs' rule: make_dirs.induct)
  case (2 path cur c cs fs)
  show ?case
  proof (cases "node fs (cur @ [c])")
    case None
    then have "node fs' k = node (set_node (cur @ [c]) Dir fs) k"
      using "2.prems" by (intro "2.IH"(1)) auto
    moreover have "k \<noteq> cur @ [c]" using "2.prems"(2) by auto
    ultimately show ?thesis by simp
  next
    case (Some n)
    then show ?thesis using 2 by (cases n) auto
  qed
qed simp

lemma WalletPath_Ok:
  assumes "WalletPath dir name c = (Ok p, c1)"
  shows "p = Join dir (name @ walletFileExt)" and "os_MkdirAll dir (cw_fs c) = (Ok (), cw_fs c1)" and "dir \<noteq> []"
    and "cw_out c1 = cw_out c" and "cw_world c1 = cw_world c"
proof -
  have "in_fs (os_MkdirAll dir) c = (Ok (), c1) \<and> p = Join dir (name @ walletFileExt)"
    using assms by (auto simp: WalletPath_def failing_def abind_Ok_iff)
  then show "p = Join dir (name @ walletFileExt)" "os_MkdirAll dir (cw_fs c) = (Ok (), cw_fs c1)"
    "cw_out c1 = cw_out c" "cw_world c1 = cw_world c" by (auto simp: in_fs_def split: prod.splits)
  then show "dir \<noteq> []" using os_MkdirAll_Ok by blast
qed

lemma MkdirAll_wallets:
  assumes "os_MkdirAll dir fs = (Ok (), fs')"
  shows "wallets W dir fs' = wallets W dir fs" and "wallet_key fs' dir n = wallet_key fs dir n" and "fs_cwd fs' = fs_cwd fs"
    and "fs_fault fs' = fs_fault fs"
proof -
  note ext = os_MkdirAll_extends [OF assms]
  then show k: "wallet_key fs' dir n = wallet_key fs dir n" for n by (simp add: wallet_key_def fs_extends_target)
  have "node fs' (wallet_key fs dir n) = node fs (wallet_key fs dir n)" for n
    using assms make_dirs_deeper [of dir "[]" "target fs dir" fs "Ok ()" fs' "wallet_key fs dir n"]
    by (auto simp: os_MkdirAll_def wallet_key_def split: option.splits if_splits)
  then show "wallets W dir fs' = wallets W dir fs" by (simp add: wallets_def k fun_eq_iff)
  show "fs_cwd fs' = fs_cwd fs" "fs_fault fs' = fs_fault fs" using ext by (simp_all add: fs_extends_def)
qed

lemma write_wallet_Ok:
  assumes "write_wallet W p w c = (Ok (), c')"
  shows "\<exists>bs. json_Marshal W w = Ok bs \<and> os_WriteFile p bs (cw_fs c) = (Ok (), cw_fs c') \<and> cw_out c' = cw_out c"
proof -
  obtain bs where "json_Marshal W w = Ok bs" "in_fs (os_WriteFile p bs) c = (Ok (), c')"
    using assms by (auto simp: write_wallet_def failing_def abind_Ok_iff)
  moreover from this(2) have "cw_out c' = cw_out c" by (auto simp: in_fs_def split: prod.splits)
  ultimately show ?thesis by (auto simp: in_fs_iff)
qed

text \<open>A wallet that is written where nothing was is the keystore with one entry more.\<close>

lemma written_wallet:
  assumes "wallet_laws W" and "ascii_wallet w" and "single_name name" and "list_all plain (fs_cwd (cw_fs c))"
    and "WalletPath dir name c = (Ok p, c1)" and "write_wallet W p w c2 = (Ok (), c3)" and "cw_fs c2 = cw_fs c1"
  shows "wallets W dir (cw_fs c3) = (wallets W dir (cw_fs c))(name \<mapsto> w)"
    and "os_MkdirAll dir (cw_fs c3) = (Ok (), cw_fs c3)" and "fs_cwd (cw_fs c3) = fs_cwd (cw_fs c)"
    and "fs_fault (cw_fs c3) = fs_fault (cw_fs c)"
proof -
  note wp = WalletPath_Ok [OF assms(5)]
  note mk = MkdirAll_wallets [OF wp(2)]
  obtain bs where bs: "json_Marshal W w = Ok bs" "os_WriteFile p bs (cw_fs c1) = (Ok (), cw_fs c3)"
    using write_wallet_Ok [OF assms(6)] assms(7) by auto
  note wr = os_WriteFile_Ok [OF bs(2)]
  have key: "target (cw_fs c1) p = wallet_key (cw_fs c1) dir name"
    using wallet_target [OF wp(3) _ assms(3), of "cw_fs c1"] assms(4) mk(3) wp(1) by simp
  have key3: "wallet_key (cw_fs c3) dir n = wallet_key (cw_fs c1) dir n" for n
    using wr(4) by (simp add: wallet_key_def target_def)
  have "json_Unmarshal W bs = Ok w" using assms(1,2) bs(1) codec.dec_enc by (fastforce simp: wallet_laws_def)
  then have "wallets W dir (cw_fs c3) n = ((wallets W dir (cw_fs c1))(name \<mapsto> w)) n" for n
    using wr(1) wr(3) [of "wallet_key (cw_fs c1) dir n"] by (auto simp: wallets_def key key3)
  then show "wallets W dir (cw_fs c3) = (wallets W dir (cw_fs c))(name \<mapsto> w)" by (intro ext) (simp add: mk(1))
  show "fs_cwd (cw_fs c3) = fs_cwd (cw_fs c)" "fs_fault (cw_fs c3) = fs_fault (cw_fs c)" using wr(4,5) mk(3,4) by simp_all
  have "dir_chain (cw_fs c1) (target (cw_fs c) dir)"
    using wp(2) make_dirs_chain [of dir "[]" "target (cw_fs c) dir" "cw_fs c" "cw_fs c1"]
    by (auto simp: os_MkdirAll_def dir_chain_def node_def split: option.splits if_splits)
  moreover have "target (cw_fs c3) dir = target (cw_fs c) dir" using wr(4) mk(3) by (simp add: target_def)
  moreover have "node (cw_fs c3) (take i (target (cw_fs c) dir)) = node (cw_fs c1) (take i (target (cw_fs c) dir))" for i
  proof (rule wr(3))
    have "target (cw_fs c1) dir = target (cw_fs c) dir" using mk(3) by (simp add: target_def)
    then show "take i (target (cw_fs c) dir) \<noteq> target (cw_fs c1) p"
      by (auto simp: key wallet_key_def dest: arg_cong [where f = length])
  qed
  ultimately have "dir_chain (cw_fs c3) ([] @ target (cw_fs c3) dir)" by (simp add: dir_chain_def)
  then show "os_MkdirAll dir (cw_fs c3) = (Ok (), cw_fs c3)"
    using wp(2,3) wr(5) mk(4) make_dirs_id by (auto simp: os_MkdirAll_def split: option.splits if_splits)
qed

lemma read_wallet_found:
  assumes "os_MkdirAll dir (cw_fs c) = (Ok (), cw_fs c)" and "list_all plain (fs_cwd (cw_fs c))" and "single_name name"
    and "\<forall>p. fs_fault (cw_fs c) ''open'' p = None" and "wallets W dir (cw_fs c) name = Some w"
  shows "read_wallet W dir name c = (Ok w, c)"
proof -
  have dir: "dir \<noteq> []" using os_MkdirAll_Ok [OF assms(1)] by simp
  obtain bs where bs: "node (cw_fs c) (wallet_key (cw_fs c) dir name) = Some (File bs)" "json_Unmarshal W bs = Ok w"
    using assms(5) by (auto simp: wallets_def split: option.splits fs_node.splits outcome.splits)
  have "Join dir (name @ walletFileExt) \<noteq> []" using dir Clean_nonempty by (simp add: Join_def)
  then have "os_ReadFile (Join dir (name @ walletFileExt)) (cw_fs c) = (Ok bs, cw_fs c)"
    using assms(4) bs(1) wallet_target [OF dir assms(2,3)] by (simp add: os_ReadFile_Ok)
  then show ?thesis using bs(2) assms(1)
    by (simp add: read_wallet_def WalletPath_def failing_def abind_def amap_err_def in_fs_def)
qed

lemma import_stored:
  assumes "wallet_laws W" and "single_name name" and "list_all plain (fs_cwd (cw_fs c))"
    and "cmdImportWallet W dir name key c = (Ok (), c')"
  defines "hex \<equiv> TrimPrefix key ''0x''"
  shows "\<exists>bs k. hexutil_Decode W (''0x'' @ hex) = Ok bs \<and> hex_decode hex = Ok bs \<and> ToECDSA W bs = Ok k \<and>
    wallets W dir (cw_fs c') = (wallets W dir (cw_fs c))(name \<mapsto> \<lparr>wi_Address = key_address W k, wi_PrivateKey = hex\<rparr>) \<and>
    os_MkdirAll dir (cw_fs c') = (Ok (), cw_fs c') \<and> fs_cwd (cw_fs c') = fs_cwd (cw_fs c) \<and> fs_fault (cw_fs c') = fs_fault (cw_fs c)"
proof -
  have h: "(if HasPrefix key ''0x'' then key else ''0x'' @ key) = ''0x'' @ hex"
    using HasPrefixE [of key "''0x''"] by (auto simp: hex_def TrimPrefix_def)
  obtain bs k p c1 where bs: "hexutil_Decode W (''0x'' @ hex) = Ok bs" and k: "ToECDSA W bs = Ok k"
    and p: "WalletPath dir name c = (Ok p, c1)"
    and rest: "(case in_fs (os_Stat p) c1 of (Ok _, c) \<Rightarrow> (Err (wallet_exists name), c) | (Panic, c) \<Rightarrow> (Panic, c)
      | (Err _, c) \<Rightarrow> abind (write_wallet W p \<lparr>wi_Address = key_address W k, wi_PrivateKey = hex\<rparr>) (\<lambda>_.
          Printf (''Wallet imported successfully:'' @ newline @ ''Name: '' @ name @ newline @
            ''Address: '' @ key_address W k @ newline)) c) = (Ok (), c')"
    using assms(4) unfolding cmdImportWallet_def h Let_def TrimPrefix_append
    by (auto simp: failing_def abind_Ok_iff)
  let ?w = "\<lparr>wi_Address = key_address W k, wi_PrivateKey = hex\<rparr>"
  obtain r c2 where st: "in_fs (os_Stat p) c1 = (r, c2)" by (metis prod.collapse)
  then obtain c3 where c3: "write_wallet W p ?w c1 = (Ok (), c3)" "cw_fs c' = cw_fs c3"
    using rest stat_branch [OF st] by (cases r) (auto simp: abind_Ok_iff Printf_def)
  have hd: "hex_decode hex = Ok bs" using assms(1) bs unfolding wallet_laws_def by fastforce
  then have "ascii_wallet ?w" using assms(1) hex_decode_ascii by (auto simp: ascii_wallet_def wallet_laws_def)
  note written_wallet [OF assms(1) this assms(2,3) p c3(1) refl]
  with bs hd k c3(2) show ?thesis by auto
qed

lemma create_stored:
  assumes "wallet_laws W" and "single_name name" and "list_all plain (fs_cwd (cw_fs c))"
    and "cmdCreateWallet W dir name c = (Ok (), c')"
  shows "\<exists>k w1. GenerateKey W (cw_world c) = (Ok k, w1) \<and>
    wallets W dir (cw_fs c') = (wallets W dir (cw_fs c))
      (name \<mapsto> \<lparr>wi_Address = key_address W k, wi_PrivateKey = hex_encode (FromECDSA W k)\<rparr>) \<and>
    os_MkdirAll dir (cw_fs c') = (Ok (), cw_fs c') \<and> fs_cwd (cw_fs c') = fs_cwd (cw_fs c) \<and> fs_fault (cw_fs c') = fs_fault (cw_fs c)"
proof -
  obtain p c1 where p: "WalletPath dir name c = (Ok p, c1)"
    using assms(4) by (auto simp: cmdCreateWallet_def abind_Ok_iff)
  obtain r c2 where st: "in_fs (os_Stat p) c1 = (r, c2)" by (metis prod.collapse)
  obtain k c3 c4 where g: "in_world (GenerateKey W) c1 = (Ok k, c3)"
    and w: "write_wallet W p \<lparr>wi_Address = key_address W k, wi_PrivateKey = hex_encode (FromECDSA W k)\<rparr> c3 = (Ok (), c4)"
      "cw_fs c' = cw_fs c4"
    using assms(4) p st stat_branch [OF st]
    by (cases r) (auto simp: cmdCreateWallet_def abind_Ok_iff Let_def failing_def Printf_def split: if_splits)
  have "ascii_wallet \<lparr>wi_Address = key_address W k, wi_PrivateKey = hex_encode (FromECDSA W k)\<rparr>"
    using assms(1) hex_encode_ascii by (auto simp: ascii_wallet_def wallet_laws_def)
  note wr = written_wallet [OF assms(1) this assms(2,3) p w(1) in_world_fs [OF g]]
  obtain w1 where "GenerateKey W (cw_world c) = (Ok k, w1)"
    using g WalletPath_Ok(5) [OF p] by (auto simp: in_world_def split: prod.splits)
  with wr w(2) show ?thesis by auto
qed

lemma find_sorted: "sorted xs \<Longrightarrow> x \<in> set xs \<Longrightarrow> Q x \<Longrightarrow> \<forall>y \<in> set xs. Q y \<longrightarrow> x \<le> y \<Longrightarrow> find Q xs = Some x"
  by (induction xs) (auto intro: antisym)

section \<open>Properties\<close>

fun run_wallets ::
  "('s, 'key, 'conn, 'eth) wallet_lib \<Rightarrow> string \<Rightarrow> string \<Rightarrow> (string list \<Rightarrow> string) \<Rightarrow> (wallet_cmd \<times> string list) list \<Rightarrow>
   's cli \<Rightarrow> 's cli" where
  "run_wallets W dir addr msg [] c = c"
| "run_wallets W dir addr msg ((cmd, args) # cmds) c =
     run_wallets W dir addr msg cmds
       (case wallet_Args msg cmd args of Inl _ \<Rightarrow> c | Inr args \<Rightarrow> snd (wallet_RunE W dir addr cmd args c))"

lemma run_wallets_adds: "adds c (run_wallets W dir addr msg cmds c)"
proof (induction cmds arbitrary: c)
  case Nil
  then show ?case by (simp add: adds_refl)
next
  case (Cons x cmds)
  obtain cmd args where x: "x = (cmd, args)" by fastforce
  show ?case
  proof (cases "wallet_Args msg cmd args")
    case (Inr as)
    obtain r c1 where c1: "wallet_RunE W dir addr cmd as c = (r, c1)" by fastforce
    then have "adds c c1" using wallet_RunE_adds only_addsD by blast
    then show ?thesis using Cons adds_trans by (fastforce simp: x Inr c1)
  qed (use Cons x in auto)
qed

text \<open>C20: No sequence of wallet commands, with whatever arguments and however they fail, changes or removes anything that is in the
  file system: a key, once stored, stays. It only needs that looking for a file does not fail for other reasons than
  that it is not there.\<close>

theorem wallets_never_overwritten:
  assumes "\<forall>p. fs_fault (cw_fs c) ''stat'' p = None" and "node (cw_fs c) k = Some n"
  shows "node (cw_fs (run_wallets W dir addr msg cmds c)) k = Some n"
  using run_wallets_adds [of c W dir addr msg cmds] assms by (simp add: adds_def fs_extends_def)

text \<open>C19: A private key that was imported is the key that is exported and used: \<open>import\<close> adds exactly one wallet to the keystore, under
  its name, with the digits of the key (with or without \<open>0x\<close>) and the address that belongs to it; \<open>export-key\<close> then
  prints these digits, and the other commands sign with them when the account is named.\<close>

theorem wallet_roundtrip:
  assumes "wallet_laws W" and "single_name name" and "name \<noteq> []" and "list_all plain (fs_cwd (cw_fs c))"
    and "\<forall>p. fs_fault (cw_fs c) ''open'' p = None" and "cmdImportWallet W dir name key c = (Ok (), c')"
  shows "\<exists>bs k. hex_decode (TrimPrefix key ''0x'') = Ok bs \<and> ToECDSA W bs = Ok k \<and>
    wallets W dir (cw_fs c') = (wallets W dir (cw_fs c))
      (name \<mapsto> \<lparr>wi_Address = key_address W k, wi_PrivateKey = TrimPrefix key ''0x''\<rparr>) \<and>
    PrivateKeyFromWallet W dir name c' = (Ok (TrimPrefix key ''0x'', key_address W k, name), c') \<and>
    cmdGetWalletKey W dir name c' =
      (Ok (), c'\<lparr>cw_out := cw_out c' @ [Printed (''Private key: '' @ TrimPrefix key ''0x'' @ newline)]\<rparr>)"
proof -
  obtain bs k where k: "hex_decode (TrimPrefix key ''0x'') = Ok bs" "ToECDSA W bs = Ok k"
    "wallets W dir (cw_fs c') = (wallets W dir (cw_fs c))
      (name \<mapsto> \<lparr>wi_Address = key_address W k, wi_PrivateKey = TrimPrefix key ''0x''\<rparr>)"
    "os_MkdirAll dir (cw_fs c') = (Ok (), cw_fs c')" "fs_cwd (cw_fs c') = fs_cwd (cw_fs c)" "fs_fault (cw_fs c') = fs_fault (cw_fs c)"
    using import_stored [OF assms(1,2,4,6)] by blast
  have "read_wallet W dir name c' = (Ok \<lparr>wi_Address = key_address W k, wi_PrivateKey = TrimPrefix key ''0x''\<rparr>, c')"
    using k assms(2,4,5) by (intro read_wallet_found) auto
  with k show ?thesis
    by (intro exI [of _ bs] exI [of _ k])
      (simp add: PrivateKeyFromWallet_def cmdGetWalletKey_def abind_simps Printf_def assms(3))
qed

text \<open>\<open>wallet create\<close> implements the insertion into a map: when it succeeds, the keystore has one entry more, under the name that was
  given, which had none, with the key that was generated and its address; all other wallets are as before, and the new
  one can be read.\<close>

theorem wallet_created:
  assumes "wallet_laws W" and "single_name name" and "list_all plain (fs_cwd (cw_fs c))"
    and "\<forall>op p. fs_fault (cw_fs c) op p = None" and "cmdCreateWallet W dir name c = (Ok (), c')"
  shows "\<exists>k w1. GenerateKey W (cw_world c) = (Ok k, w1) \<and> wallets W dir (cw_fs c) name = None \<and>
    wallets W dir (cw_fs c') = (wallets W dir (cw_fs c))
      (name \<mapsto> \<lparr>wi_Address = key_address W k, wi_PrivateKey = hex_encode (FromECDSA W k)\<rparr>) \<and>
    read_wallet W dir name c' = (Ok \<lparr>wi_Address = key_address W k, wi_PrivateKey = hex_encode (FromECDSA W k)\<rparr>, c')"
proof -
  obtain k w1 where k: "GenerateKey W (cw_world c) = (Ok k, w1)"
    "wallets W dir (cw_fs c') = (wallets W dir (cw_fs c))
      (name \<mapsto> \<lparr>wi_Address = key_address W k, wi_PrivateKey = hex_encode (FromECDSA W k)\<rparr>)"
    "os_MkdirAll dir (cw_fs c') = (Ok (), cw_fs c')" "fs_cwd (cw_fs c') = fs_cwd (cw_fs c)" "fs_fault (cw_fs c') = fs_fault (cw_fs c)"
    using create_stored [OF assms(1-3,5)] by blast
  have "read_wallet W dir name c' = (Ok \<lparr>wi_Address = key_address W k, wi_PrivateKey = hex_encode (FromECDSA W k)\<rparr>, c')"
    using k assms(2-4) by (intro read_wallet_found) auto
  moreover have "wallets W dir (cw_fs c) name = None"
  proof -
    obtain p c1 where p: "WalletPath dir name c = (Ok p, c1)"
      using assms(5) by (auto simp: cmdCreateWallet_def abind_Ok_iff)
    note wp = WalletPath_Ok [OF p] and mk = MkdirAll_wallets [OF WalletPath_Ok(2) [OF p]]
    obtain r c2 where st: "in_fs (os_Stat p) c1 = (r, c2)" by (metis prod.collapse)
    then have "\<exists>e. r = Err e" using assms(5) p stat_branch [OF st]
      by (cases r) (auto simp: cmdCreateWallet_def abind_simps)
    moreover have "p \<noteq> []" using wp(1,3) Clean_nonempty by (simp add: Join_def)
    ultimately have "node (cw_fs c1) (target (cw_fs c1) p) = None"
      using st assms(4) mk(4) by (auto simp: in_fs_def os_Stat_def at_node_def split: option.splits)
    moreover have "target (cw_fs c1) p = wallet_key (cw_fs c1) dir name"
      using wallet_target [OF wp(3) _ assms(2), of "cw_fs c1"] assms(3) mk(3) wp(1) by simp
    ultimately show ?thesis using mk(1) [of W] by (metis option.simps(4) wallets_def)
  qed
  ultimately show ?thesis using k by blast
qed

text \<open>C22: Without \<open>--account\<close> the commands use the wallet whose file name comes first. When that is the wallet with the empty name,
  which \<open>create\<close> and \<open>import\<close> accept, they report that a key has the wrong length instead of using any wallet.\<close>

theorem default_wallet_first:
  assumes "dir \<noteq> []" and "node (cw_fs c) (target (cw_fs c) dir) = Some Dir" and "fs_fault (cw_fs c) ''open'' dir = None"
    and "node (cw_fs c) (target (cw_fs c) dir @ [entry]) \<noteq> None" and "HasSuffix entry walletFileExt"
    and "\<forall>e. HasSuffix e walletFileExt \<and> node (cw_fs c) (target (cw_fs c) dir @ [e]) \<noteq> None \<longrightarrow> entry \<le> e"
  shows "PrivateKeyFromWallet W dir [] c =
    (if entry = walletFileExt then (Err no_wallet, c) else PrivateKeyFromWallet W dir (TrimSuffix entry walletFileExt) c)"
proof -
  let ?es = "dir_entries (cw_fs c) (target (cw_fs c) dir)"
  have "sorted ?es" by (simp add: dir_entries_def)
  then have "find (\<lambda>e. HasSuffix e walletFileExt) ?es = Some entry"
    using assms(4-6) by (intro find_sorted) (simp_all add: set_dir_entries)
  moreover have "in_fs (os_ReadDir dir) c = (Ok ?es, c)"
    using assms(1-3) by (simp add: in_fs_def os_ReadDir_def at_node_def)
  moreover have "TrimSuffix entry walletFileExt = [] \<longleftrightarrow> entry = walletFileExt"
    using HasSuffixE [OF assms(5)] by auto
  ultimately show ?thesis
    by (auto simp: PrivateKeyFromWallet_def default_wallet_def abind_def amap_err_def)
qed

section \<open>An example keystore\<close>

definition sample_marshal :: "WalletInfo \<Rightarrow> byte list outcome" where
  "sample_marshal w = Ok (bytes_of (wi_Address w) @ 255 # bytes_of (wi_PrivateKey w))"

definition sample_unmarshal :: "byte list \<Rightarrow> WalletInfo outcome" where
  "sample_unmarshal bs =
     (case dropWhile (\<lambda>b. b \<noteq> 255) bs of
        [] \<Rightarrow> Err (ErrNew ''unexpected end of JSON input'')
      | _ # key \<Rightarrow> Ok \<lparr>wi_Address = string_of (takeWhile (\<lambda>b. b \<noteq> 255) bs), wi_PrivateKey = string_of key\<rparr>)"

definition sample_wallet_lib :: "(nat, byte list, unit, unit) wallet_lib" where
  "sample_wallet_lib = \<lparr>GenerateKey = (\<lambda>n. (Ok [of_nat n, 1], n + 1)), FromECDSA = (\<lambda>k. k),
     ToECDSA = (\<lambda>bs. if length bs = 2 then Ok bs else Err (ErrNew ''invalid length, need 256 bits'')),
     key_address = (\<lambda>k. ''0x'' @ hex_encode (rev k)),
     hexutil_Decode = (\<lambda>s. if HasPrefix s ''0x'' then hex_decode (drop 2 s) else Err (ErrNew ''hex string without 0x prefix'')),
     json_Marshal = sample_marshal, json_Unmarshal = sample_unmarshal, wl_NewClient = (\<lambda>_. Ok ()),
     wl_ConnectionParams = (\<lambda>_. aret ''uri''), wl_close = (\<lambda>_. aret ()), wl_Dial = (\<lambda>_. aret ()),
     wl_BalanceAt = (\<lambda>_ _. aret 5), in_ether = (\<lambda>_. ''0.0000'')\<rparr>"

definition sample_fs :: "(string list \<times> fs_node) list \<Rightarrow> file_system" where
  "sample_fs nodes = \<lparr>fs_nodes = nodes, fs_cwd = [''home''], fs_fault = (\<lambda>_ _. None), fs_short = (\<lambda>_. None)\<rparr>"

definition sample_cli :: "(string list \<times> fs_node) list \<Rightarrow> nat cli" where
  "sample_cli nodes = \<lparr>cw_fs = sample_fs nodes, cw_out = [], cw_world = 7\<rparr>"

lemma ascii_bytes: "ascii s \<Longrightarrow> b \<in> set (bytes_of s) \<Longrightarrow> b \<noteq> 255"
proof
  assume "ascii s" "b \<in> set (bytes_of s)" "b = 255"
  then obtain c where c: "of_char c = (255 :: byte)" "of_char c < (128 :: nat)" by (auto simp: ascii_def bytes_of_def)
  then show False using unat_of_char [of c] by simp
qed

lemma sample_wallet_laws: "wallet_laws sample_wallet_lib"
proof -
  have "codec sample_marshal sample_unmarshal ascii_wallet"
  proof
    fix w y
    assume w: "ascii_wallet w" and y: "sample_marshal w = Ok y"
    have "\<forall>b \<in> set (bytes_of (wi_Address w)). b \<noteq> 255" using w ascii_bytes by (auto simp: ascii_wallet_def)
    then have "takeWhile (\<lambda>b. b \<noteq> 255) y = bytes_of (wi_Address w)" "dropWhile (\<lambda>b. b \<noteq> 255) y = 255 # bytes_of (wi_PrivateKey w)"
      using y by (auto simp: sample_marshal_def takeWhile_append2 dropWhile_append2)
    then show "sample_unmarshal y = Ok w" by (simp add: sample_unmarshal_def)
  qed (simp add: sample_marshal_def)
  moreover have "ascii (''0x'' @ hex_encode bs)" for bs using hex_encode_ascii by (auto simp: ascii_def)
  ultimately show ?thesis
    by (auto simp: wallet_laws_def sample_wallet_lib_def split: if_splits dest!: HasPrefixE)
qed

abbreviation no_msg :: "string list \<Rightarrow> string" where "no_msg \<equiv> \<lambda>_. []"

theorem wallets_never_overwritten_witness:
  "node (cw_fs (run_wallets sample_wallet_lib ''keys'' [] no_msg
      [(WalletImport, [''a'', ''0x01ab'']), (WalletCreate, [''a'']), (WalletCreate, [''b'']), (WalletList, [])]
      (sample_cli [([''home''], Dir), ([''home'', ''keys''], Dir), ([''home'', ''keys'', ''a.json''], File [1])])))
     [''home'', ''keys'', ''a.json''] = Some (File [1])"
  by (rule wallets_never_overwritten) (simp_all add: sample_cli_def sample_fs_def node_def)

theorem wallet_roundtrip_witness:
  "\<exists>c'. cmdImportWallet sample_wallet_lib ''keys'' ''a'' ''0x01ab'' (sample_cli []) = (Ok (), c') \<and>
    PrivateKeyFromWallet sample_wallet_lib ''keys'' ''a'' c' = (Ok (''01ab'', ''0xab01'', ''a''), c')"
proof -
  have "fst (cmdImportWallet sample_wallet_lib ''keys'' ''a'' ''0x01ab'' (sample_cli [])) = Ok ()" by code_simp
  then obtain c' where c': "cmdImportWallet sample_wallet_lib ''keys'' ''a'' ''0x01ab'' (sample_cli []) = (Ok (), c')"
    by (metis prod.collapse)
  have h: "single_name ''a''" "list_all plain (fs_cwd (cw_fs (sample_cli [])))"
    "\<forall>p. fs_fault (cw_fs (sample_cli [])) ''open'' p = None" "TrimPrefix ''0x01ab'' ''0x'' = ''01ab''"
    by (simp_all add: single_name_def sample_cli_def sample_fs_def plain_def TrimPrefix_def HasPrefix_def)
  have a: "key_address sample_wallet_lib [1, 171] = ''0xab01''" by code_simp
  have d: "hex_decode ''01ab'' = Ok [1, 171]" by code_simp
  obtain bs k where k: "hex_decode ''01ab'' = Ok bs" "ToECDSA sample_wallet_lib bs = Ok k"
    "PrivateKeyFromWallet sample_wallet_lib ''keys'' ''a'' c' = (Ok (''01ab'', key_address sample_wallet_lib k, ''a''), c')"
    using wallet_roundtrip [OF sample_wallet_laws h(1) _ h(2,3) c', unfolded h(4)] by auto
  then have "k = [1, 171]" using d by (simp add: sample_wallet_lib_def)
  with c' k(3) a show ?thesis by auto
qed

theorem wallet_created_witness:
  "\<exists>c'. cmdCreateWallet sample_wallet_lib ''keys'' ''a'' (sample_cli []) = (Ok (), c') \<and>
    read_wallet sample_wallet_lib ''keys'' ''a'' c' = (Ok \<lparr>wi_Address = ''0x0107'', wi_PrivateKey = ''0701''\<rparr>, c')"
proof -
  have "fst (cmdCreateWallet sample_wallet_lib ''keys'' ''a'' (sample_cli [])) = Ok ()" by code_simp
  then obtain c' where c': "cmdCreateWallet sample_wallet_lib ''keys'' ''a'' (sample_cli []) = (Ok (), c')"
    by (metis prod.collapse)
  have h: "single_name ''a''" "list_all plain (fs_cwd (cw_fs (sample_cli [])))"
    "\<forall>op p. fs_fault (cw_fs (sample_cli [])) op p = None"
    by (simp_all add: single_name_def sample_cli_def sample_fs_def plain_def)
  obtain k w1 where k: "GenerateKey sample_wallet_lib (cw_world (sample_cli [])) = (Ok k, w1)"
    "read_wallet sample_wallet_lib ''keys'' ''a'' c' =
      (Ok \<lparr>wi_Address = key_address sample_wallet_lib k, wi_PrivateKey = hex_encode (FromECDSA sample_wallet_lib k)\<rparr>, c')"
    using wallet_created [OF sample_wallet_laws h c'] by blast
  have "k = [7, 1]" using k(1) by (simp add: sample_wallet_lib_def sample_cli_def)
  moreover have "key_address sample_wallet_lib [7, 1] = ''0x0107''" "hex_encode (FromECDSA sample_wallet_lib [7, 1]) = ''0701''"
    by code_simp+
  ultimately show ?thesis using c' k(2) by auto
qed

text \<open>A keystore with a wallet called \<open>a\<close> and one with the empty name.\<close>

theorem default_wallet_first_witness:
  "PrivateKeyFromWallet sample_wallet_lib ''/keys'' []
      (sample_cli [([''keys''], Dir), ([''keys'', ''a.json''], File [1]), ([''keys'', ''.json''], File [2])]) =
    (Err no_wallet, sample_cli [([''keys''], Dir), ([''keys'', ''a.json''], File [1]), ([''keys'', ''.json''], File [2])])"
proof -
  let ?c = "sample_cli [([''keys''], Dir), ([''keys'', ''a.json''], File [1]), ([''keys'', ''.json''], File [2])]"
  have t: "target (cw_fs ?c) ''/keys'' = [''keys'']"
    by (simp add: target_def resolve_def is_rooted_def clean_step_def)
  have n: "node (cw_fs ?c) [''keys'', e] \<noteq> None \<Longrightarrow> e = ''a.json'' \<or> e = ''.json''" for e
    by (auto simp: node_def sample_cli_def sample_fs_def split: if_splits)
  have a: "walletFileExt \<le> ''a.json''" by code_simp
  have "\<forall>e. HasSuffix e walletFileExt \<and> node (cw_fs ?c) [''keys'', e] \<noteq> None \<longrightarrow> walletFileExt \<le> e"
  proof (intro allI impI)
    fix e
    assume "HasSuffix e walletFileExt \<and> node (cw_fs ?c) [''keys'', e] \<noteq> None"
    with n [of e] have "e = ''a.json'' \<or> e = walletFileExt" unfolding walletFileExt_def by blast
    with a show "walletFileExt \<le> e" by blast
  qed
  then show ?thesis
    using default_wallet_first [of "''/keys''" ?c walletFileExt sample_wallet_lib]
    by (simp add: t) (simp add: node_def sample_cli_def sample_fs_def walletFileExt_def HasSuffix_def)
qed


end
