(* ===== verification/CommandSpec.thy ===== *)
theory CommandSpec
  imports Commands WalletSpec
begin

text \<open>
  What the commands promise: whatever the flags, the SDK they run on is valid; arguments that are accepted are the ones
  meant; the progress bar is given each byte once.
\<close>

section \<open>Steps\<close>

lemma cbind_Some: "cbind m f c = Some (Ok y, c'') \<longleftrightarrow> (\<exists>x c'. m c = Some (Ok x, c') \<and> f x c' = Some (Ok y, c''))"
  by (auto simp: cbind_def split: option.splits prod.splits outcome.splits)

lemma now_Some [simp]: "now m c = Some (r, c') \<longleftrightarrow> m c = (r, c')"
  by (simp add: now_def)

lemma cfailing_Ok [simp]: "cfailing what m c = Some (Ok x, c') \<longleftrightarrow> m c = Some (Ok x, c')"
  by (auto simp: cfailing_def split: option.splits)

lemma closing_Ok: "closing E sdk m c = Some (Ok x, c') \<Longrightarrow> \<exists>c1. m c = Some (Ok x, c1)"
  by (auto simp: closing_def split: option.splits prod.splits outcome.splits)

section \<open>The configuration\<close>

lemma defaultParameters_Ok:
  assumes "defaultParameters W F c = (Ok (key, opts), c')"
  shows "\<exists>enc. opts = WithEncryptionKey enc # (if f_useMetadataEncryption F then [WithMetadataEncryption] else []) \<and>
    (if f_encryptionKey F = [] then enc = [] else hex_decode (f_encryptionKey F) = Ok enc)"
  using assms by (auto simp: defaultParameters_def abind_Ok_iff failing_def split: if_splits)

lemma foldl_opts: "foldl (\<lambda>s opt. opt s) s (xs @ ys) = foldl (\<lambda>s opt. opt s) (foldl (\<lambda>s opt. opt s) s xs) ys"
  by simp

lemma validate_SDK_fields:
  assumes "validate_SDK rs_New http s = Ok s'"
  shows "sdk_privateKey s' = sdk_privateKey s \<and> sdk_encryptionKey s' = sdk_encryptionKey s \<and>
    sdk_useMetadataEncryption s' = sdk_useMetadataEncryption s \<and> sdk_parityBlocksCount s' = sdk_parityBlocksCount s \<and>
    sdk_chunkBuffer s' = sdk_chunkBuffer s \<and> sdk_chunkBatchSize s' = sdk_chunkBatchSize s \<and>
    sdk_maxBlocksInChunk s' = sdk_maxBlocksInChunk s \<and> sdk_withRetry s' = sanitize_retry (sdk_withRetry s)"
  using validate_SDK_result [OF assms] by (elim exE conjE) simp

lemma command_options:
  assumes "opts = WithEncryptionKey enc # (if meta then [WithMetadataEncryption] else [])"
  shows "foldl (\<lambda>s opt. opt s) (default_SDK conn conc part key) (opts @ upload_options F) =
    (default_SDK conn conc part key)\<lparr>sdk_encryptionKey := enc, sdk_useMetadataEncryption := meta,
      sdk_parityBlocksCount := parityBlocks F, sdk_chunkBuffer := max 0 (f_chunkBuffer F),
      sdk_chunkBatchSize := max 1 (f_chunkBatch F)\<rparr>"
  using assms
  by (simp add: upload_options_def WithErasureCoding_def WithChunkBuffer_def WithChunkBatchSize_def WithEncryptionKey_def
      WithMetadataEncryption_def default_SDK_def max_def)

section \<open>Arguments\<close>

lemma require_Inr: "require ms as = Inr bs \<Longrightarrow> length as = length ms \<Longrightarrow> bs = as \<and> [] \<notin> set as"
  by (induction ms as arbitrary: bs rule: require.induct) (auto split: if_splits sum.splits)

lemma checked_Inr: "checked what ms as = Inr bs \<Longrightarrow> bs = as \<and> length as = length ms \<and> [] \<notin> set as"
  by (auto simp: checked_def expects_def dest: require_Inr split: sum.splits if_splits)

lemmas args_defs = bucketCreate_Args_def bucketDelete_Args_def bucketView_Args_def fileList_Args_def fileInfo_Args_def
  fileUpload_Args_def fileDownload_Args_def fileDelete_Args_def archivalMetadata_Args_def

lemma trimmed_args:
  "checked what ms (map TrimSpace args) = Inr as \<Longrightarrow> a \<in> set as \<Longrightarrow> a \<noteq> [] \<and> TrimSpace a = a"
  using checked_Inr [of what ms "map TrimSpace args" as] by (auto, metis imageI)

section \<open>The progress bar\<close>

fun ticks ::
  "(64 word \<Rightarrow> ('w cli, unit) act) \<Rightarrow> (string \<Rightarrow> ('w cli, unit) act) \<Rightarrow> (64 word \<Rightarrow> 'w cli \<Rightarrow> string) \<Rightarrow> string \<Rightarrow>
   (64 word \<times> 64 word \<times> 64 word) list \<Rightarrow> 64 word \<Rightarrow> ('w cli, 64 word) act" where
  "ticks add describe speed op [] lst = aret lst"
| "ticks add describe speed op ((ch, bl, byt) # ts) lst =
     abind (handleProgressUpdates add describe speed op ch bl byt lst) (\<lambda>lst. ticks add describe speed op ts lst)"

text \<open>\<open>asked\<close> is the sum of all increments the bar was given, accepted or refused.\<close>

definition bar_laws :: "(64 word \<Rightarrow> ('w cli, unit) act) \<Rightarrow> (string \<Rightarrow> ('w cli, unit) act) \<Rightarrow> ('w cli \<Rightarrow> int) \<Rightarrow> bool" where
  "bar_laws add describe asked \<longleftrightarrow>
     (\<forall>n c r c'. add n c = (r, c') \<longrightarrow> r \<noteq> Panic \<and> asked c' = asked c + sint n) \<and>
     (\<forall>d c. \<exists>c'. describe d c = (Ok (), c') \<and> asked c' = asked c) \<and>
     (\<forall>c out. asked (c\<lparr>cw_out := out\<rparr>) = asked c)"

lemma sint_diff:
  fixes a b :: "64 word"
  assumes "0 \<le> sint a" and "0 \<le> sint b"
  shows "sint (a - b) = sint a - sint b"
proof -
  have "sint a < 2 ^ 63" "sint b < 2 ^ 63" using sint_lt [of a] sint_lt [of b] by simp_all
  with assms show ?thesis by (simp add: sint_word_ariths(2) signed_take_bit_int_eq_self)
qed

lemma tick_total:
  assumes "bar_laws add describe asked" and "0 \<le> sint byt" and "0 \<le> sint lst"
  shows "\<exists>lst' c'. handleProgressUpdates add describe speed op ch bl byt lst c = (Ok lst', c') \<and>
    sint lst' = max (sint lst) (sint byt) \<and> asked c' = asked c + (sint lst' - sint lst)"
proof -
  have d: "sint (byt - lst) = sint byt - sint lst" using sint_diff assms(2,3) by blast
  have desc: "\<exists>c'. describe t c = (Ok (), c') \<and> asked c' = asked c" for t c using assms(1) by (simp add: bar_laws_def)
  have out: "asked (c\<lparr>cw_out := out\<rparr>) = asked c" for c out using assms(1) by (simp add: bar_laws_def)
  show ?thesis
  proof (cases "sint lst < sint byt")
    case True
    obtain r c1 where a: "add (byt - lst) c = (r, c1)" by fastforce
    then have r: "r \<noteq> Panic" "asked c1 = asked c + (sint byt - sint lst)" using assms(1) d unfolding bar_laws_def by fastforce+
    define m where "m = op @ ''... Chunks: '' @ pad_left 3 (decimal ch) @ '', Blocks: '' @ pad_left 4 (decimal bl)"
    obtain c2 where c2: "(case r of Err e \<Rightarrow> if \<not> contains (err_text e) ''current number exceeds max''
        then snd (PrintErrf (''failed to add bytes to progress: '' @ err_text e) c1) else c1 | _ \<Rightarrow> c1) = c2" "asked c2 = asked c1"
      using out by (cases r) (auto simp: PrintErrf_def)
    obtain c3 where "describe (m @ speed byt c2) c2 = (Ok (), c3)" "asked c3 = asked c2" using desc by blast
    with c2 r a True show ?thesis
      by (cases r) (auto simp: handleProgressUpdates_def Let_def d abind_def m_def)
  next
    case False
    define m where "m = op @ ''... Chunks: '' @ pad_left 3 (decimal ch) @ '', Blocks: '' @ pad_left 4 (decimal bl)"
    obtain c3 where "describe (m @ speed byt c) c = (Ok (), c3)" "asked c3 = asked c" using desc by blast
    with False show ?thesis by (auto simp: handleProgressUpdates_def Let_def d abind_def m_def)
  qed
qed

section \<open>Properties\<close>

text \<open>C23: Whatever flags are given, an SDK that the upload command gets is valid: erasure coding with sixteen parity blocks of
  thirty-two unless it is disabled, the key of the flags with no bytes or thirty-two, buffers and batches that are not
  negative and not empty, retries that do not panic; metadata is encrypted exactly when the flag says so.\<close>

theorem cli_config_valid:
  assumes "defaultParameters W F c = (Ok (key, opts), c')"
    and "New grpc_NewClient limit rs_New http (f_nodeRPCAddress F) (f_maxConcurrency F) (f_blockPartSize F) key
      (opts @ upload_options F) = Ok sdk"
  shows "valid_SDK sdk \<and> sdk_maxBlocksInChunk sdk = 32 \<and> sdk_parityBlocksCount sdk = parityBlocks F \<and>
    (sdk_ec sdk = None \<longleftrightarrow> f_disableErasureCoding F) \<and> sdk_privateKey sdk = key \<and>
    (if f_encryptionKey F = [] then sdk_encryptionKey sdk = []
     else hex_decode (f_encryptionKey F) = Ok (sdk_encryptionKey sdk) \<and> length (sdk_encryptionKey sdk) \<in> {0, 32}) \<and>
    sdk_useMetadataEncryption sdk = f_useMetadataEncryption F \<and> sdk_chunkBuffer sdk = max 0 (f_chunkBuffer F) \<and>
    sdk_chunkBatchSize sdk = max 1 (f_chunkBatch F)"
proof -
  obtain enc where enc: "opts = WithEncryptionKey enc # (if f_useMetadataEncryption F then [WithMetadataEncryption] else [])"
    "if f_encryptionKey F = [] then enc = [] else hex_decode (f_encryptionKey F) = Ok enc"
    using defaultParameters_Ok [OF assms(1)] by blast
  obtain conn where part: "0 < f_blockPartSize F" and v: "validate_SDK rs_New http
      (foldl (\<lambda>s opt. opt s) (default_SDK conn (f_maxConcurrency F) (f_blockPartSize F) key) (opts @ upload_options F)) = Ok sdk"
    using assms(2) by (auto simp: New_def obind_Ok_iff simp del: foldl_append split: if_splits)
  note v = v [unfolded command_options [OF enc(1)]]
  let ?s = "(default_SDK conn (f_maxConcurrency F) (f_blockPartSize F) key)\<lparr>sdk_encryptionKey := enc,
      sdk_useMetadataEncryption := f_useMetadataEncryption F, sdk_parityBlocksCount := parityBlocks F,
      sdk_chunkBuffer := max 0 (f_chunkBuffer F), sdk_chunkBatchSize := max 1 (f_chunkBatch F)\<rparr>"
  have "options_inv (f_blockPartSize F) ?s" by (simp add: options_inv_def default_SDK_def)
  then have valid: "valid_SDK sdk" using validate_SDK_Ok [OF v _ part] by blast
  note f = validate_SDK_fields [OF v, simplified]
  have "sdk_ec sdk = None \<longleftrightarrow> sdk_parityBlocksCount sdk \<le> 0" using valid by (auto simp: valid_SDK_def split: option.splits)
  then have ec: "sdk_ec sdk = None \<longleftrightarrow> f_disableErasureCoding F" using f by (simp add: parityBlocks_def)
  have len: "length (sdk_encryptionKey sdk) \<in> {0, 32}" using valid by (simp add: valid_SDK_def)
  have d: "sdk_maxBlocksInChunk sdk = 32" "sdk_privateKey sdk = key" using f by (simp_all add: default_SDK_def)
  show ?thesis
    using valid ec len d f enc(2) by (cases "f_encryptionKey F = []") auto
qed

theorem cli_config_valid_witness:
  "\<exists>F (opts :: (unit, unit) sdk_option list) sdk. F = (default_flags (Err (ErrNew ''no home'')))\<lparr>f_privateKey := ''ab''\<rparr> \<and>
    defaultParameters sample_wallet_lib F (sample_cli []) = (Ok (''ab'', opts), sample_cli []) \<and>
    New (\<lambda>_. Ok ()) 1048576 (\<lambda>_ _. Ok mirror_encoder) () (f_nodeRPCAddress F) (f_maxConcurrency F) (f_blockPartSize F) ''ab''
      (opts @ upload_options F) = Ok sdk \<and> valid_SDK sdk \<and> sdk_ec sdk \<noteq> None"
proof -
  let ?F = "(default_flags (Err (ErrNew ''no home'')))\<lparr>f_privateKey := ''ab''\<rparr>"
  let ?opts = "[WithEncryptionKey []] :: (unit, unit) sdk_option list"
  have par: "defaultParameters sample_wallet_lib ?F (sample_cli []) = (Ok (''ab'', ?opts), sample_cli [])"
    by (simp add: defaultParameters_def getWalletPrivateKey_def default_flags_def abind_def)
  have fl: "f_nodeRPCAddress ?F = ''127.0.0.1:5000''" "f_maxConcurrency ?F = 32" "f_blockPartSize ?F = 131072"
    "\<not> f_disableErasureCoding ?F"
    by (simp_all add: default_flags_def upload_options_def parityBlocks_def ToInt64_def MulInt64_def KiB_def)
  obtain sdk where sdk: "New (\<lambda>_. Ok ()) 1048576 (\<lambda>_ _. Ok mirror_encoder) () (f_nodeRPCAddress ?F) (f_maxConcurrency ?F)
      (f_blockPartSize ?F) ''ab'' (?opts @ upload_options ?F) = Ok sdk"
    unfolding fl
    by (simp add: New_def default_SDK_def upload_options_def default_flags_def parityBlocks_def WithErasureCoding_def
        WithChunkBuffer_def WithChunkBatchSize_def WithEncryptionKey_def validate_SDK_def NewErasureCode_def go_arith)
  from cli_config_valid [OF par sdk] fl(4) have "valid_SDK sdk" "sdk_ec sdk \<noteq> None" by blast+
  with par sdk show ?thesis by blast
qed

text \<open>\<open>bucket create\<close> and \<open>bucket delete\<close> take the name as it is typed, all other commands trim white space off it: a bucket
  created with a name that begins or ends with white space can be deleted, but no other command accepts its name.\<close>

theorem spaced_bucket_unreachable:
  assumes "TrimSpace n \<noteq> n" and "n \<noteq> []"
  shows "storage_Args msg BucketCreateCmd [n] = Inr [n] \<and> storage_Args msg BucketDeleteCmd [n] = Inr [n] \<and>
    (\<forall>cmd args as. storage_Args msg cmd args = Inr as \<and> n \<in> set as \<longrightarrow> cmd \<in> {BucketCreateCmd, BucketDeleteCmd})"
proof (intro conjI allI impI)
  show "storage_Args msg BucketCreateCmd [n] = Inr [n]" "storage_Args msg BucketDeleteCmd [n] = Inr [n]"
    using assms(2) by (simp_all add: storage_Args_def args_defs checked_def expects_def)
next
  fix cmd args as
  assume "storage_Args msg cmd args = Inr as \<and> n \<in> set as"
  then show "cmd \<in> {BucketCreateCmd, BucketDeleteCmd}"
    using assms(1) trimmed_args
    by (cases cmd) (auto simp: storage_Args_def args_defs NoArgs_def split: if_splits)
qed

theorem spaced_bucket_unreachable_witness:
  "storage_Args no_msg BucketCreateCmd ['' abc''] = Inr ['' abc'']"
proof -
  have "TrimSpace '' abc'' \<noteq> '' abc''" by code_simp
  then show ?thesis using spaced_bucket_unreachable [of "'' abc''" no_msg] by simp
qed

text \<open>The progress bar is given every byte exactly once: after any sequence of ticks, with counters read in any order, the
  increments add up to the largest count that was seen, in 64-bit arithmetic, whatever errors the bar reports.\<close>

theorem progress_total:
  assumes "bar_laws add describe asked" and "\<forall>(ch, bl, byt) \<in> set ts. 0 \<le> sint byt" and "0 \<le> sint lst"
  shows "\<exists>lst' c'. ticks add describe speed op ts lst c = (Ok lst', c') \<and>
    sint lst' = foldl (\<lambda>m (ch, bl, byt). max m (sint byt)) (sint lst) ts \<and> asked c' = asked c + (sint lst' - sint lst)"
  using assms(2,3)
proof (induction ts arbitrary: lst c)
  case (Cons t ts)
  obtain ch bl bts where t: "t = (ch, bl, bts)" by (cases t)
  obtain l1 c1 where l1: "handleProgressUpdates add describe speed op ch bl bts lst c = (Ok l1, c1)"
    "sint l1 = max (sint lst) (sint bts)" "asked c1 = asked c + (sint l1 - sint lst)"
    using tick_total [OF assms(1), of bts lst] Cons.prems t by fastforce
  have "0 \<le> sint l1" using l1(2) Cons.prems(2) by simp
  then obtain l2 c2 where "ticks add describe speed op ts l1 c1 = (Ok l2, c2)"
    "sint l2 = foldl (\<lambda>m (ch, bl, byt). max m (sint byt)) (sint l1) ts" "asked c2 = asked c1 + (sint l2 - sint l1)"
    using Cons.IH [of l1 c1] Cons.prems(1) by auto
  then show ?case using l1 t by (auto simp: abind_def)
qed auto

text \<open>A bar that counts in the state and refuses to go beyond ten.\<close>

theorem progress_total_witness:
  "\<exists>c'. ticks (\<lambda>n c. (if 10 < cw_world c + sint n then Err (ErrNew ''current number exceeds max'') else Ok (),
        c\<lparr>cw_world := cw_world c + sint n\<rparr>)) (\<lambda>_. aret ()) (\<lambda>_ _. []) ''Uploading''
      [(0, 1, 4), (0, 2, 9), (1, 2, 7), (1, 3, 12)] 0 \<lparr>cw_fs = sample_fs [], cw_out = [], cw_world = 0\<rparr> = (Ok 12, c') \<and>
    cw_world c' = 12"
proof -
  let ?add = "\<lambda>n c. (if 10 < cw_world c + sint n then Err (ErrNew ''current number exceeds max'') else Ok (),
        c\<lparr>cw_world := cw_world c + sint (n :: 64 word)\<rparr>) :: unit outcome \<times> int cli"
  let ?ts = "[(0, 1, 4), (0, 2, 9), (1, 2, 7), (1, 3, 12)] :: (64 word \<times> 64 word \<times> 64 word) list"
  have laws: "bar_laws ?add (\<lambda>_. aret ()) cw_world" by (simp add: bar_laws_def)
  have ts: "\<forall>(ch, bl, byt) \<in> set ?ts. 0 \<le> sint byt" by simp
  obtain lst' c' where l: "ticks ?add (\<lambda>_. aret ()) (\<lambda>_ _. []) ''Uploading'' ?ts 0 \<lparr>cw_fs = sample_fs [], cw_out = [], cw_world = 0\<rparr> =
      (Ok lst', c')" "sint lst' = 12" "cw_world c' = 12"
    using progress_total [OF laws ts, of 0] by fastforce
  have "lst' = 12" using l(2) by (intro signed_word_eqI) simp
  with l show ?thesis by blast
qed

end
