(* ===== verification/TaskGroups.thy ===== *)
theory TaskGroups
  imports Runs
begin

text \<open>
  An \<open>errgroup\<close> with a limit whose functions report their errors themselves: tasks are launched in their order, at most
  \<open>tk_limit\<close> of them are active at a time, and the steps of the active ones interleave on a shared world. A panic of one
  ends them all.

  The locale \<open>errgroup\<close> lifts an invariant of a single task, whatever the others do to the world, to the group; the
  locale \<open>finite_errgroup\<close> does the same with weights, so that a group of tasks that end is a program that ends.
\<close>

record ('w, 'p, 'c, 'e) tasks =
  tk_count :: nat
  tk_limit :: nat
  tk_first :: "nat \<Rightarrow> 'p"
  tk_step :: "nat \<Rightarrow> 'c \<Rightarrow> 'w \<Rightarrow> 'p \<Rightarrow> ('w \<times> 'p \<times> 'e list) option"
  tk_over :: "'p \<Rightarrow> bool"
  tk_crashed :: "'p \<Rightarrow> bool"

text \<open>The world and the tasks launched so far.\<close>

record ('w, 'p) group_state =
  gr_world :: 'w
  gr_tasks :: "'p list"

datatype 'c group_choice = Launch | Act nat 'c

definition active :: "('w, 'p, 'c, 'e) tasks \<Rightarrow> 'p list \<Rightarrow> nat" where
  "active T ts = length (filter (\<lambda>t. \<not> tk_over T t) ts)"

definition crashed :: "('w, 'p, 'c, 'e) tasks \<Rightarrow> ('w, 'p) group_state \<Rightarrow> bool" where
  "crashed T st \<longleftrightarrow> (\<exists>t \<in> set (gr_tasks st). tk_crashed T t)"

definition group_step ::
  "('w, 'p, 'c, 'e) tasks \<Rightarrow> 'c group_choice \<Rightarrow> ('w, 'p) group_state \<Rightarrow> (('w, 'p) group_state \<times> (nat \<times> 'e) list) option" where
  "group_step T c st =
     (if crashed T st then None
      else case c of
        Launch \<Rightarrow>
          if length (gr_tasks st) < tk_count T \<and> active T (gr_tasks st) < tk_limit T
          then Some (st\<lparr>gr_tasks := gr_tasks st @ [tk_first T (length (gr_tasks st))]\<rparr>, []) else None
      | Act i c \<Rightarrow>
          if i < length (gr_tasks st)
          then (case tk_step T i c (gr_world st) (gr_tasks st ! i) of
                  None \<Rightarrow> None
                | Some (w, t, es) \<Rightarrow> Some (\<lparr>gr_world = w, gr_tasks = (gr_tasks st)[i := t]\<rparr>, map (Pair i) es))
          else None)"

definition group_start :: "'w \<Rightarrow> ('w, 'p) group_state" where
  "group_start w = \<lparr>gr_world = w, gr_tasks = []\<rparr>"

text \<open>All launched and over: \<open>Wait\<close> returns.\<close>

definition all_over :: "('w, 'p, 'c, 'e) tasks \<Rightarrow> ('w, 'p) group_state \<Rightarrow> bool" where
  "all_over T st \<longleftrightarrow> length (gr_tasks st) = tk_count T \<and> (\<forall>t \<in> set (gr_tasks st). tk_over T t)"

text \<open>The events of one task.\<close>

definition of_task :: "nat \<Rightarrow> (nat \<times> 'e) list \<Rightarrow> 'e list" where
  "of_task i es = map snd (filter (\<lambda>(j, e). j = i) es)"

lemma of_task_simps [simp]:
  "of_task i [] = []" "of_task i (es @ es') = of_task i es @ of_task i es'" "of_task i (map (Pair i) xs) = xs"
  "j \<noteq> i \<Longrightarrow> of_task i (map (Pair j) xs) = []"
  by (simp_all add: of_task_def filter_map comp_def)

lemma active_update:
  assumes "i < length ts" and "\<not> tk_over T (ts ! i)"
  shows "active T (ts[i := t]) \<le> active T ts"
  using assms unfolding active_def
  by (induction ts arbitrary: i) (auto simp: nth_Cons split: nat.splits)

lemma group_step_cases:
  assumes "group_step T c st = Some (st', es)"
  obtains (Launch) "c = Launch" "length (gr_tasks st) < tk_count T" "active T (gr_tasks st) < tk_limit T"
      "st' = st\<lparr>gr_tasks := gr_tasks st @ [tk_first T (length (gr_tasks st))]\<rparr>" "es = []"
    | (Act) i c' w t es' where "c = Act i c'" "i < length (gr_tasks st)"
      "tk_step T i c' (gr_world st) (gr_tasks st ! i) = Some (w, t, es')"
      "st' = \<lparr>gr_world = w, gr_tasks = (gr_tasks st)[i := t]\<rparr>" "es = map (Pair i) es'"
  using assms by (cases c) (auto simp: group_step_def split: if_splits option.splits)

lemma launch_or_over:
  assumes "\<forall>t \<in> set (gr_tasks st). tk_over T t" and "length (gr_tasks st) \<le> tk_count T" and "0 < tk_limit T" and "\<not> crashed T st"
  shows "all_over T st \<or> group_step T Launch st \<noteq> None"
proof -
  have "active T (gr_tasks st) = 0" using assms(1) by (simp add: active_def)
  then show ?thesis using assms by (auto simp: all_over_def group_step_def)
qed

text \<open>What holds of a task, given the events it has made.\<close>

definition each_task ::
  "('w, 'p, 'c, 'e) tasks \<Rightarrow> (nat \<Rightarrow> 'e list \<Rightarrow> 'p \<Rightarrow> bool) \<Rightarrow> (nat \<times> 'e) list \<Rightarrow> ('w, 'p) group_state \<Rightarrow> bool" where
  "each_task T tinv es st \<longleftrightarrow> length (gr_tasks st) \<le> tk_count T \<and> active T (gr_tasks st) \<le> tk_limit T \<and>
     (\<forall>i < tk_count T. if i < length (gr_tasks st) then tinv i (of_task i es) (gr_tasks st ! i) else of_task i es = [])"

locale errgroup =
  fixes T :: "('w, 'p, 'c, 'e) tasks" and tinv :: "nat \<Rightarrow> 'e list \<Rightarrow> 'p \<Rightarrow> bool"
  assumes first_inv: "i < tk_count T \<Longrightarrow> tinv i [] (tk_first T i)"
    and task_inv: "tinv i es t \<Longrightarrow> tk_step T i c w t = Some (w', t', es') \<Longrightarrow> tinv i (es @ es') t'"
    and over_stops: "tk_over T t \<Longrightarrow> tk_step T i c w t = None"
begin

lemma each_task_step:
  assumes inv: "each_task T tinv es st" and step: "group_step T c st = Some (st', es')"
  shows "each_task T tinv (es @ es') st'"
  using step
proof (cases rule: group_step_cases)
  case Launch
  have "tinv (length (gr_tasks st)) [] (tk_first T (length (gr_tasks st)))" using first_inv Launch(2) .
  moreover have "active T (gr_tasks st @ [t]) \<le> tk_limit T" for t using Launch(3) by (simp add: active_def)
  ultimately show ?thesis
    using inv Launch by (auto simp: each_task_def nth_append less_Suc_eq split: if_splits)
next
  case (Act i c' w t es0)
  have open_task: "\<not> tk_over T (gr_tasks st ! i)" using over_stops Act(3) by fastforce
  have "tinv i (of_task i es) (gr_tasks st ! i)" using inv Act(2) by (auto simp: each_task_def)
  from task_inv [OF this Act(3)] show ?thesis
    using inv Act(2,4,5) active_update [OF Act(2) open_task, of t] by (auto simp: each_task_def nth_list_update)
qed

end

sublocale errgroup \<subseteq> transitions "group_step T" "\<lambda>st. \<exists>w. st = group_start w" "each_task T tinv"
proof
  show "each_task T tinv [] st" if "\<exists>w. st = group_start w" for st
    using that by (auto simp: each_task_def group_start_def active_def)
qed (rule each_task_step)

locale finite_errgroup = errgroup +
  fixes tweight :: "'p \<Rightarrow> nat" and tround :: "'c list"
  assumes task_weight: "tinv i es t \<Longrightarrow> tk_step T i c w t = Some (w', t', es') \<Longrightarrow> tweight t' < tweight t"
    and task_progress: "tinv i es t \<Longrightarrow> \<not> tk_over T t \<Longrightarrow> \<not> tk_crashed T t \<Longrightarrow> \<exists>c \<in> set tround. tk_step T i c w t \<noteq> None"
    and some_active: "0 < tk_limit T"

definition group_weight :: "('w, 'p, 'c, 'e) tasks \<Rightarrow> ('p \<Rightarrow> nat) \<Rightarrow> ('w, 'p) group_state \<Rightarrow> nat" where
  "group_weight T tweight st =
     sum_list (map tweight (gr_tasks st)) + sum_list (map (\<lambda>i. Suc (tweight (tk_first T i))) [length (gr_tasks st)..<tk_count T])"

definition group_round :: "('w, 'p, 'c, 'e) tasks \<Rightarrow> 'c list \<Rightarrow> 'c group_choice list" where
  "group_round T tround = Launch # concat (map (\<lambda>i. map (Act i) tround) [0..<tk_count T])"

lemma sum_list_update_less:
  assumes "i < length ts" and "f t < (f (ts ! i) :: nat)"
  shows "sum_list (map f (ts[i := t])) < sum_list (map f ts)"
  using assms by (induction ts arbitrary: i) (auto simp: nth_Cons split: nat.splits)

sublocale finite_errgroup \<subseteq> finishing "group_step T" "\<lambda>st. \<exists>w. st = group_start w" "each_task T tinv"
  "group_weight T tweight" "\<lambda>st. crashed T st \<or> all_over T st" "group_round T tround"
proof
  fix es c st st' es'
  assume inv: "each_task T tinv es st" and step: "group_step T c st = Some (st', es')"
  from step show "group_weight T tweight st' < group_weight T tweight st"
  proof (cases rule: group_step_cases)
    case Launch
    then show ?thesis by (simp add: group_weight_def upt_conv_Cons)
  next
    case (Act i c' w t es0)
    have "tinv i (of_task i es) (gr_tasks st ! i)" using inv Act(2) by (auto simp: each_task_def)
    from task_weight [OF this Act(3)] show ?thesis
      using sum_list_update_less [OF Act(2), of tweight t] Act(4) by (simp add: group_weight_def)
  qed
next
  fix es st
  assume inv: "each_task T tinv es st" and go: "\<not> (crashed T st \<or> all_over T st)"
  show "\<exists>c \<in> set (group_round T tround). group_step T c st \<noteq> None"
  proof (cases "\<exists>i < length (gr_tasks st). \<not> tk_over T (gr_tasks st ! i)")
    case True
    then obtain i where i: "i < length (gr_tasks st)" "\<not> tk_over T (gr_tasks st ! i)" by blast
    have "i < tk_count T" "tinv i (of_task i es) (gr_tasks st ! i)" using inv i(1) by (auto simp: each_task_def)
    moreover have "\<not> tk_crashed T (gr_tasks st ! i)" using go i(1) by (simp add: crashed_def)
    ultimately obtain c where c: "c \<in> set tround" "tk_step T i c (gr_world st) (gr_tasks st ! i) \<noteq> None"
      using task_progress i(2) by blast
    have "group_step T (Act i c) st \<noteq> None" using c(2) i(1) go by (auto simp: group_step_def split: option.splits)
    moreover have "Act i c \<in> set (group_round T tround)" using c(1) \<open>i < tk_count T\<close> by (auto simp: group_round_def)
    ultimately show ?thesis by blast
  next
    case False
    then have over: "\<forall>t \<in> set (gr_tasks st). tk_over T t" by (metis in_set_conv_nth)
    then have "group_step T Launch st \<noteq> None" using launch_or_over [OF over _ some_active] go inv by (auto simp: each_task_def)
    then show ?thesis by (auto simp: group_round_def)
  qed
next
  fix c st
  assume "crashed T st \<or> all_over T st"
  then show "group_step T c st = None"
    using over_stops by (cases c) (auto simp: group_step_def all_over_def split: option.splits)
qed

end
