(* ===== verification/FileCreations.thy ===== *)
theory FileCreations
  imports FileUpload TaskGroups
begin

text \<open>
  \<open>MultiUpload.CreateFileUploads\<close> (\<open>sdk/multi_upload.go\<close>) with its goroutines interleaved. They share the named result \<open>err\<close>:
  each call of the contract writes it, and what \<open>retry.Do\<close> is told is read from it afterwards, outside the mutex. A step
  is a call, or a read of \<open>err\<close>.

  \<open>CreateFileUploads\<close> of \<open>FileUpload\<close> lets the goroutines run one after the other. With a concurrency of one that is what
  happens; with more it is not, and one goroutine can take the outcome of another's call for that of its own.
\<close>

section \<open>An attempt at a time\<close>

text \<open>What \<open>retry.Do\<close> makes of the results of an attempt.\<close>

datatype retry_next = Succeeded | Failed go_error | Again | Broken

definition next_attempt :: "WithRetry \<Rightarrow> retry_env \<Rightarrow> nat \<Rightarrow> bool \<Rightarrow> go_error option \<Rightarrow> retry_next" where
  "next_attempt r env attempt needsRetry err =
     (case err of
        None \<Rightarrow> Succeeded
      | Some e \<Rightarrow>
          if \<not> needsRetry \<or> MaxAttempts r \<le> int attempt then Failed e
          else (case rand_Int64N (random env attempt) (BaseDelay r) of
                  Ok _ \<Rightarrow> (case ctx_done env attempt of Some c \<Rightarrow> Failed (ErrAborted c e) | None \<Rightarrow> Again)
                | _ \<Rightarrow> Broken))"

text \<open>The end of the loop: state and result, without the delays.\<close>

definition loop_end :: "'s \<times> 64 word list \<times> unit outcome \<Rightarrow> 's \<times> unit outcome" where
  "loop_end p = (fst p, snd (snd p))"

lemma loop_end_next:
  "loop_end (retry_loop r env f k s ds) =
     (case f s of ((needsRetry, err), s') \<Rightarrow>
        (case next_attempt r env k needsRetry err of
           Succeeded \<Rightarrow> (s', Ok ())
         | Failed e \<Rightarrow> (s', Err e)
         | Broken \<Rightarrow> (s', Panic)
         | Again \<Rightarrow> loop_end (retry_loop r env f (Suc k) s' (ds @ [BaseDelay r * push_bit k 1 + random env k mod BaseDelay r]))))"
  by (auto simp: retry_loop.simps [of r env f k s] loop_end_def next_attempt_def rand_Int64N_def Let_def
      split: prod.splits option.splits)

lemma next_attempt_Again: "next_attempt r env k needsRetry err = Again \<Longrightarrow> int k < MaxAttempts r"
  by (auto simp: next_attempt_def split: option.splits outcome.splits if_splits)

lemma next_attempt_simps [simp]:
  "next_attempt r env k needsRetry None = Succeeded" "next_attempt r env k needsRetry (Some e) \<noteq> Succeeded"
  by (auto simp: next_attempt_def split: outcome.splits option.splits)

lemma loop_end_delays: "loop_end (retry_loop r env f k s ds) = loop_end (retry_loop r env f k s ds')"
proof (induction "nat (MaxAttempts r) - k" arbitrary: k s ds ds' rule: less_induct)
  case less
  show ?case
    unfolding loop_end_next [of r env f k s]
    by (intro prod.case_cong retry_next.case_cong refl less) (auto dest!: next_attempt_Again)
qed

text \<open>The rest of a retried call from an attempt on.\<close>

definition retry_rest :: "WithRetry \<Rightarrow> retry_env \<Rightarrow> (go_error \<Rightarrow> bool) \<Rightarrow> nat \<Rightarrow> ('s, 'a) act \<Rightarrow> ('s, 'a) act" where
  "retry_rest w env retryable k m s =
     (case loop_end (retry_loop w env (attempt_of retryable m) k (Panic, s) []) of
        ((r, s'), res) \<Rightarrow>
          ((case res of Ok _ \<Rightarrow> r | Err e \<Rightarrow> (case r of Panic \<Rightarrow> Panic | _ \<Rightarrow> Err e) | Panic \<Rightarrow> Panic), s'))"

lemma retry_act_rest: "retry_act w envs retryable m s = retry_rest w (envs s) retryable 0 m s"
  by (simp add: retry_act_def retry_rest_def Do_def loop_end_def split: prod.splits)

lemma retry_rest_next:
  "retry_rest w env retryable k m s =
     (case m s of
        (Ok x, s') \<Rightarrow> (Ok x, s')
      | (Panic, s') \<Rightarrow> (Panic, s')
      | (Err e, s') \<Rightarrow>
          (case next_attempt w env k (retryable e) (Some e) of
             Failed e' \<Rightarrow> (Err e', s')
           | Again \<Rightarrow> retry_rest w env retryable (Suc k) m s'
           | _ \<Rightarrow> (Panic, s')))"
proof -
  let ?f = "attempt_of retryable m"
  obtain r s' where m: "m s = (r, s')" by fastforce
  have f: "?f (x, s) = ((case r of Ok _ \<Rightarrow> (False, None) | Err e \<Rightarrow> (retryable e, Some e) | Panic \<Rightarrow> (False, Some (ErrNew ''panic''))), (r, s'))" for x
    by (simp add: attempt_of_def m)
  have again: "loop_end (retry_loop w env ?f i (x, t) ds) = loop_end (retry_loop w env ?f i (Panic, t) [])" for i x t ds
  proof -
    have "?f (x, t) = ?f (Panic, t)" by (simp add: attempt_of_def)
    then have "loop_end (retry_loop w env ?f i (x, t) ds) = loop_end (retry_loop w env ?f i (Panic, t) ds)"
      by (simp add: loop_end_next [of w env ?f i "(x, t)"] loop_end_next [of w env ?f i "(Panic, t)"])
    then show ?thesis by (simp add: loop_end_delays [of w env ?f i "(Panic, t)" ds "[]"])
  qed
  show ?thesis
  proof (cases r)
    case (Ok x)
    then show ?thesis by (simp add: retry_rest_def loop_end_next [of w env ?f k "(Panic, s)"] f m next_attempt_def)
  next
    case (Err e)
    then have "loop_end (retry_loop w env ?f k (Panic, s) []) =
      (case next_attempt w env k (retryable e) (Some e) of
           Succeeded \<Rightarrow> ((r, s'), Ok ()) | Failed e \<Rightarrow> ((r, s'), Err e) | Broken \<Rightarrow> ((r, s'), Panic)
         | Again \<Rightarrow> loop_end (retry_loop w env ?f (Suc k) (Panic, s') []))"
      by (cases "next_attempt w env k (retryable e) (Some e)")
        (simp_all add: loop_end_next [of w env ?f k "(Panic, s)"] f again [of _ "Err e"])
    then show ?thesis using Err by (simp add: retry_rest_def m split: retry_next.splits)
  next
    case Panic
    then show ?thesis by (simp add: retry_rest_def loop_end_next [of w env ?f k "(Panic, s)"] f m next_attempt_def)
  qed
qed

section \<open>The goroutines\<close>

text \<open>Where a goroutine is, with its local variables: a call about to be made, or its results about to be read.\<close>

datatype creating =
    Naming
  | Asking IPCFileUpload retry_env nat
  | Asked IPCFileUpload retry_env nat st_bucket
  | Creating IPCFileUpload st_bucket retry_env nat
  | Sent IPCFileUpload st_bucket retry_env nat "byte list option"
  | Judged IPCFileUpload st_bucket retry_env nat "byte list option" bool
  | Awaiting IPCFileUpload "byte list"
  | Finished "IPCFileUpload option \<times> go_error option"
  | Crashed

text \<open>The variables \<open>err\<close> and world are shared. A failed call leaves the zero bucket, or no transaction.\<close>

type_synonym 's shared = "go_error option \<times> 's"

definition zero_bucket :: st_bucket where
  "zero_bucket = \<lparr>stb_Id = replicate 32 0, stb_Name = [], stb_CreatedAt = 0\<rparr>"

definition named_upload :: "prims \<Rightarrow> dag_lib \<Rightarrow> ('cl, 'conn, 'http) IPC \<Rightarrow> CreateFileUploadParam \<Rightarrow> IPCFileUpload outcome" where
  "named_upload P lib sdk p =
     (let bucketEnc = maybeEncryptMetadata P sdk (cfp_BucketName p) ''bucket'';
          fileEnc = maybeEncryptMetadata P sdk (cfp_FileName p) (cfp_BucketName p);
          err_of = (\<lambda>r. case r of Err e \<Rightarrow> Some e | _ \<Rightarrow> None)
      in if bucketEnc = Panic \<or> fileEnc = Panic then Panic
         else case errors_Join [err_of bucketEnc, err_of fileEnc] of
           Some e \<Rightarrow> Err (errSDK e)
         | None \<Rightarrow> obind bucketEnc (\<lambda>b. obind fileEnc (\<lambda>f. map_err errSDK (NewIPCFileUpload lib b f))))"

text \<open>A call that writes \<open>err\<close>; \<open>zero\<close> is what it returns with an error.\<close>

definition shared_call ::
  "('s, 'a) act \<Rightarrow> 'b \<Rightarrow> ('a \<Rightarrow> 'b) \<Rightarrow> ('b \<Rightarrow> creating) \<Rightarrow> 's shared \<Rightarrow> ('s shared \<times> creating \<times> unit list) option" where
  "shared_call m zero value k st =
     (case m (snd st) of
        (Ok x, s') \<Rightarrow> Some ((None, s'), k (value x), [])
      | (Err e, s') \<Rightarrow> Some ((Some e, s'), k zero, [])
      | (Panic, s') \<Rightarrow> Some ((fst st, s'), Crashed, []))"

definition next_creating :: "('s, 'c) api \<Rightarrow> retry_next \<Rightarrow> creating \<Rightarrow> creating \<Rightarrow> creating" where
  "next_creating A r again succeeded =
     (case r of Succeeded \<Rightarrow> succeeded | Failed e \<Rightarrow> Finished (None, Some (chain_err A e)) | Again \<Rightarrow> again | Broken \<Rightarrow> Crashed)"

fun creating_step ::
  "prims \<Rightarrow> dag_lib \<Rightarrow> ('s, 'c) api \<Rightarrow> ('cl, 'conn, 'http) IPC \<Rightarrow> CreateFileUploadParam \<Rightarrow> 's shared \<Rightarrow> creating \<Rightarrow>
   ('s shared \<times> creating \<times> unit list) option" where
  "creating_step P lib A sdk p st Naming =
     Some (st, (case named_upload P lib sdk p of
                  Ok fu \<Rightarrow> Asking fu (st_retry_env A (snd st)) 0
                | Err e \<Rightarrow> Finished (None, Some e)
                | Panic \<Rightarrow> Crashed), [])"
| "creating_step P lib A sdk p st (Asking fu env k) =
     shared_call (st_GetBucketByName A (fu_BucketName fu)) zero_bucket (\<lambda>b. b) (Asked fu env k) st"
| "creating_step P lib A sdk p st (Asked fu env k bucket) =
     Some (st, next_creating A (next_attempt (ipc_withRetry sdk) env k True (fst st)) (Asking fu env (Suc k))
                 (Creating fu bucket (st_retry_env A (snd st)) 0), [])"
| "creating_step P lib A sdk p st (Creating fu bucket env k) =
     shared_call (st_CreateFile A (stb_Id bucket) (fu_Name fu)) None Some (Sent fu bucket env k) st"
| "creating_step P lib A sdk p st (Sent fu bucket env k tx) =
     Some (st, Judged fu bucket env k tx (isRetryableTxError (fst st)), [])"
| "creating_step P lib A sdk p st (Judged fu bucket env k tx needsRetry) =
     Some (st, next_creating A (next_attempt (ipc_withRetry sdk) env k needsRetry (fst st)) (Creating fu bucket env (Suc k))
                 (case tx of Some h \<Rightarrow> Awaiting fu h | None \<Rightarrow> Crashed), [])"
| "creating_step P lib A sdk p st (Awaiting fu h) =
     (case st_WaitForTx A h (snd st) of
        (Ok _, s') \<Rightarrow> Some ((fst st, s'), Finished (Some fu, None), [])
      | (Err e, s') \<Rightarrow> Some ((fst st, s'), Finished (None, Some (errSDK e)), [])
      | (Panic, s') \<Rightarrow> Some ((fst st, s'), Crashed, []))"
| "creating_step P lib A sdk p st (Finished r) = None"
| "creating_step P lib A sdk p st Crashed = None"

definition creating_over :: "creating \<Rightarrow> bool" where
  "creating_over t \<longleftrightarrow> (case t of Finished _ \<Rightarrow> True | Crashed \<Rightarrow> True | _ \<Rightarrow> False)"

definition create_tasks ::
  "prims \<Rightarrow> dag_lib \<Rightarrow> ('s, 'c) api \<Rightarrow> ('cl, 'conn, 'http) MultiUpload \<Rightarrow> CreateFileUploadParam list \<Rightarrow>
   ('s shared, creating, unit, unit) tasks" where
  "create_tasks P lib A m params =
     \<lparr>tk_count = length params, tk_limit = nat (mu_fileConcurrency m), tk_first = (\<lambda>_. Naming),
      tk_step = (\<lambda>i _ st t. creating_step P lib A (mu_ipcSDK m) (params ! i) st t),
      tk_over = creating_over, tk_crashed = (\<lambda>t. t = Crashed)\<rparr>"

text \<open>What \<open>CreateFileUploads\<close> returns once its goroutines are at rest.\<close>

definition created_results :: "CreateFileUploadParam list \<Rightarrow> creating list \<Rightarrow> CreateFileUploadResult list" where
  "created_results params ts = map (\<lambda>(p, t).
     (case t of Finished (up, err) \<Rightarrow> \<lparr>cfr_BucketName = cfp_BucketName p, cfr_FileName = cfp_FileName p, cfr_FileUpload = up, cfr_Error = err\<rparr>
      | _ \<Rightarrow> \<lparr>cfr_BucketName = [], cfr_FileName = [], cfr_FileUpload = None, cfr_Error = None\<rparr>)) (zip params ts)"

definition CreateFileUploads_interleaved ::
  "prims \<Rightarrow> dag_lib \<Rightarrow> ('s, 'c) api \<Rightarrow> ('cl, 'conn, 'http) MultiUpload \<Rightarrow> unit group_choice list \<Rightarrow> CreateFileUploadParam list \<Rightarrow>
   's \<Rightarrow> (CreateFileUploadResult list outcome \<times> 's) option" where
  "CreateFileUploads_interleaved P lib A m sched params s =
     (if params = [] then Some (sdk_fail ''no files to upload'' s)
      else if name_errors params \<noteq> [] then Some (Err (ErrJoin (name_errors params)), s)
      else
        let T = create_tasks P lib A m params in
        (case schedule (group_step T) sched (group_start (None, s)) of (st, _) \<Rightarrow>
           if crashed T st then Some (Panic, snd (gr_world st))
           else if all_over T st then Some (Ok (created_results params (gr_tasks st)), snd (gr_world st))
           else None))"

section \<open>The goroutines finish\<close>

text \<open>Two steps per attempt at the bucket, three per attempt at the file, and three more.\<close>

fun creating_weight :: "nat \<Rightarrow> creating \<Rightarrow> nat" where
  "creating_weight n Naming = 5 * n + 8"
| "creating_weight n (Asking fu env k) = 2 * (n - k) + 3 * n + 7"
| "creating_weight n (Asked fu env k bucket) = 2 * (n - k) + 3 * n + 6"
| "creating_weight n (Creating fu bucket env k) = 3 * (n - k) + 5"
| "creating_weight n (Sent fu bucket env k tx) = 3 * (n - k) + 4"
| "creating_weight n (Judged fu bucket env k tx needsRetry) = 3 * (n - k) + 3"
| "creating_weight n (Awaiting fu h) = 1"
| "creating_weight n (Finished r) = 0"
| "creating_weight n Crashed = 0"

lemma next_creating_weight:
  assumes "r = Again \<Longrightarrow> creating_weight n again < m" and "creating_weight n succeeded < m"
  shows "creating_weight n (next_creating A r again succeeded) < m"
  using assms by (cases r) (auto simp: next_creating_def)

lemma creating_step_weight:
  assumes "creating_step P lib A sdk p st t = Some (st', t', es)"
  shows "creating_weight (nat (MaxAttempts (ipc_withRetry sdk))) t' < creating_weight (nat (MaxAttempts (ipc_withRetry sdk))) t"
  using assms
proof (cases t)
  case (Asked fu env k bucket)
  have "creating_weight (nat (MaxAttempts (ipc_withRetry sdk))) t' < creating_weight (nat (MaxAttempts (ipc_withRetry sdk))) (Asked fu env k bucket)"
    using assms Asked by (auto intro!: next_creating_weight dest!: next_attempt_Again)
  then show ?thesis using Asked by simp
next
  case (Judged fu bucket env k tx needsRetry)
  have "creating_weight (nat (MaxAttempts (ipc_withRetry sdk))) t' <
      creating_weight (nat (MaxAttempts (ipc_withRetry sdk))) (Judged fu bucket env k tx needsRetry)"
    using assms Judged by (auto intro!: next_creating_weight dest!: next_attempt_Again split: option.split)
  then show ?thesis using Judged by simp
qed (auto simp: shared_call_def split: prod.splits outcome.splits)

lemma creating_step_over: "creating_step P lib A sdk p st t = None \<longleftrightarrow> creating_over t"
  by (cases t) (auto simp: creating_over_def shared_call_def split: prod.splits outcome.splits)

interpretation creations: finite_errgroup "create_tasks P lib A (MultiUpload_of sdk n) params" "\<lambda>_ _ _. True"
  "creating_weight (nat (MaxAttempts (ipc_withRetry sdk)))" "[()]" for P lib A sdk n params
proof
  fix i c w t and es :: "unit list"
  show "\<exists>c \<in> set [()]. tk_step (create_tasks P lib A (MultiUpload_of sdk n) params) i c w t \<noteq> None"
    if "\<not> tk_over (create_tasks P lib A (MultiUpload_of sdk n) params) t"
    using that by (simp add: create_tasks_def creating_step_over MultiUpload_of_def)
qed (auto simp: create_tasks_def MultiUpload_of_def creating_step_over dest: creating_step_weight)

section \<open>A goroutine alone\<close>

function alone ::
  "prims \<Rightarrow> dag_lib \<Rightarrow> ('s, 'c) api \<Rightarrow> ('cl, 'conn, 'http) IPC \<Rightarrow> CreateFileUploadParam \<Rightarrow> 's shared \<Rightarrow> creating \<Rightarrow>
   (IPCFileUpload option \<times> go_error option) outcome \<times> 's" where
  "alone P lib A sdk p st t =
     (case creating_step P lib A sdk p st t of
        Some (st', t', _) \<Rightarrow> alone P lib A sdk p st' t'
      | None \<Rightarrow> ((case t of Finished r \<Rightarrow> Ok r | _ \<Rightarrow> Panic), snd st))"
  by pat_completeness auto
termination
  by (relation "measure (\<lambda>(P, lib, A, sdk, p, st, t). creating_weight (nat (MaxAttempts (ipc_withRetry sdk))) t)")
    (auto dest: creating_step_weight)

declare alone.simps [simp del]

lemma alone_step: "creating_step P lib A sdk p st t = Some (st', t', es) \<Longrightarrow> alone P lib A sdk p st t = alone P lib A sdk p st' t'"
  by (simp add: alone.simps [of _ _ _ _ _ st t])

lemma alone_end [simp]:
  "alone P lib A sdk p st (Finished r) = (Ok r, snd st)" "alone P lib A sdk p st Crashed = (Panic, snd st)"
  by (simp_all add: alone.simps)

definition await_creation :: "('s, 'c) api \<Rightarrow> IPCFileUpload \<Rightarrow> byte list \<Rightarrow> ('s, IPCFileUpload) act" where
  "await_creation A fu tx = abind (sdk_wrap (st_WaitForTx A tx)) (\<lambda>_. aret fu)"

lemma alone_awaiting: "alone P lib A sdk p st (Awaiting fu h) = capture (await_creation A fu h) (snd st)"
  by (auto simp: alone.simps [of _ _ _ _ _ st] await_creation_def capture_def abind_def amap_err_def split: prod.splits outcome.splits)

lemma alone_creating:
  "alone P lib A sdk p st (Creating fu bucket env k) =
     capture (abind (chain_wrap A (retry_rest (ipc_withRetry sdk) env (\<lambda>e. isRetryableTxError (Some e)) k
       (st_CreateFile A (stb_Id bucket) (fu_Name fu)))) (await_creation A fu)) (snd st)"
proof (induction "nat (MaxAttempts (ipc_withRetry sdk)) - k" arbitrary: k st rule: less_induct)
  case less
  let ?m = "st_CreateFile A (stb_Id bucket) (fu_Name fu)"
  obtain r s' where m: "?m (snd st) = (r, s')" by fastforce
  show ?case
  proof (cases r)
    case (Ok tx)
    have "alone P lib A sdk p st (Creating fu bucket env k) = alone P lib A sdk p (None, s') (Awaiting fu tx)"
      using m Ok by (simp add: alone.simps [of _ _ _ _ _ _ "Creating fu bucket env k"] alone.simps [of _ _ _ _ _ _ "Sent fu bucket env k (Some tx)"]
          alone.simps [of _ _ _ _ _ _ "Judged fu bucket env k (Some tx) b" for b] shared_call_def next_creating_def)
    then show ?thesis using m Ok by (simp add: alone_awaiting retry_rest_next [of _ _ _ k] capture_def abind_def amap_err_def)
  next
    case (Err e)
    let ?n = "next_attempt (ipc_withRetry sdk) env k (isRetryableTxError (Some e)) (Some e)"
    have step: "alone P lib A sdk p st (Creating fu bucket env k) =
        alone P lib A sdk p (Some e, s') (next_creating A ?n (Creating fu bucket env (Suc k)) Crashed)"
      using m Err by (simp add: alone.simps [of _ _ _ _ _ _ "Creating fu bucket env k"] alone.simps [of _ _ _ _ _ _ "Sent fu bucket env k None"]
          alone.simps [of _ _ _ _ _ _ "Judged fu bucket env k None b" for b] shared_call_def)
    show ?thesis
    proof (cases ?n)
      case Again
      then have "nat (MaxAttempts (ipc_withRetry sdk)) - Suc k < nat (MaxAttempts (ipc_withRetry sdk)) - k"
        by (auto dest!: next_attempt_Again)
      from less [OF this, of "(Some e, s')"] show ?thesis
        using step Again m Err
        by (simp add: next_creating_def retry_rest_next [of _ _ _ k] capture_def abind_def amap_err_def)
    qed (use step m Err in \<open>simp_all add: next_creating_def retry_rest_next [of _ _ _ k] capture_def abind_def amap_err_def\<close>)
  next
    case Panic
    then show ?thesis
      using m by (simp add: alone.simps [of _ _ _ _ _ _ "Creating fu bucket env k"] shared_call_def retry_rest_next [of _ _ _ k]
          capture_def abind_def amap_err_def)
  qed
qed

lemma alone_asking:
  "alone P lib A sdk p st (Asking fu env k) =
     capture (abind (chain_wrap A (retry_rest (ipc_withRetry sdk) env (\<lambda>_. True) k (st_GetBucketByName A (fu_BucketName fu)))) (\<lambda>bucket.
       abind (chain_wrap A (retry_tx A sdk (st_CreateFile A (stb_Id bucket) (fu_Name fu)))) (await_creation A fu))) (snd st)"
proof (induction "nat (MaxAttempts (ipc_withRetry sdk)) - k" arbitrary: k st rule: less_induct)
  case less
  let ?m = "st_GetBucketByName A (fu_BucketName fu)"
  obtain r s' where m: "?m (snd st) = (r, s')" by fastforce
  note here = alone.simps [of _ _ _ _ _ _ "Asking fu env k"] alone.simps [of _ _ _ _ _ _ "Asked fu env k b" for b] shared_call_def
    and there = retry_rest_next [of _ _ _ k] capture_def abind_def amap_err_def
  show ?case
  proof (cases r)
    case (Ok bucket)
    have "alone P lib A sdk p st (Asking fu env k) = alone P lib A sdk p (None, s') (Creating fu bucket (st_retry_env A s') 0)"
      using m Ok by (simp add: here next_creating_def)
    then show ?thesis using m Ok by (simp add: alone_creating there retry_tx_def retry_act_rest)
  next
    case (Err e)
    let ?n = "next_attempt (ipc_withRetry sdk) env k True (Some e)"
    have step: "alone P lib A sdk p st (Asking fu env k) =
        alone P lib A sdk p (Some e, s') (next_creating A ?n (Asking fu env (Suc k)) (Creating fu zero_bucket (st_retry_env A s') 0))"
      using m Err by (simp add: here)
    show ?thesis
    proof (cases ?n)
      case Again
      then have "nat (MaxAttempts (ipc_withRetry sdk)) - Suc k < nat (MaxAttempts (ipc_withRetry sdk)) - k"
        by (auto dest!: next_attempt_Again)
      from less [OF this, of "(Some e, s')"] show ?thesis using step Again m Err by (simp add: next_creating_def there)
    qed (use step m Err in \<open>simp_all add: next_creating_def there\<close>)
  next
    case Panic
    then show ?thesis using m by (simp add: here there)
  qed
qed

lemma create_one_eq:
  "create_one P lib A sdk p =
     abind (alift (named_upload P lib sdk p)) (\<lambda>fu.
     abind (chain_wrap A (retry_read A sdk (st_GetBucketByName A (fu_BucketName fu)))) (\<lambda>bucket.
     abind (chain_wrap A (retry_tx A sdk (st_CreateFile A (stb_Id bucket) (fu_Name fu)))) (await_creation A fu)))"
proof -
  have names: "NewIPCFileUpload lib b f = Ok fu \<Longrightarrow> fu_BucketName fu = b \<and> fu_Name fu = f" for b f fu
    by (auto simp: NewIPCFileUpload_def obind_Ok_iff)
  show ?thesis
    by (rule ext)
      (auto simp: create_one_def named_upload_def Let_def abind_def alift_def afail_def amap_err_def await_creation_def
        errors_Join_def map_filter_simps dest!: names split: outcome.splits prod.splits option.splits)
qed

lemma alone_naming: "alone P lib A sdk p st Naming = capture (create_one P lib A sdk p) (snd st)"
proof (cases "named_upload P lib sdk p")
  case (Ok fu)
  then show ?thesis
    by (simp add: alone.simps [of _ _ _ _ _ _ Naming] alone_asking create_one_eq capture_def abind_def amap_err_def retry_read_def retry_act_rest)
qed (simp_all add: alone.simps [of _ _ _ _ _ _ Naming] create_one_eq capture_def abind_def)

section \<open>One at a time\<close>

lemma amap_append:
  "amap f xs s = (Ok ys, s') \<Longrightarrow>
   amap f (xs @ zs) s = (case amap f zs s' of (Ok ws, s'') \<Rightarrow> (Ok (ys @ ws), s'') | (Err e, s'') \<Rightarrow> (Err e, s'') | (Panic, s'') \<Rightarrow> (Panic, s''))"
proof (induction xs arbitrary: s ys)
  case (Cons x xs)
  obtain y s1 vs where "f x s = (Ok y, s1)" "amap f xs s1 = (Ok vs, s')" "ys = y # vs"
    using Cons.prems by (auto simp: abind_Ok_iff)
  with Cons.IH show ?case by (auto simp: abind_def split: prod.splits outcome.splits)
qed (auto split: prod.splits outcome.splits)

lemma amap_indexed:
  "amap (\<lambda>i. abind (g i) (\<lambda>r. aret (i, r))) is s =
     (case amap g is s of (Ok rs, s') \<Rightarrow> (Ok (zip is rs), s') | (Err e, s') \<Rightarrow> (Err e, s') | (Panic, s') \<Rightarrow> (Panic, s'))"
  by (induction "is" arbitrary: s) (auto simp: abind_def split: prod.splits outcome.splits)

text \<open>The reference, and the states in which only the last goroutine launched is active.\<close>

abbreviation creation_of ::
  "prims \<Rightarrow> dag_lib \<Rightarrow> ('s, 'c) api \<Rightarrow> ('cl, 'conn, 'http) IPC \<Rightarrow> CreateFileUploadParam list \<Rightarrow> nat \<Rightarrow>
   ('s, IPCFileUpload option \<times> go_error option) act" where
  "creation_of P lib A sdk params i \<equiv> capture (create_one P lib A sdk (params ! i))"

definition serial ::
  "prims \<Rightarrow> dag_lib \<Rightarrow> ('s, 'c) api \<Rightarrow> ('cl, 'conn, 'http) IPC \<Rightarrow> CreateFileUploadParam list \<Rightarrow> 's \<Rightarrow>
   ('s shared, creating) group_state \<Rightarrow> bool" where
  "serial P lib A sdk params s st \<longleftrightarrow>
     length (gr_tasks st) \<le> length params \<and> (gr_tasks st = [] \<longrightarrow> snd (gr_world st) = s) \<and>
     (\<forall>ts t. gr_tasks st = ts @ [t] \<longrightarrow> (\<exists>rs s1. amap (creation_of P lib A sdk params) [0..<length ts] s = (Ok rs, s1) \<and> ts = map Finished rs \<and>
        alone P lib A sdk (params ! length ts) (gr_world st) t = creation_of P lib A sdk params (length ts) s1))"

interpretation serially: transitions "group_step (create_tasks P lib A \<lparr>mu_ipcSDK = sdk, mu_fileConcurrency = 1\<rparr> params)"
  "\<lambda>st. st = group_start (None, s)" "\<lambda>_. serial P lib A sdk params s" for P lib A sdk params s
proof
  fix es :: "(nat \<times> unit) list" and c st st' es'
  let ?T = "create_tasks P lib A \<lparr>mu_ipcSDK = sdk, mu_fileConcurrency = 1\<rparr> params"
  assume inv: "serial P lib A sdk params s st" and step: "group_step ?T c st = Some (st', es')"
  from step show "serial P lib A sdk params s st'"
  proof (cases rule: group_step_cases)
    case Launch
    have len: "length (gr_tasks st) < length params" using Launch(2) by (simp add: create_tasks_def)
    have idle: "\<forall>t \<in> set (gr_tasks st). creating_over t" using Launch(3) by (auto simp: active_def create_tasks_def filter_empty_conv)
    have "\<not> crashed ?T st" using step by (auto simp: group_step_def split: if_splits)
    then have fin: "\<forall>t \<in> set (gr_tasks st). \<exists>r. t = Finished r"
      using idle by (fastforce simp: crashed_def create_tasks_def creating_over_def split: creating.splits)
    have "\<exists>rs. amap (creation_of P lib A sdk params) [0..<length (gr_tasks st)] s = (Ok rs, snd (gr_world st)) \<and> gr_tasks st = map Finished rs"
    proof (cases "gr_tasks st" rule: rev_cases)
      case Nil
      then show ?thesis using inv by (simp add: serial_def)
    next
      case (snoc ts t)
      then obtain rs s1 r where rs: "amap (creation_of P lib A sdk params) [0..<length ts] s = (Ok rs, s1)" "ts = map Finished rs" "t = Finished r"
        "alone P lib A sdk (params ! length ts) (gr_world st) t = creation_of P lib A sdk params (length ts) s1"
        using inv fin by (auto simp: serial_def)
      from rs(3,4) have "creation_of P lib A sdk params (length ts) s1 = (Ok r, snd (gr_world st))" by simp
      then show ?thesis
        using snoc rs amap_append [of "creation_of P lib A sdk params" "[0..<length ts]" s rs s1 "[length ts]"]
        by (intro exI [of _ "rs @ [r]"]) (simp add: abind_def)
    qed
    then show ?thesis using Launch len by (auto simp: serial_def create_tasks_def alone_naming)
  next
    case (Act i c' w t es0)
    then have step_i: "creating_step P lib A sdk (params ! i) (gr_world st) (gr_tasks st ! i) = Some (w, t, es0)" by (simp add: create_tasks_def)
    obtain ts t0 where ts: "gr_tasks st = ts @ [t0]" using Act(2) by (cases "gr_tasks st" rule: rev_cases) auto
    then obtain rs s1 where rs: "amap (creation_of P lib A sdk params) [0..<length ts] s = (Ok rs, s1)" "ts = map Finished rs"
      "alone P lib A sdk (params ! length ts) (gr_world st) t0 = creation_of P lib A sdk params (length ts) s1"
      using inv by (auto simp: serial_def)
    have "i = length ts"
    proof (rule ccontr)
      assume "i \<noteq> length ts"
      then have "i < length ts" using Act(2) ts by simp
      then have "gr_tasks st ! i = Finished (rs ! i)" using ts rs(2) by (simp add: nth_append)
      then show False using step_i by simp
    qed
    then have "gr_tasks st ! i = t0" "(gr_tasks st)[i := t] = ts @ [t]" using ts by (simp_all add: nth_append list_update_append)
    then show ?thesis using Act(4) ts rs inv alone_step [OF step_i] \<open>i = length ts\<close> by (simp add: serial_def)
  qed
qed (simp add: serial_def group_start_def)

lemma created_results_finished:
  "created_results params (map Finished rs) = map (\<lambda>(p, up, err).
     \<lparr>cfr_BucketName = cfp_BucketName p, cfr_FileName = cfp_FileName p, cfr_FileUpload = up, cfr_Error = err\<rparr>) (zip params rs)"
  by (simp add: created_results_def zip_map2 case_prod_unfold)

lemma CreateFileUploads_in_order:
  assumes "params \<noteq> []" and "name_errors params = []"
  shows "CreateFileUploads P lib A m [0..<length params] params s =
     (case amap (creation_of P lib A (mu_ipcSDK m) params) [0..<length params] s of
        (Ok rs, s') \<Rightarrow> (Ok (created_results params (map Finished rs)), s')
      | (Err e, s') \<Rightarrow> (Err e, s') | (Panic, s') \<Rightarrow> (Panic, s'))"
proof -
  let ?d = "\<lparr>cfr_BucketName = [], cfr_FileName = [], cfr_FileUpload = None, cfr_Error = None\<rparr>"
  let ?entry = "\<lambda>i r. \<lparr>cfr_BucketName = cfp_BucketName (params ! i), cfr_FileName = cfp_FileName (params ! i),
    cfr_FileUpload = fst r, cfr_Error = snd r\<rparr>"
  have "place ?d (length params) (map (\<lambda>(i, up, err). (i, \<lparr>cfr_BucketName = cfp_BucketName (params ! i),
      cfr_FileName = cfp_FileName (params ! i), cfr_FileUpload = up, cfr_Error = err\<rparr>)) (zip [0..<length params] rs)) =
    created_results params (map Finished rs)" if "length rs = length params" for rs
  proof -
    have "zip [0..<length params] rs = map (\<lambda>i. (i, rs ! i)) [0..<length params]" using that by (intro nth_equalityI) auto
    then have "place ?d (length params) (map (\<lambda>(i, up, err). (i, \<lparr>cfr_BucketName = cfp_BucketName (params ! i),
        cfr_FileName = cfp_FileName (params ! i), cfr_FileUpload = up, cfr_Error = err\<rparr>)) (zip [0..<length params] rs)) =
      place ?d (length params) (map (\<lambda>i. (i, ?entry i (rs ! i))) [0..<length params])"
      by (simp add: case_prod_unfold comp_def)
    also have "\<dots> = map (\<lambda>i. ?entry i (rs ! i)) [0..<length params]"
      by (rule place_complete) (simp add: complete_schedule_def atLeast0LessThan)
    also have "\<dots> = created_results params (map Finished rs)"
      using that by (intro nth_equalityI) (simp_all add: created_results_finished case_prod_unfold)
    finally show ?thesis .
  qed
  then show ?thesis
    using assms amap_Ok_length [of "creation_of P lib A (mu_ipcSDK m) params" "[0..<length params]" s]
    by (auto simp: CreateFileUploads_def abind_def amap_indexed split: prod.splits outcome.splits)
qed

lemma serial_end:
  assumes "serial P lib A sdk params s st" and "crashed T st \<or> all_over T st" and "T = create_tasks P lib A \<lparr>mu_ipcSDK = sdk, mu_fileConcurrency = 1\<rparr> params"
    and "params \<noteq> []" and "name_errors params = []"
  shows "CreateFileUploads P lib A \<lparr>mu_ipcSDK = sdk, mu_fileConcurrency = 1\<rparr> [0..<length params] params s =
    (if crashed T st then Panic else Ok (created_results params (gr_tasks st)), snd (gr_world st))"
proof -
  let ?f = "creation_of P lib A sdk params"
  have "gr_tasks st \<noteq> []" using assms(2,3,4) by (auto simp: crashed_def all_over_def create_tasks_def)
  then obtain ts t where ts: "gr_tasks st = ts @ [t]" by (cases "gr_tasks st" rule: rev_cases) auto
  then obtain rs s1 where rs: "amap ?f [0..<length ts] s = (Ok rs, s1)" "ts = map Finished rs"
    "alone P lib A sdk (params ! length ts) (gr_world st) t = ?f (length ts) s1"
    using assms(1) by (auto simp: serial_def)
  have len: "length ts < length params" using assms(1) ts by (simp add: serial_def)
  then have "[0..<length params] = [0..<length ts] @ length ts # [Suc (length ts)..<length params]"
    using upt_add_eq_append [of 0 "length ts" "length params - length ts"] by (simp add: upt_conv_Cons)
  then have all: "amap ?f [0..<length params] s =
      (case amap ?f (length ts # [Suc (length ts)..<length params]) s1 of
         (Ok ws, s'') \<Rightarrow> (Ok (rs @ ws), s'') | (Err e, s'') \<Rightarrow> (Err e, s'') | (Panic, s'') \<Rightarrow> (Panic, s''))"
    using amap_append [OF rs(1), of "length ts # [Suc (length ts)..<length params]"] by simp
  show ?thesis
  proof (cases "t = Crashed")
    case True
    then have "?f (length ts) s1 = (Panic, snd (gr_world st))" using rs(3) by simp
    then show ?thesis
      using True ts all CreateFileUploads_in_order [OF assms(4,5), of P lib A "\<lparr>mu_ipcSDK = sdk, mu_fileConcurrency = 1\<rparr>" s]
      by (simp add: abind_def assms(3) crashed_def create_tasks_def)
  next
    case False
    then have "\<not> crashed T st" using ts rs(2) by (auto simp: assms(3) crashed_def create_tasks_def)
    moreover from this obtain r where r: "t = Finished r" "length params = Suc (length ts)"
      using assms(2) ts False by (auto simp: all_over_def assms(3) create_tasks_def creating_over_def split: creating.splits)
    moreover have "?f (length ts) s1 = (Ok r, snd (gr_world st))" using rs(3) r(1) by simp
    ultimately show ?thesis
      using ts rs(2) all CreateFileUploads_in_order [OF assms(4,5), of P lib A "\<lparr>mu_ipcSDK = sdk, mu_fileConcurrency = 1\<rparr>" s]
      by (simp add: abind_def)
  qed
qed

lemma creation_weight:
  "group_weight (create_tasks P lib A (MultiUpload_of sdk n) params) (creating_weight k) (group_start w) = (5 * k + 9) * length params"
  by (simp add: group_weight_def group_start_def create_tasks_def map_replicate_const sum_list_replicate)

section \<open>Two goroutines\<close>

text \<open>The contract knows all buckets and refuses the file \<open>x\<close>; the world counts the files created.\<close>

definition refusing_api :: "(nat, unit) api" where
  "refusing_api = failing_api\<lparr>
     st_GetBucketByName := (\<lambda>n. aret \<lparr>stb_Id = [9], stb_Name = n, stb_CreatedAt = 7\<rparr>),
     st_CreateFile := (\<lambda>_ f s. if f = ''x'' then (Err ErrFileAlreadyExists, s) else (Ok [1], Suc s)),
     st_WaitForTx := (\<lambda>_. aret ())\<rparr>"

definition two_files :: "CreateFileUploadParam list" where
  "two_files = [\<lparr>cfp_BucketName = ''b'', cfp_FileName = ''x''\<rparr>, \<lparr>cfp_BucketName = ''b'', cfp_FileName = ''y''\<rparr>]"

abbreviation "steps_of i n \<equiv> replicate n (Act i ())"

section \<open>Properties\<close>

lemmas creation_eval = CreateFileUploads_interleaved_def CreateFileUploads_def name_errors_def two_files_def create_tasks_def MultiUpload_of_def
  group_step_def group_start_def crashed_def active_def all_over_def creating_over_def named_upload_def create_one_def maybeEncryptMetadata_def
  errors_Join_def map_filter_simps NewIPCFileUpload_def NewDAGRoot_def sample_dag_lib_def refusing_api_def failing_api_def shared_call_def
  next_creating_def next_attempt_def Let_def

text \<open>C13: With a concurrency of one, creating several files is creating one after the other: every schedule that ends gives
  the results of the sequential \<open>CreateFileUploads\<close> in the order of the parameters, panics included, and leaves the same world. With any
  concurrency, \<open>5 * MaxAttempts + 9\<close> rounds per file end it.\<close>

theorem create_uploads_sequential:
  assumes "n \<le> 1" and "CreateFileUploads_interleaved P lib A (MultiUpload_of sdk n) sched params s = Some r"
  shows "CreateFileUploads P lib A (MultiUpload_of sdk n) [0..<length params] params s = r \<and>
    CreateFileUploads_interleaved P lib A (MultiUpload_of sdk n') (concat (replicate
      ((5 * nat (MaxAttempts (ipc_withRetry sdk)) + 9) * length params) (Launch # map (\<lambda>i. Act i ()) [0..<length params]))) params s' \<noteq> None"
proof (intro conjI)
  have m: "MultiUpload_of sdk n = \<lparr>mu_ipcSDK = sdk, mu_fileConcurrency = 1\<rparr>" using assms(1) by (simp add: MultiUpload_of_def)
  show "CreateFileUploads P lib A (MultiUpload_of sdk n) [0..<length params] params s = r"
  proof (cases "params = [] \<or> name_errors params \<noteq> []")
    case True
    then show ?thesis using assms(2) by (auto simp: CreateFileUploads_interleaved_def CreateFileUploads_def)
  next
    case False
    let ?T = "create_tasks P lib A \<lparr>mu_ipcSDK = sdk, mu_fileConcurrency = 1\<rparr> params"
    obtain st es where run: "schedule (group_step ?T) sched (group_start (None, s)) = (st, es)" by fastforce
    then obtain k where "runs (group_step ?T) (group_start (None, s)) es k st" using schedule_runs [OF runs.start run] by auto
    then have ser: "serial P lib A sdk params s st" by (rule serially.run_inv) simp
    have ended: "crashed ?T st \<or> all_over ?T st" and r: "r = (if crashed ?T st then Panic else Ok (created_results params (gr_tasks st)), snd (gr_world st))"
      using assms(2) False run by (auto simp: CreateFileUploads_interleaved_def Let_def m split: if_splits)
    show ?thesis using serial_end [OF ser ended refl] False by (simp add: m r)
  qed
  let ?T = "create_tasks P lib A (MultiUpload_of sdk n') params"
  let ?k = "(5 * nat (MaxAttempts (ipc_withRetry sdk)) + 9) * length params"
  obtain st es where run: "schedule (group_step ?T) (concat (replicate ?k (group_round ?T [()]))) (group_start (None, s')) = (st, es)" by fastforce
  have "crashed ?T st \<or> all_over ?T st"
    by (rule creations.rounds_end [OF runs.start _ _ run]) (auto simp: creation_weight)
  moreover have "group_round ?T [()] = Launch # map (\<lambda>i. Act i ()) [0..<length params]"
    by (simp add: group_round_def create_tasks_def)
  ultimately show "CreateFileUploads_interleaved P lib A (MultiUpload_of sdk n') (concat (replicate ?k
      (Launch # map (\<lambda>i. Act i ()) [0..<length params]))) params s' \<noteq> None"
    using run by (auto simp: CreateFileUploads_interleaved_def Let_def)
qed

theorem create_uploads_sequential_witness:
  "\<exists>fu. CreateFileUploads sample_prims (sample_dag_lib sample_prims) refusing_api (MultiUpload_of (sample_ipc [] None) 1) [0, 1] two_files 0 =
    (Ok [\<lparr>cfr_BucketName = ''b'', cfr_FileName = ''x'', cfr_FileUpload = None, cfr_Error = Some (errSDK ErrFileAlreadyExists)\<rparr>,
         \<lparr>cfr_BucketName = ''b'', cfr_FileName = ''y'', cfr_FileUpload = Some fu, cfr_Error = None\<rparr>], 1)"
proof -
  have "CreateFileUploads_interleaved sample_prims (sample_dag_lib sample_prims) refusing_api (MultiUpload_of (sample_ipc [] None) 1)
      (Launch # steps_of 0 6 @ Launch # steps_of 1 7) two_files 0 =
    Some (Ok [\<lparr>cfr_BucketName = ''b'', cfr_FileName = ''x'', cfr_FileUpload = None, cfr_Error = Some (errSDK ErrFileAlreadyExists)\<rparr>,
         \<lparr>cfr_BucketName = ''b'', cfr_FileName = ''y'', cfr_FileUpload = Some (sample_upload\<lparr>fu_Name := ''y''\<rparr>), cfr_Error = None\<rparr>], 1)"
    by (simp add: creation_eval numeral_eq_Suc sample_ipc_def sample_upload_def chain_err_def ErrorHashToError_def created_results_def)
  from create_uploads_sequential [OF order_refl this] show ?thesis by (auto simp: two_files_def upt_rec)
qed


end
