(* ===== verification/MultiUploads.thy ===== *)
theory MultiUploads
  imports FileUpload TaskGroups
begin

text \<open>
  \<open>MultiUpload.Upload\<close> (\<open>sdk/multi_upload.go\<close>) with the uploads of its files interleaved. A task is one call of
  \<open>uploadSingleFile\<close>: its own goroutine and, while the pipeline runs, the three of the pipeline. They share the world with those of all
  other files. A call is one step; the mutex around transactions then has nothing to exclude.

  In this setting \<open>IsFileFilled\<close> is polled by a step each time, so no fuel is needed.
\<close>

section \<open>The task of a file\<close>

text \<open>The pipeline keeps the bucket, the key and the upload it was started with. Its world is replaced by the shared one
  before each step.\<close>

datatype 's uploading =
    Starting IPCFileUpload byte_reader
  | Piping "byte list" "byte list" IPCFileUpload "'s pipeline"
  | Committing "byte list" IPCFileUpload
  | Polling "byte list" IPCFileUpload cid st_file
  | Closing "byte list" IPCFileUpload cid st_file
  | Confirming IPCFileUpload IPCFileMetaV2 "byte list"
  | Ended "IPCFileMetaV2 outcome" IPCFileUpload
  | Died IPCFileUpload

definition single_env ::
  "prims \<Rightarrow> dag_lib \<Rightarrow> cid_lib \<Rightarrow> 'k key_lib \<Rightarrow> ('s, 'c) api \<Rightarrow> ('cl, 'conn, 'http) IPC \<Rightarrow> (IPCFileChunkUploadV2 \<Rightarrow> nat list) \<Rightarrow>
   byte list \<Rightarrow> byte list \<Rightarrow> IPCFileUpload \<Rightarrow> 's pipe_env" where
  "single_env P lib clib K A sdk blockSched bucketId key fu =
     (let (bufferSize, bufferCapacity) = calculateBufferSizeAndCapacity sdk key
      in upload_env A lib clib K sdk blockSched (create_chunk P lib clib A sdk key (nat bufferCapacity) bucketId (fu_Name fu))
           (nat bufferSize) bucketId fu)"

definition single_call ::
  "('s, 'a) act \<Rightarrow> IPCFileUpload \<Rightarrow> ('a \<Rightarrow> 's \<Rightarrow> 's uploading) \<Rightarrow> 's \<Rightarrow> ('s \<times> 's uploading \<times> pipe_event list) option" where
  "single_call m fu k s =
     (case m s of
        (Ok x, s') \<Rightarrow> Some (s', k x s', [])
      | (Err e, s') \<Rightarrow> Some (s', Ended (Err e) fu, [])
      | (Panic, s') \<Rightarrow> Some (s', Died fu, []))"

definition pipe_task_step ::
  "'s pipe_env \<Rightarrow> byte list \<Rightarrow> byte list \<Rightarrow> IPCFileUpload \<Rightarrow> choice \<Rightarrow> 's \<Rightarrow> 's pipeline \<Rightarrow> ('s \<times> 's uploading \<times> pipe_event list) option" where
  "pipe_task_step E bucketId key fu c s st =
     (case go_step E c (st\<lparr>pl_world := s\<rparr>) of
        None \<Rightarrow> None
      | Some (st', es) \<Rightarrow>
          Some (pl_world st', if pl_result st' = Panic then Died (pl_upload st') else Piping bucketId key fu st', es))"

text \<open>\<open>None\<close> is the goroutine of the file itself.\<close>

fun single_step ::
  "prims \<Rightarrow> dag_lib \<Rightarrow> cid_lib \<Rightarrow> 'k key_lib \<Rightarrow> ('s, 'c) api \<Rightarrow> ('cl, 'conn, 'http) IPC \<Rightarrow> (IPCFileChunkUploadV2 \<Rightarrow> nat list) \<Rightarrow>
   choice option \<Rightarrow> 's \<Rightarrow> 's uploading \<Rightarrow> ('s \<times> 's uploading \<times> pipe_event list) option" where
  "single_step P lib clib K A sdk blockSched None s (Starting fu reader) =
     (if us_isCommitted (fu_state fu) then Some (s, Ended (Err (errSDK (ErrNew ''file is already committed''))) fu, [])
      else single_call
        (abind (chain_wrap A (retry_read A sdk (st_GetBucketByName A (fu_BucketName fu)))) (\<lambda>bucket.
         abind (alift (map_err errSDK (encryptionKey P (ipc_encryptionKey sdk) [fu_BucketName fu, fu_Name fu]))) (\<lambda>key.
         aret (stb_Id bucket, key))))
        fu (\<lambda>(bucketId, key) s. Piping bucketId key fu (init_pipeline fu reader s)) s)"
| "single_step P lib clib K A sdk blockSched (Some c) s (Piping bucketId key fu st) =
     pipe_task_step (single_env P lib clib K A sdk blockSched bucketId key fu) bucketId key fu c s st"
| "single_step P lib clib K A sdk blockSched None s (Piping bucketId key fu st) =
     (if all_done st
      then Some (s, (case pl_result st of
                       Ok _ \<Rightarrow> Committing bucketId (pl_upload st)
                     | Err e \<Rightarrow> Ended (Err (errSDK e)) (pl_upload st)
                     | Panic \<Rightarrow> Died (pl_upload st)), [])
      else None)"
| "single_step P lib clib K A sdk blockSched None s (Committing bucketId fu) =
     single_call
       (abind (alift (map_err errSDK (Build lib (us_dagRoot (fu_state fu))))) (\<lambda>rootCID.
        abind (chain_wrap A (retry_read A sdk (st_GetFileByName A bucketId (fu_Name fu)))) (\<lambda>fileMeta.
        aret (rootCID, fileMeta))))
       fu (\<lambda>(rootCID, fileMeta) s. Polling bucketId fu rootCID fileMeta) s"
| "single_step P lib clib K A sdk blockSched None s (Polling bucketId fu rootCID fileMeta) =
     single_call (chain_wrap A (retry_read A sdk (st_IsFileFilled A (CalculateFileID (key_eth K) bucketId (fu_Name fu)))))
       fu (\<lambda>filled s. if filled then Closing bucketId fu rootCID fileMeta else Polling bucketId fu rootCID fileMeta) s"
| "single_step P lib clib K A sdk blockSched None s (Closing bucketId fu rootCID fileMeta) =
     single_call
       (chain_wrap A (retry_tx A sdk (st_CommitFile A bucketId (fu_Name fu)
          (us_encodedFileSize (fu_state fu)) (us_actualFileSize (fu_state fu)) rootCID)))
       fu (\<lambda>tx s.
         let fu = fu\<lparr>fu_state := (fu_state fu)\<lparr>us_isCommitted := True\<rparr>\<rparr>
         in Confirming fu \<lparr>fm2_RootCID = cid_String clib rootCID, fm2_BucketName = fu_BucketName fu, fm2_Name = fu_Name fu,
              fm2_EncodedSize = us_encodedFileSize (fu_state fu), fm2_Size = us_actualFileSize (fu_state fu),
              fm2_CreatedAt = stf_CreatedAt fileMeta, fm2_CommittedAt = time_Now A s\<rparr> tx) s"
| "single_step P lib clib K A sdk blockSched None s (Confirming fu meta tx) =
     single_call (sdk_wrap (st_WaitForTx A tx)) fu (\<lambda>_ s. Ended (Ok meta) fu) s"
| "single_step P lib clib K A sdk blockSched c s t = None"

section \<open>All files\<close>

definition upload_tasks ::
  "prims \<Rightarrow> dag_lib \<Rightarrow> cid_lib \<Rightarrow> 'k key_lib \<Rightarrow> ('s, 'c) api \<Rightarrow> ('cl, 'conn, 'http) MultiUpload \<Rightarrow> (IPCFileChunkUploadV2 \<Rightarrow> nat list) \<Rightarrow>
   UploadParam list \<Rightarrow> ('s, 's uploading, choice option, pipe_event) tasks" where
  "upload_tasks P lib clib K A m blockSched params =
     \<lparr>tk_count = length params, tk_limit = nat (mu_fileConcurrency m),
      tk_first = (\<lambda>i. Starting (the (up_FileUpload (params ! i))) (the (up_Reader (params ! i)))),
      tk_step = (\<lambda>_. single_step P lib clib K A (mu_ipcSDK m) blockSched),
      tk_over = (\<lambda>t. case t of Ended _ _ \<Rightarrow> True | Died _ \<Rightarrow> True | _ \<Rightarrow> False),
      tk_crashed = (\<lambda>t. case t of Died _ \<Rightarrow> True | _ \<Rightarrow> False)\<rparr>"

definition uploaded_results :: "UploadParam list \<Rightarrow> 's uploading list \<Rightarrow> UploadResult list" where
  "uploaded_results params ts = map (\<lambda>(p, t).
     (case t of
        Ended res fu \<Rightarrow> snd (upload_entry [p] (0, res, fu))
      | _ \<Rightarrow> \<lparr>ur_BucketName = [], ur_FileName = [], ur_Meta = None, ur_Error = None\<rparr>)) (zip params ts)"

definition MultiUpload_Upload_interleaved ::
  "prims \<Rightarrow> dag_lib \<Rightarrow> cid_lib \<Rightarrow> 'k key_lib \<Rightarrow> ('s, 'c) api \<Rightarrow> ('cl, 'conn, 'http) MultiUpload \<Rightarrow> (IPCFileChunkUploadV2 \<Rightarrow> nat list) \<Rightarrow>
   choice option group_choice list \<Rightarrow> UploadParam list \<Rightarrow> 's \<Rightarrow> (UploadResult list outcome \<times> 's) option" where
  "MultiUpload_Upload_interleaved P lib clib K A m blockSched sched params s =
     (if params = [] then Some (Err (errSDK (ErrNew ''no files to upload'')), s)
      else if param_errors params \<noteq> [] then Some (Err (ErrJoin (param_errors params)), s)
      else
        let T = upload_tasks P lib clib K A m blockSched params in
        (case schedule (group_step T) sched (group_start s) of (st, _) \<Rightarrow>
           if crashed T st then Some (Panic, gr_world st)
           else if all_over T st then Some (Ok (uploaded_results params (gr_tasks st)), gr_world st)
           else None))"

section \<open>What holds of the task of a fresh upload\<close>

definition committed :: "dag_lib \<Rightarrow> cid_lib \<Rightarrow> byte list \<Rightarrow> IPCFileMetaV2 \<Rightarrow> IPCFileUpload \<Rightarrow> bool" where
  "committed lib clib data meta fu \<longleftrightarrow>
     (\<exists>n cs root. 0 < n \<and> full_upload n data cs (fu_state fu) \<and> us_isCommitted (fu_state fu) \<and>
        Build lib (us_dagRoot (fu_state fu)) = Ok root \<and> fm2_RootCID meta = cid_String clib root \<and>
        fm2_Size meta = us_actualFileSize (fu_state fu) \<and> fm2_EncodedSize meta = us_encodedFileSize (fu_state fu))"

fun upload_phase ::
  "prims \<Rightarrow> dag_lib \<Rightarrow> cid_lib \<Rightarrow> 'k key_lib \<Rightarrow> ('s, 'c) api \<Rightarrow> ('cl, 'conn, 'http) IPC \<Rightarrow> (IPCFileChunkUploadV2 \<Rightarrow> nat list) \<Rightarrow>
   IPCFileUpload \<Rightarrow> byte_reader \<Rightarrow> pipe_event list \<Rightarrow> 's uploading \<Rightarrow> bool" where
  "upload_phase P lib clib K A sdk blockSched fu reader es (Starting fu' reader') = (es = [] \<and> fu' = fu \<and> reader' = reader)"
| "upload_phase P lib clib K A sdk blockSched fu reader es (Piping bucketId key fu' st) =
     (fu' = fu \<and> order_inv es st \<and> pl_result st \<noteq> Panic \<and>
      (pl_result st = Ok () \<longrightarrow> pipe_inv (single_env P lib clib K A sdk blockSched bucketId key fu) fu (rd_rest reader) es st))"
| "upload_phase P lib clib K A sdk blockSched fu reader es (Committing bucketId fu') =
     (\<exists>n cs. 0 < n \<and> full_upload n (rd_rest reader) cs (fu_state fu'))"
| "upload_phase P lib clib K A sdk blockSched fu reader es (Polling bucketId fu' root fileMeta) =
     (Build lib (us_dagRoot (fu_state fu')) = Ok root \<and> (\<exists>n cs. 0 < n \<and> full_upload n (rd_rest reader) cs (fu_state fu')))"
| "upload_phase P lib clib K A sdk blockSched fu reader es (Closing bucketId fu' root fileMeta) =
     (Build lib (us_dagRoot (fu_state fu')) = Ok root \<and> (\<exists>n cs. 0 < n \<and> full_upload n (rd_rest reader) cs (fu_state fu')))"
| "upload_phase P lib clib K A sdk blockSched fu reader es (Confirming fu' meta tx) = committed lib clib (rd_rest reader) meta fu'"
| "upload_phase P lib clib K A sdk blockSched fu reader es (Ended r fu') = (\<forall>meta. r = Ok meta \<longrightarrow> committed lib clib (rd_rest reader) meta fu')"
| "upload_phase P lib clib K A sdk blockSched fu reader es (Died fu') = True"

text \<open>The setting in which an upload is fresh and nothing in the libraries is in its way.\<close>

definition fresh_upload :: "dag_lib \<Rightarrow> ('cl, 'conn, 'http) IPC \<Rightarrow> IPCFileUpload \<Rightarrow> bool" where
  "fresh_upload lib sdk fu \<longleftrightarrow> (\<exists>b name. NewIPCFileUpload lib b name = Ok fu) \<and> (\<forall>ls l. AddRawLink lib ls l = Ok ()) \<and>
     2 \<le> ipc_maxBlocksInChunk sdk \<and> (\<forall>ec. ipc_ec sdk = Some ec \<longrightarrow> 0 < DataBlocks ec)"

lemma single_env_fresh:
  fixes P clib K A blockSched bucketId key
  assumes "fresh_upload lib sdk fu"
  defines "E \<equiv> single_env P lib clib K A sdk blockSched bucketId key fu"
  shows "fresh_env E" "pe_lib E = lib" "creates_sized E"
proof -
  have E: "E = upload_env A lib clib K sdk blockSched
      (create_chunk P lib clib A sdk key (nat (snd (calculateBufferSizeAndCapacity sdk key))) bucketId (fu_Name fu))
      (nat (fst (calculateBufferSizeAndCapacity sdk key))) bucketId fu"
    by (simp add: E_def single_env_def case_prod_unfold Let_def)
  show "fresh_env E"
    using assms(1) bufferSize_pos [of sdk key] by (auto simp: E fresh_env_def fresh_upload_def dest: new_upload_fresh)
  show "pe_lib E = lib" by (simp add: E)
  show "creates_sized E" by (auto simp: E creates_sized_def create_chunk_def abind_Ok_iff dest!: createChunkUpload_sizes)
qed

lemma single_call_cases:
  assumes "single_call m fu k s = Some (s', t', es)"
  obtains (Ok) x w where "m s = (Ok x, w)" "t' = k x w" "es = []" | (Err) e where "t' = Ended (Err e) fu" "es = []" | (Panic) "t' = Died fu" "es = []"
  using assms by (auto simp: single_call_def split: prod.splits outcome.splits)

lemma full_upload_committed: "full_upload n data cs (us\<lparr>us_isCommitted := b\<rparr>) = full_upload n data cs us"
  by (simp add: full_upload_def)

lemma pipe_task_phase:
  assumes fresh: "fresh_upload lib sdk fu" and "pl_result st \<noteq> Panic"
    and ph: "upload_phase P lib clib K A sdk blockSched fu reader es (Piping bucketId key fu st)"
    and step: "pipe_task_step (single_env P lib clib K A sdk blockSched bucketId key fu) bucketId key fu c s st = Some (s', t', es')"
  shows "upload_phase P lib clib K A sdk blockSched fu reader (es @ es') t' \<and> registered_first (es @ es')"
proof -
  let ?E = "single_env P lib clib K A sdk blockSched bucketId key fu"
  note E = single_env_fresh [OF fresh, of P clib K A blockSched bucketId key]
  obtain st' where go: "go_step ?E c (st\<lparr>pl_world := s\<rparr>) = Some (st', es')"
    and t': "t' = (if pl_result st' = Panic then Died (pl_upload st') else Piping bucketId key fu st')"
    using step by (auto simp: pipe_task_step_def split: option.splits prod.splits)
  have ord: "order_inv (es @ es') st'"
    using upload_order.step_inv [OF _ go] ph E(1) by (simp add: fresh_env_def)
  moreover have "pl_result st' = Ok () \<longrightarrow> pipe_inv ?E fu (rd_rest reader) (es @ es') st'"
    using upload_inv.step_inv [OF _ go] ph E(1) by simp
  ultimately show ?thesis using t' by (auto simp: order_inv_def)
qed

lemma init_result [simp]: "pl_result (init_pipeline fu reader w) = Ok ()"
  by (simp add: init_pipeline_def)

lemma single_step_phase:
  assumes fresh: "fresh_upload lib sdk fu" and ph: "upload_phase P lib clib K A sdk blockSched fu reader es t" and "registered_first es"
    and step: "single_step P lib clib K A sdk blockSched c s t = Some (s', t', es')"
  shows "upload_phase P lib clib K A sdk blockSched fu reader (es @ es') t' \<and> registered_first (es @ es')"
proof (cases t)
  case (Starting fu0 reader0)
  then have [simp]: "es = []" "fu0 = fu" "reader0 = reader" using ph by auto
  have init: "order_inv [] (init_pipeline fu reader w)" "pipe_inv E fu (rd_rest reader) [] (init_pipeline fu reader w)" for w E
    using init_inv [of E fu reader w] by (auto simp: order_inv_def init_pipeline_def fresh_waiter_def registered_first_def)
  show ?thesis
    using step Starting assms(3) init by (cases c) (auto split: if_splits elim!: single_call_cases)
next
  case (Piping bucketId key fu0 st)
  then have [simp]: "fu0 = fu" and pipe: "upload_phase P lib clib K A sdk blockSched fu reader es (Piping bucketId key fu st)"
    using ph by auto
  show ?thesis
  proof (cases c)
    case (Some ch)
    have "pl_result st \<noteq> Panic" using step Piping Some by (auto simp: pipe_task_step_def)
    then show ?thesis using pipe_task_phase [OF fresh _ pipe] step Piping Some by simp
  next
    case None
    note E = single_env_fresh [OF fresh, of P clib K A blockSched bucketId key]
    obtain b name where new: "NewIPCFileUpload lib b name = Ok fu" using fresh by (auto simp: fresh_upload_def)
    have "\<exists>n cs. 0 < n \<and> full_upload n (rd_rest reader) cs (the_state st)" if "all_done st" "pl_result st = Ok ()"
      using pipeline_full [OF _ that(1) new _ E(2) _ E(3), of "rd_rest reader" es] E(1,2) ph Piping that(2)
      by (auto simp: fresh_env_def)
    then show ?thesis using step Piping None assms(3) by (auto split: if_splits outcome.splits) blast
  qed
next
  case (Closing bucketId fu0 root fileMeta)
  then obtain n cs where "0 < n" "full_upload n (rd_rest reader) cs (fu_state fu0)" "Build lib (us_dagRoot (fu_state fu0)) = Ok root"
    using ph by auto
  then show ?thesis
    using step Closing assms(3) by (cases c) (auto simp: committed_def Let_def full_upload_committed elim!: single_call_cases, blast+)
qed (use step ph assms(3) in \<open>cases c; auto simp: abind_Ok_iff alift_def elim!: single_call_cases split: if_splits\<close>)+

text \<open>A task that is not over can make a step.\<close>

lemma single_call_some [simp]: "\<exists>s' t' es. single_call m fu k s = Some (s', t', es)"
  by (auto simp: single_call_def split: prod.splits outcome.splits)

lemma single_progress:
  assumes fresh: "fresh_upload lib sdk fu" and "0 < ipc_chunkBatchSize sdk"
    and ph: "upload_phase P lib clib K A sdk blockSched fu reader es t"
  shows "(\<exists>c. single_step P lib clib K A sdk blockSched c s t \<noteq> None) \<or> (\<exists>r fu'. t = Ended r fu' \<or> t = Died fu')"
proof (cases t)
  case (Piping b key fu0 st)
  note E = single_env_fresh [OF fresh, of P clib K A blockSched b key]
  let ?E = "single_env P lib clib K A sdk blockSched b key fu" and ?st = "st\<lparr>pl_world := s\<rparr>"
  have "fu0 = fu" "pl_result st \<noteq> Panic" using ph Piping by auto
  show ?thesis
  proof (cases "all_done st")
    case True
    then show ?thesis using Piping by (auto intro!: exI [of _ None])
  next
    case False
    then have "\<not> (pl_result ?st = Panic \<or> all_done ?st)" using \<open>pl_result st \<noteq> Panic\<close> by (simp add: all_done_def)
    moreover have "0 < pe_batchSize ?E" using assms(2) by (simp add: single_env_def upload_env_def case_prod_unfold Let_def)
    ultimately obtain c where "go_step ?E c ?st \<noteq> None"
      using uploads.progress [of ?E es ?st fu "rd_rest reader"] ph Piping E(1) by auto
    then show ?thesis using Piping \<open>fu0 = fu\<close> by (auto simp: pipe_task_step_def intro!: exI [of _ "Some c"] split: option.splits)
  qed
qed (auto intro!: exI [of _ None])

section \<open>All interleavings\<close>

definition upload_task_inv ::
  "prims \<Rightarrow> dag_lib \<Rightarrow> cid_lib \<Rightarrow> 'k key_lib \<Rightarrow> ('s, 'c) api \<Rightarrow> ('cl, 'conn, 'http) IPC \<Rightarrow> (IPCFileChunkUploadV2 \<Rightarrow> nat list) \<Rightarrow>
   UploadParam list \<Rightarrow> nat \<Rightarrow> pipe_event list \<Rightarrow> 's uploading \<Rightarrow> bool" where
  "upload_task_inv P lib clib K A sdk blockSched params i es t \<longleftrightarrow>
     fresh_upload lib sdk (the (up_FileUpload (params ! i))) \<longrightarrow>
       registered_first es \<and>
       upload_phase P lib clib K A sdk blockSched (the (up_FileUpload (params ! i))) (the (up_Reader (params ! i))) es t"

interpretation multi: errgroup "upload_tasks P lib clib K A m blockSched params"
  "upload_task_inv P lib clib K A (mu_ipcSDK m) blockSched params" for P lib clib K A m blockSched params
proof
  fix i
  show "upload_task_inv P lib clib K A (mu_ipcSDK m) blockSched params i [] (tk_first (upload_tasks P lib clib K A m blockSched params) i)"
    by (simp add: upload_task_inv_def upload_tasks_def registered_first_def)
next
  fix i es t c w w' t' es'
  assume "upload_task_inv P lib clib K A (mu_ipcSDK m) blockSched params i es t"
    and "tk_step (upload_tasks P lib clib K A m blockSched params) i c w t = Some (w', t', es')"
  then show "upload_task_inv P lib clib K A (mu_ipcSDK m) blockSched params i (es @ es') t'"
    using single_step_phase by (fastforce simp: upload_task_inv_def upload_tasks_def)
next
  fix i c w t
  assume "tk_over (upload_tasks P lib clib K A m blockSched params) t"
  then show "tk_step (upload_tasks P lib clib K A m blockSched params) i c w t = None"
    by (cases t; cases c) (simp_all add: upload_tasks_def)
qed


section \<open>One file after the other\<close>

text \<open>A task with the world to itself; the sequential \<open>uploadSingleFile\<close> is such a run.\<close>

fun alone_step ::
  "('k \<Rightarrow> 's \<Rightarrow> 's uploading \<Rightarrow> ('s \<times> 's uploading \<times> pipe_event list) option) \<Rightarrow> 'k \<Rightarrow> 's \<times> 's uploading \<Rightarrow>
   (('s \<times> 's uploading) \<times> pipe_event list) option" where
  "alone_step f c (s, t) = map_option (\<lambda>(s', t', es). ((s', t'), es)) (f c s t)"

definition ended_task :: "IPCFileMetaV2 outcome \<Rightarrow> IPCFileUpload \<Rightarrow> 's uploading" where
  "ended_task r fu = (if r = Panic then Died fu else Ended r fu)"

text \<open>Some choices bring the task, with its world, to its end.\<close>

definition ends ::
  "(choice option \<Rightarrow> 's \<Rightarrow> 's uploading \<Rightarrow> ('s \<times> 's uploading \<times> pipe_event list) option) \<Rightarrow> 's \<Rightarrow> 's uploading \<Rightarrow> 's upload_result \<Rightarrow> bool" where
  "ends f s t r \<longleftrightarrow> (\<forall>res fu s'. r = Some (res, fu, s') \<longrightarrow> (\<exists>cs es. schedule (alone_step f) cs (s, t) = ((s', ended_task res fu), es)))"

lemma ends_run:
  assumes "schedule (alone_step f) cs (s, t) = ((s1, t1), es1)" and "ends f s1 t1 r"
  shows "ends f s t r"
  unfolding ends_def
proof (intro allI impI)
  fix res fu s'
  assume "r = Some (res, fu, s')"
  then obtain cs2 es2 where "schedule (alone_step f) cs2 (s1, t1) = ((s', ended_task res fu), es2)"
    using assms(2) by (auto simp: ends_def)
  then have "schedule (alone_step f) (cs @ cs2) (s, t) = ((s', ended_task res fu), es1 @ es2)"
    by (simp add: schedule_append assms(1))
  then show "\<exists>cs es. schedule (alone_step f) cs (s, t) = ((s', ended_task res fu), es)" by blast
qed

lemma ends_step: "f c s t = Some (s1, t1, es) \<Longrightarrow> ends f s1 t1 r \<Longrightarrow> ends f s t r"
  by (rule ends_run [where cs = "[c]" and ?es1.0 = es]) simp_all

lemma ends_here: "t = ended_task res fu \<Longrightarrow> ends f s t (Some (res, fu, s))"
  by (auto simp: ends_def intro!: exI [of _ "[]"])

lemma ends_None: "ends f s t None"
  by (simp add: ends_def)

lemma ends_call:
  assumes "f c s t = single_call m fu k s" and "\<And>x s'. m s = (Ok x, s') \<Longrightarrow> ends f s' (k x s') (g x s')"
  shows "ends f s t (upload_bind fu m s g)"
proof (cases "m s")
  case (Pair r s')
  have over: "f c s t = Some (s', ended_task r' fu, []) \<Longrightarrow> ends f s t (Some (r', fu, s'))" for r'
    by (rule ends_step [OF _ ends_here]) simp_all
  show ?thesis
  proof (cases r)
    case (Ok x)
    then have "f c s t = Some (s', k x s', [])" using assms(1) Pair by (simp add: single_call_def)
    then show ?thesis using ends_step [OF _ assms(2)] Pair Ok by (simp add: upload_bind_def)
  next
    case (Err e)
    then show ?thesis using over [of "Err e"] assms(1) Pair by (simp add: single_call_def upload_bind_def ended_task_def)
  next
    case Panic
    then show ?thesis using over [of Panic] assms(1) Pair by (simp add: single_call_def upload_bind_def ended_task_def)
  qed
qed

lemma upload_bind_cong: "(\<And>x s'. m s = (Ok x, s') \<Longrightarrow> g x s' = h x s') \<Longrightarrow> upload_bind fu m s g = upload_bind fu m s h"
  by (auto simp: upload_bind_def split: prod.splits outcome.splits)

lemma upload_bind_abind:
  "upload_bind fu m s (\<lambda>x s. upload_bind fu (h x) s (g x)) =
   upload_bind fu (abind m (\<lambda>x. abind (h x) (\<lambda>y. aret (x, y)))) s (\<lambda>(x, y). g x y)"
  by (auto simp: upload_bind_def abind_def aret_def split: prod.splits outcome.splits)

text \<open>The pipeline, the wait for the contract, the commit and the whole upload.\<close>

lemma pipeline_alone:
  assumes "schedule (go_step (single_env P lib clib K A sdk blockSched b key fu)) cs st = (st', es)" and "pl_result st \<noteq> Panic"
  shows "schedule (alone_step (single_step P lib clib K A sdk blockSched)) (map Some cs) (pl_world st, Piping b key fu st) =
    ((pl_world st', if pl_result st' = Panic then Died (pl_upload st') else Piping b key fu st'), es)"
  using assms
proof (induction cs arbitrary: st es)
  case (Cons c cs)
  let ?E = "single_env P lib clib K A sdk blockSched b key fu"
  have same: "st\<lparr>pl_world := pl_world st\<rparr> = st" by simp
  show ?case
  proof (cases "go_step ?E c st")
    case None
    then show ?thesis using Cons by (simp add: pipe_task_step_def same)
  next
    case (Some p)
    obtain st1 es1 where p: "p = (st1, es1)" by fastforce
    obtain es2 where r: "schedule (go_step ?E) cs st1 = (st', es2)" "es = es1 @ es2"
      using schedule_step [OF Some [unfolded p] Cons.prems(1)] by blast
    show ?thesis
    proof (cases "pl_result st1 = Panic")
      case True
      then have "schedule (go_step ?E) cs st1 = (st1, [])" for cs by (induction cs) auto
      moreover have "schedule (alone_step (single_step P lib clib K A sdk blockSched)) cs' (w, Died fu') = ((w, Died fu'), [])" for cs' w fu' by (induction cs') auto
      ultimately show ?thesis using Some p r True by (simp add: pipe_task_step_def same)
    next
      case False
      show ?thesis using Cons.IH [OF r(1) False] Some p r(2) False by (simp add: pipe_task_step_def same)
    qed
  qed
qed simp

lemma polling_ends:
  assumes "\<And>s'. ends (single_step P lib clib K A sdk blockSched) s' (Closing b fu root fileMeta) (g s')"
  shows "ends (single_step P lib clib K A sdk blockSched) s (Polling b fu root fileMeta)
    (case wait_filled n (chain_wrap A (retry_read A sdk (st_IsFileFilled A (CalculateFileID (key_eth K) b (fu_Name fu))))) s of
       None \<Rightarrow> None | Some filled \<Rightarrow> upload_bind fu (\<lambda>_. filled) s (\<lambda>_. g))"
proof (induction n arbitrary: s)
  case 0
  show ?case by (simp add: ends_None)
next
  case (Suc n)
  let ?m = "chain_wrap A (retry_read A sdk (st_IsFileFilled A (CalculateFileID (key_eth K) b (fu_Name fu))))"
  have "(case wait_filled (Suc n) ?m s of None \<Rightarrow> None | Some filled \<Rightarrow> upload_bind fu (\<lambda>_. filled) s (\<lambda>_. g)) =
    upload_bind fu ?m s (\<lambda>filled s'. if filled then g s'
      else (case wait_filled n ?m s' of None \<Rightarrow> None | Some filled \<Rightarrow> upload_bind fu (\<lambda>_. filled) s' (\<lambda>_. g)))"
    by (auto simp: upload_bind_def split: prod.splits outcome.splits option.splits bool.splits)
  moreover have "ends (single_step P lib clib K A sdk blockSched) s (Polling b fu root fileMeta) \<dots>"
    by (rule ends_call [where c = None]) (auto simp: assms Suc.IH)
  ultimately show ?case by simp
qed

lemma commit_ends:
  "ends (single_step P lib clib K A sdk blockSched) s (Committing b fu) (commit_file lib clib (key_eth K) A sdk fuel b fu s)"
proof -
  let ?us = "fu_state fu" and ?fu = "fu\<lparr>fu_state := (fu_state fu)\<lparr>us_isCommitted := True\<rparr>\<rparr>"
  define meta where "meta root fileMeta s = \<lparr>fm2_RootCID = cid_String clib root, fm2_BucketName = fu_BucketName fu, fm2_Name = fu_Name fu,
    fm2_EncodedSize = us_encodedFileSize ?us, fm2_Size = us_actualFileSize ?us, fm2_CreatedAt = stf_CreatedAt fileMeta,
    fm2_CommittedAt = time_Now A s\<rparr>" for root and fileMeta :: st_file and s
  define closing where "closing root fileMeta s =
    upload_bind fu (chain_wrap A (retry_tx A sdk (st_CommitFile A b (fu_Name fu) (us_encodedFileSize ?us) (us_actualFileSize ?us) root))) s
      (\<lambda>tx s. upload_bind ?fu (sdk_wrap (st_WaitForTx A tx)) s (\<lambda>_ s'. Some (Ok (meta root fileMeta s), ?fu, s')))" for root and fileMeta :: st_file and s
  have confirming: "ends (single_step P lib clib K A sdk blockSched) s (Confirming ?fu m tx) (upload_bind ?fu (sdk_wrap (st_WaitForTx A tx)) s (\<lambda>_ s. Some (Ok m, ?fu, s)))" for s m tx
    by (rule ends_call [where c = None]) (auto intro!: ends_here simp: ended_task_def)
  have closes: "ends (single_step P lib clib K A sdk blockSched) s (Closing b fu root fileMeta) (closing root fileMeta s)" for s root fileMeta
    unfolding closing_def by (rule ends_call [where c = None]) (auto simp: Let_def meta_def intro!: confirming)
  have "commit_file lib clib (key_eth K) A sdk fuel b fu s =
    upload_bind fu (abind (alift (map_err errSDK (Build lib (us_dagRoot ?us)))) (\<lambda>rootCID.
      abind (chain_wrap A (retry_read A sdk (st_GetFileByName A b (fu_Name fu)))) (\<lambda>fileMeta. aret (rootCID, fileMeta)))) s
      (\<lambda>(root, fileMeta) s.
        case wait_filled fuel (chain_wrap A (retry_read A sdk (st_IsFileFilled A (CalculateFileID (key_eth K) b (fu_Name fu))))) s of
          None \<Rightarrow> None | Some filled \<Rightarrow> upload_bind fu (\<lambda>_. filled) s (\<lambda>_. closing root fileMeta))"
    unfolding commit_file_def
    by (subst upload_bind_abind, rule upload_bind_cong) (auto simp: closing_def [abs_def] meta_def Let_def split: option.split)
  moreover have "ends (single_step P lib clib K A sdk blockSched) s (Committing b fu) \<dots>"
    by (rule ends_call [where c = None]) (auto intro: polling_ends closes)
  ultimately show ?thesis by simp
qed

lemma upload_ends:
  "ends (single_step P lib clib K A sdk blockSched) s (Starting fu reader) (uploadSingleFile P lib clib K A sdk blockSched sched fuel fu reader s)"
proof (cases "us_isCommitted (fu_state fu)")
  case True
  have "ends (single_step P lib clib K A sdk blockSched) s (Starting fu reader)
      (Some (Err (errSDK (ErrNew ''file is already committed'')), fu, s))"
    by (rule ends_step [where c = None, OF _ ends_here]) (use True in \<open>simp_all add: ended_task_def\<close>)
  then show ?thesis using True by (simp add: uploadSingleFile_def)
next
  case False
  have piping: "ends (single_step P lib clib K A sdk blockSched) s (Piping b key fu (init_pipeline fu reader s))
      (run_pipeline (single_env P lib clib K A sdk blockSched b key fu) sched fu reader s (commit_file lib clib (key_eth K) A sdk fuel b))"
    for s b key
  proof -
    obtain st es where run: "run_schedule (single_env P lib clib K A sdk blockSched b key fu) sched (init_pipeline fu reader s) = (st, es)" by fastforce
    have steps: "schedule (alone_step (single_step P lib clib K A sdk blockSched)) (map Some sched) (s, Piping b key fu (init_pipeline fu reader s)) =
        ((pl_world st, if pl_result st = Panic then Died (pl_upload st) else Piping b key fu st), es)"
      using pipeline_alone [OF run] by (simp add: init_pipeline_def)
    have close: "ends (single_step P lib clib K A sdk blockSched) (pl_world st) (Piping b key fu st) (case pl_result st of
        Err e \<Rightarrow> Some (Err (errSDK e), pl_upload st, pl_world st) | _ \<Rightarrow> commit_file lib clib (key_eth K) A sdk fuel b (pl_upload st) (pl_world st))"
      if "all_done st" "pl_result st \<noteq> Panic"
    proof (cases "pl_result st")
      case (Ok u)
      show ?thesis by (rule ends_step [where c = None]) (use that Ok commit_ends in auto)
    next
      case (Err e)
      have "ends (single_step P lib clib K A sdk blockSched) (pl_world st) (Piping b key fu st)
          (Some (Err (errSDK e), pl_upload st, pl_world st))"
        by (rule ends_step [where c = None, OF _ ends_here]) (use that Err in \<open>simp_all add: ended_task_def\<close>)
      then show ?thesis using Err by simp
    qed (use that in simp)
    show ?thesis
    proof (cases "pl_result st = Panic")
      case True
      then show ?thesis using steps by (intro ends_run [OF steps]) (auto simp: run_pipeline_def run ended_task_def intro!: ends_here)
    next
      case False
      then show ?thesis using close by (intro ends_run [OF steps]) (simp add: run_pipeline_def run ends_None)
    qed
  qed
  have "uploadSingleFile P lib clib K A sdk blockSched sched fuel fu reader s =
    upload_bind fu (abind (chain_wrap A (retry_read A sdk (st_GetBucketByName A (fu_BucketName fu)))) (\<lambda>bucket.
      abind (alift (map_err errSDK (encryptionKey P (ipc_encryptionKey sdk) [fu_BucketName fu, fu_Name fu]))) (\<lambda>key. aret (bucket, key)))) s
      (\<lambda>(bucket, key) s. run_pipeline (single_env P lib clib K A sdk blockSched (stb_Id bucket) key fu) sched fu reader s
        (commit_file lib clib (key_eth K) A sdk fuel (stb_Id bucket)))"
    using False by (simp add: uploadSingleFile_def upload_bind_abind single_env_def case_prod_unfold Let_def)
  also have "\<dots> =
    upload_bind fu (abind (chain_wrap A (retry_read A sdk (st_GetBucketByName A (fu_BucketName fu)))) (\<lambda>bucket.
      abind (alift (map_err errSDK (encryptionKey P (ipc_encryptionKey sdk) [fu_BucketName fu, fu_Name fu]))) (\<lambda>key. aret (stb_Id bucket, key)))) s
      (\<lambda>(b, key) s. run_pipeline (single_env P lib clib K A sdk blockSched b key fu) sched fu reader s
        (commit_file lib clib (key_eth K) A sdk fuel b))"
    by (auto simp: upload_bind_def abind_def aret_def split: prod.splits outcome.splits)
  finally have e: "uploadSingleFile P lib clib K A sdk blockSched sched fuel fu reader s = \<dots>" .
  show ?thesis unfolding e by (rule ends_call [where c = None]) (use False piping in auto)
qed

text \<open>The steps of a task alone are steps of the last task of the group.\<close>

lemma group_alone:
  assumes "schedule (alone_step f) cs (s, t) = ((s', t'), es)" and "tk_step T (length ts) = f" and "\<forall>u \<in> set ts. \<not> tk_crashed T u"
    and "\<And>c w u. tk_crashed T u \<Longrightarrow> f c w u = None"
  shows "schedule (group_step T) (map (Act (length ts)) cs) \<lparr>gr_world = s, gr_tasks = ts @ [t]\<rparr> =
    (\<lparr>gr_world = s', gr_tasks = ts @ [t']\<rparr>, map (Pair (length ts)) es)"
  using assms(1)
proof (induction cs arbitrary: s t es)
  case (Cons c cs)
  show ?case
  proof (cases "f c s t")
    case None
    then have "schedule (alone_step f) cs (s, t) = ((s', t'), es)" using Cons.prems by simp
    then show ?thesis using Cons.IH None assms(2) by (simp add: group_step_def)
  next
    case (Some p)
    obtain s1 t1 es1 where p: "p = (s1, t1, es1)" by (metis prod_cases3)
    then obtain es2 where r: "schedule (alone_step f) cs (s1, t1) = ((s', t'), es2)" "es = es1 @ es2"
      using Cons.prems Some by (auto split: prod.splits)
    have "\<not> tk_crashed T t" using assms(4) Some by force
    then have "group_step T (Act (length ts) c) \<lparr>gr_world = s, gr_tasks = ts @ [t]\<rparr> =
        Some (\<lparr>gr_world = s1, gr_tasks = ts @ [t1]\<rparr>, map (Pair (length ts)) es1)"
      using Some p assms(2,3) by (simp add: group_step_def crashed_def)
    then show ?thesis using Cons.IH [OF r(1)] r(2) by simp
  qed
qed simp

lemma uploads_in_order:
  fixes P lib clib K A sdk blockSched params n sched fuel
  defines "T \<equiv> upload_tasks P lib clib K A (MultiUpload_of sdk n) blockSched params"
  assumes "upload_files (uploadSingleFile P lib clib K A sdk blockSched sched fuel) params [k..<length params] s = Some (rs, s')"
    and "length ts = k" and "k \<le> length params" and "\<forall>t \<in> set ts. \<exists>r fu. t = Ended r fu"
  shows "\<exists>cs es. schedule (group_step T) cs \<lparr>gr_world = s, gr_tasks = ts\<rparr> =
      (\<lparr>gr_world = s', gr_tasks = ts @ map (\<lambda>(i, r, fu). ended_task r fu) rs\<rparr>, es) \<and>
    ((\<forall>(i, r, fu) \<in> set rs. r \<noteq> Panic) \<longrightarrow> map fst rs = [k..<length params])"
  using assms(2-5)
proof (induction "length params - k" arbitrary: k s rs ts)
  case 0
  then show ?case by (auto intro!: exI [of _ "[]"])
next
  case (Suc m)
  let ?single = "uploadSingleFile P lib clib K A sdk blockSched sched fuel" and ?f = "single_step P lib clib K A sdk blockSched"
  let ?fu = "the (up_FileUpload (params ! k))" and ?reader = "the (up_Reader (params ! k))"
  have k: "k < length params" "[k..<length params] = k # [Suc k..<length params]" using Suc.hyps(2) by (simp_all add: upt_conv_Cons)
  obtain r fu s1 where one: "?single ?fu ?reader s = Some (r, fu, s1)"
    using Suc.prems(1) by (auto simp: k(2) split: option.splits)
  then obtain cs1 es1 where alone: "schedule (alone_step ?f) cs1 (s, Starting ?fu ?reader) = ((s1, ended_task r fu), es1)"
    using upload_ends [of P lib clib K A sdk blockSched s ?fu ?reader sched fuel] by (auto simp: ends_def)
  have T: "tk_step T k = ?f" "tk_first T k = Starting ?fu ?reader" "tk_count T = length params" "0 < tk_limit T"
    by (simp_all add: T_def upload_tasks_def MultiUpload_of_def)
  have fine: "\<forall>u \<in> set ts. \<not> tk_crashed T u \<and> tk_over T u" using Suc.prems(4) by (auto simp: T_def upload_tasks_def)
  have "?f c w u = None" if "tk_crashed T u" for c w u using that by (cases u; cases c) (auto simp: T_def upload_tasks_def)
  then have "schedule (group_step T) (map (Act k) cs1) \<lparr>gr_world = s, gr_tasks = ts @ [Starting ?fu ?reader]\<rparr> =
      (\<lparr>gr_world = s1, gr_tasks = ts @ [ended_task r fu]\<rparr>, map (Pair k) es1)"
    using group_alone [OF alone, of T ts] fine T(1) Suc.prems(2) by simp
  moreover have "group_step T Launch \<lparr>gr_world = s, gr_tasks = ts\<rparr> = Some (\<lparr>gr_world = s, gr_tasks = ts @ [Starting ?fu ?reader]\<rparr>, [])"
    using fine T(2-4) k(1) Suc.prems(2) by (auto simp: group_step_def crashed_def active_def filter_empty_conv)
  ultimately have first: "schedule (group_step T) (Launch # map (Act k) cs1) \<lparr>gr_world = s, gr_tasks = ts\<rparr> =
      (\<lparr>gr_world = s1, gr_tasks = ts @ [ended_task r fu]\<rparr>, map (Pair k) es1)" by simp
  show ?case
  proof (cases "r = Panic")
    case True
    then have "rs = [(k, r, fu)]" "s' = s1" using Suc.prems(1) one by (simp_all add: k(2))
    then show ?thesis using first True by (intro exI [of _ "Launch # map (Act k) cs1"] exI conjI) (auto simp del: schedule.simps)
  next
    case False
    then obtain rs' where rs: "upload_files ?single params [Suc k..<length params] s1 = Some (rs', s')" "rs = (k, r, fu) # rs'"
      using Suc.prems(1) one by (auto simp: k(2) split: option.splits)
    have ended: "\<forall>t \<in> set (ts @ [ended_task r fu]). \<exists>r fu. t = Ended r fu" using Suc.prems(4) False by (auto simp: ended_task_def)
    have "\<exists>cs es. schedule (group_step T) cs \<lparr>gr_world = s1, gr_tasks = ts @ [ended_task r fu]\<rparr> =
        (\<lparr>gr_world = s', gr_tasks = (ts @ [ended_task r fu]) @ map (\<lambda>(i, r, fu). ended_task r fu) rs'\<rparr>, es) \<and>
      ((\<forall>(i, r, fu) \<in> set rs'. r \<noteq> Panic) \<longrightarrow> map fst rs' = [Suc k..<length params])"
      by (rule Suc.hyps(1) [OF _ rs(1) _ _ ended]) (use Suc.hyps(2) Suc.prems(2) k(1) in simp_all)
    then obtain cs2 es2 where "schedule (group_step T) cs2 \<lparr>gr_world = s1, gr_tasks = ts @ [ended_task r fu]\<rparr> =
        (\<lparr>gr_world = s', gr_tasks = (ts @ [ended_task r fu]) @ map (\<lambda>(i, r, fu). ended_task r fu) rs'\<rparr>, es2)"
      and rest: "(\<forall>(i, r, fu) \<in> set rs'. r \<noteq> Panic) \<longrightarrow> map fst rs' = [Suc k..<length params]"
      by blast
    then have "schedule (group_step T) ((Launch # map (Act k) cs1) @ cs2) \<lparr>gr_world = s, gr_tasks = ts\<rparr> =
        (\<lparr>gr_world = s', gr_tasks = ts @ map (\<lambda>(i, r, fu). ended_task r fu) rs\<rparr>, map (Pair k) es1 @ es2)"
      unfolding schedule_append first by (simp add: rs(2))
    moreover have "(\<forall>(i, r, fu) \<in> set rs. r \<noteq> Panic) \<longrightarrow> map fst rs = [k..<length params]"
      using rest by (simp add: rs(2) k(2))
    ultimately show ?thesis by blast
  qed
qed

lemma uploaded_in_order:
  assumes "map fst rs = [0..<length params]" and "\<forall>(i, r, fu) \<in> set rs. r \<noteq> Panic"
  shows "uploaded_results params (map (\<lambda>(i, r, fu). ended_task r fu) rs) =
    place \<lparr>ur_BucketName = [], ur_FileName = [], ur_Meta = None, ur_Error = None\<rparr> (length params) (map (upload_entry params) rs)"
proof -
  have len: "length rs = length params" using assms(1) by (metis length_map diff_zero length_upt)
  have ix: "fst (rs ! i) = i" if "i < length params" for i
    using that assms(1) len by (metis add_0 diff_zero nth_map nth_upt)
  then have "map (upload_entry params) rs = map (\<lambda>i. (i, snd (upload_entry params (rs ! i)))) [0..<length params]"
    using len by (intro nth_equalityI) (auto simp: upload_entry_def case_prod_unfold)
  moreover have "place d (length params) (map (\<lambda>i. (i, f i)) [0..<length params]) = map f [0..<length params]" for d :: UploadResult and f
    by (rule place_complete) (simp add: complete_schedule_def atLeast0LessThan)
  moreover have "r \<noteq> Panic" if "(i, r, fu) \<in> set rs" for i r fu using assms(2) that by auto
  then have "snd (snd (rs ! i)) = snd (snd (rs ! i)) \<and> fst (snd (rs ! i)) \<noteq> Panic" if "i < length params" for i
    using that len by (metis nth_mem prod.collapse)
  ultimately show ?thesis
    using len ix by (intro nth_equalityI) (auto simp: uploaded_results_def upload_entry_def ended_task_def case_prod_unfold)
qed

section \<open>Properties\<close>







end
